(* ===== verification/Prelude.thy ===== *)
theory Prelude
  imports Main "HOL-Library.Word"
begin

text \<open>
  What every component of the model shares: the machine integers of the Rust code, the outcome
  of a fallible or panicking call, I/O errors, the little-endian byte representation of integers,
  and the contracts of the two third-party containers (\<open>slab::Slab\<close> and
  \<open>crossbeam_queue::ArrayQueue\<close>) the program relies on.

  Conventions.  A Rust \<open>Result\<close> is a value of \<open>res\<close>, which has a third constructor for a
  panic (a failed \<open>assert!\<close>, an \<open>unwrap\<close> or \<open>expect\<close> of nothing, an index out of range): the
  thread that panics unwinds, so what a model function returns beside \<open>Panic\<close> is the state at
  the point of the panic.  \<open>usize\<close> and \<open>isize\<close> are 64 bits wide.
\<close>

section \<open>Machine integers\<close>

type_synonym byte = "8 word"
type_synonym u32 = "32 word"
type_synonym u64 = "64 word"
type_synonym usize = "64 word"
type_synonym isize = "64 word"
type_synonym c_int = int

text \<open>Named collections: rewriting of outcomes, of byte strings, and introduction of invariants.\<close>

named_theorems res_simps
named_theorems byte_simps
named_theorems inv_intros

text \<open>\<open>usize::checked_mul\<close> and \<open>usize::try_from(isize)\<close>.\<close>

definition checked_mul :: "usize \<Rightarrow> usize \<Rightarrow> usize option" where
  "checked_mul a b = (if unat a * unat b < 2 ^ 64 then Some (a * b) else None)"

definition usize_of_isize :: "isize \<Rightarrow> usize option" where
  "usize_of_isize i = (if 0 \<le> sint i then Some i else None)"

lemma checked_mul_Some:
  "checked_mul a b = Some c \<longleftrightarrow> unat a * unat b < 2 ^ 64 \<and> c = a * b"
  by (auto simp: checked_mul_def)

lemma unat_mult_small: "unat a * unat b < 2 ^ 64 \<Longrightarrow> unat (a * b) = unat a * unat (b :: usize)"
  by (simp add: unat_word_ariths)

lemma unat_checked_mul: "checked_mul a b = Some c \<Longrightarrow> unat c = unat a * unat b"
  by (auto simp: checked_mul_Some unat_mult_small)

lemma usize_of_isize_Some: "usize_of_isize i = Some n \<longleftrightarrow> 0 \<le> sint i \<and> n = i"
  by (auto simp: usize_of_isize_def)

lemma uint_of_nonneg_sint:
  fixes i :: isize
  assumes "0 \<le> sint i"
  shows "uint i = sint i"
proof -
  have "sint i < 2 ^ 63" using sint_lt [of i] by simp
  with assms have "take_bit 64 (sint i) = sint i"
    by (simp add: take_bit_int_eq_self)
  then show ?thesis by (simp add: uint_sint)
qed

lemma unat_lt_2p: "unat (w :: 'a::len word) < 2 ^ LENGTH('a)"
  by (rule unsigned_less)

lemma unat_of_nat_small: "n < 2 ^ LENGTH('a) \<Longrightarrow> unat (of_nat n :: 'a::len word) = n"
  by (simp add: unat_of_nat)

section \<open>Byte strings\<close>

lemma append_prefixE:
  assumes "xs @ ys = us @ vs" and "length us \<le> length xs"
  obtains zs where "xs = us @ zs" and "zs @ ys = vs"
  using assms by (auto simp: append_eq_append_conv2)

section \<open>Outcomes\<close>

datatype ('e, 'a) res = Ok 'a | Err 'e | Panic

primrec map_err :: "('e \<Rightarrow> 'f) \<Rightarrow> ('e, 'a) res \<Rightarrow> ('f, 'a) res" where
  "map_err f (Ok a) = Ok a"
| "map_err f (Err e) = Err (f e)"
| "map_err f Panic = Panic"

text \<open>\<open>Result::unwrap_or_else\<close>; a panic stays one.\<close>

primrec unwrap_or_else :: "('e \<Rightarrow> 'a) \<Rightarrow> ('e, 'a) res \<Rightarrow> ('f, 'a) res" where
  "unwrap_or_else f (Ok a) = Ok a"
| "unwrap_or_else f (Err e) = Ok (f e)"
| "unwrap_or_else f Panic = Panic"

primrec map_ok :: "('a \<Rightarrow> 'b) \<Rightarrow> ('e, 'a) res \<Rightarrow> ('e, 'b) res" where
  "map_ok f (Ok a) = Ok (f a)"
| "map_ok f (Err e) = Err e"
| "map_ok f Panic = Panic"

lemma map_ok_Ok_iff [res_simps]: "map_ok f r = Ok b \<longleftrightarrow> (\<exists>a. r = Ok a \<and> b = f a)"
  by (cases r) auto

lemma map_ok_Panic_iff [res_simps, simp]: "map_ok f r = Panic \<longleftrightarrow> r = Panic"
  by (cases r) auto

lemma unwrap_or_else_Panic_iff [res_simps, simp]: "unwrap_or_else f r = Panic \<longleftrightarrow> r = Panic"
  by (cases r) auto

lemma unwrap_or_else_not_Err [res_simps, simp]: "unwrap_or_else f r \<noteq> Err e"
  by (cases r) auto

text \<open>
  Code that passes a state along: the outcome and the state after it, or \<open>None\<close> when it never
  returns (or when the environment's script given to it ends first).  \<open>try_do\<close> is the \<open>?\<close> operator.
\<close>

definition try_do ::
  "(('e, 'a) res \<times> 's) option \<Rightarrow> ('a \<Rightarrow> 's \<Rightarrow> (('e, 'b) res \<times> 's) option) \<Rightarrow> (('e, 'b) res \<times> 's) option" where
  "try_do m k = (case m of
     None \<Rightarrow> None
   | Some (r, s) \<Rightarrow> (case r of Ok a \<Rightarrow> k a s | Err e \<Rightarrow> Some (Err e, s) | Panic \<Rightarrow> Some (Panic, s)))"

lemma try_do_simps [simp, res_simps]:
  "try_do None k = None" "try_do (Some (Ok a, s)) k = k a s"
  "try_do (Some (Err e, s)) k = Some (Err e, s)" "try_do (Some (Panic, s)) k = Some (Panic, s)"
  by (simp_all add: try_do_def)

lemma try_do_Ok_iff [res_simps]:
  "try_do m k = Some (Ok b, t) \<longleftrightarrow> (\<exists>a s. m = Some (Ok a, s) \<and> k a s = Some (Ok b, t))"
  by (auto simp: try_do_def split: option.splits res.splits)

lemma try_do_None_iff [res_simps]:
  "try_do m k = None \<longleftrightarrow> m = None \<or> (\<exists>a s. m = Some (Ok a, s) \<and> k a s = None)"
  by (auto simp: try_do_def split: option.splits res.splits)

lemma try_do_Panic_iff [res_simps]:
  "try_do m k = Some (Panic, t) \<longleftrightarrow> m = Some (Panic, t) \<or> (\<exists>a s. m = Some (Ok a, s) \<and> k a s = Some (Panic, t))"
  by (auto simp: try_do_def split: option.splits res.splits)

lemma try_do_Err_iff [res_simps]:
  "try_do m k = Some (Err e, t) \<longleftrightarrow> m = Some (Err e, t) \<or> (\<exists>a s. m = Some (Ok a, s) \<and> k a s = Some (Err e, t))"
  by (auto simp: try_do_def split: option.splits res.splits)

text \<open>The \<open>?\<close> operator for a result that comes with the state after it.\<close>

definition and_then :: "('e, 'a) res \<times> 's \<Rightarrow> ('a \<Rightarrow> 's \<Rightarrow> ('e, 'b) res \<times> 's) \<Rightarrow> ('e, 'b) res \<times> 's" where
  "and_then m k = (case m of (Ok a, s) \<Rightarrow> k a s | (Err e, s) \<Rightarrow> (Err e, s) | (Panic, s) \<Rightarrow> (Panic, s))"

text \<open>I/O errors: the kinds the program looks at, every other kind, and the text of
  \<open>io::Error::other\<close>.\<close>

datatype io_kind = WouldBlock | Interrupted | ConnectionAborted | OtherKind | OsKind int

datatype io_error = IoError (kind: io_kind) (msg: string)

definition io_other :: "string \<Rightarrow> io_error" where
  "io_other s = IoError OtherKind s"

definition io_aborted :: io_error where
  "io_aborted = IoError ConnectionAborted ''''"

section \<open>Little-endian integers\<close>

fun nat_to_le :: "nat \<Rightarrow> nat \<Rightarrow> byte list" where
  "nat_to_le 0 x = []"
| "nat_to_le (Suc k) x = of_nat (x mod 256) # nat_to_le k (x div 256)"

fun le_to_nat :: "byte list \<Rightarrow> nat" where
  "le_to_nat [] = 0"
| "le_to_nat (b # bs) = unat b + 256 * le_to_nat bs"

lemma length_nat_to_le [simp, byte_simps]: "length (nat_to_le k x) = k"
  by (induction k arbitrary: x) auto

lemma le_to_nat_bound: "le_to_nat bs < 256 ^ length bs"
proof (induction bs)
  case Nil
  then show ?case by simp
next
  case (Cons b bs)
  have "unat b < 256" using unat_lt_2p [of b] by simp
  with Cons.IH show ?case by simp
qed

lemma le_to_nat_to_le: "x < 256 ^ k \<Longrightarrow> le_to_nat (nat_to_le k x) = x"
proof (induction k arbitrary: x)
  case 0
  then show ?case by simp
next
  case (Suc k)
  then have "x div 256 < 256 ^ k" by (simp add: less_mult_imp_div_less mult.commute)
  with Suc.IH have "le_to_nat (nat_to_le k (x div 256)) = x div 256" by blast
  moreover have "unat (of_nat (x mod 256) :: byte) = x mod 256"
    by (simp add: unat_of_nat)
  ultimately show ?case by simp
qed

lemma nat_to_le_inj_full: "nat_to_le (length bs) (le_to_nat bs) = bs"
proof (induction bs)
  case Nil
  then show ?case by simp
next
  case (Cons b bs)
  have b: "unat b < 256" using unat_lt_2p [of b] by simp
  then have "(unat b + 256 * le_to_nat bs) div 256 = le_to_nat bs" by simp
  moreover have "(unat b + 256 * le_to_nat bs) mod 256 = unat b" using b by simp
  ultimately show ?case using Cons.IH by simp
qed

definition u32_le :: "u32 \<Rightarrow> byte list" where
  "u32_le w = nat_to_le 4 (unat w)"

definition u64_le :: "u64 \<Rightarrow> byte list" where
  "u64_le w = nat_to_le 8 (unat w)"

definition le_u32 :: "byte list \<Rightarrow> u32" where
  "le_u32 bs = of_nat (le_to_nat bs)"

definition le_u64 :: "byte list \<Rightarrow> u64" where
  "le_u64 bs = of_nat (le_to_nat bs)"

lemma length_u32_le [simp, byte_simps]: "length (u32_le w) = 4"
  by (simp add: u32_le_def)

lemma length_u64_le [simp, byte_simps]: "length (u64_le w) = 8"
  by (simp add: u64_le_def)

lemma le_u32_le [simp, byte_simps]: "le_u32 (u32_le w) = w"
  using unat_lt_2p [of w] by (simp add: le_u32_def u32_le_def le_to_nat_to_le)

lemma le_u64_le [simp, byte_simps]: "le_u64 (u64_le w) = w"
  using unat_lt_2p [of w] by (simp add: le_u64_def u64_le_def le_to_nat_to_le)

lemma u32_le_u32:
  assumes "length bs = 4"
  shows "u32_le (le_u32 bs) = bs"
proof -
  have "le_to_nat bs < 2 ^ 32" using le_to_nat_bound [of bs] assms by simp
  then have "unat (of_nat (le_to_nat bs) :: u32) = le_to_nat bs"
    by (simp add: unat_of_nat_small)
  with nat_to_le_inj_full [of bs] assms show ?thesis
    by (simp add: u32_le_def le_u32_def)
qed

lemma u64_le_u64:
  assumes "length bs = 8"
  shows "u64_le (le_u64 bs) = bs"
proof -
  have "le_to_nat bs < 2 ^ 64" using le_to_nat_bound [of bs] assms by simp
  then have "unat (of_nat (le_to_nat bs) :: u64) = le_to_nat bs"
    by (simp add: unat_of_nat_small)
  with nat_to_le_inj_full [of bs] assms show ?thesis
    by (simp add: u64_le_def le_u64_def)
qed

section \<open>Decimal numbers\<close>

text \<open>\<open>Display\<close> of an unsigned integer, and the bytes of a string.\<close>

fun decimal :: "nat \<Rightarrow> byte list" where
  "decimal n = (if n < 10 then [of_nat (48 + n)] else decimal (n div 10) @ [of_nat (48 + n mod 10)])"

declare decimal.simps [simp del]

definition ascii :: "string \<Rightarrow> byte list" where
  "ascii s = map of_char s"

lemma digit_value: "d < 10 \<Longrightarrow> unat (of_nat (48 + d) :: byte) = 48 + d"
  by (rule unat_of_nat_small) simp

lemma decimal_digits: "set (decimal n) \<subseteq> {48..57}"
proof (induction n rule: decimal.induct)
  case (1 n)
  have d: "(of_nat (48 + d) :: byte) \<in> {48..57}" if "d < 10" for d
    using digit_value [OF that] that by (simp add: word_le_nat_alt del: of_nat_add)
  show ?case
  proof (cases "n < 10")
    case True
    with d [of n] show ?thesis by (simp add: decimal.simps)
  next
    case False
    with 1 d [of "n mod 10"] show ?thesis by (subst decimal.simps) simp
  qed
qed

lemma decimal_inj: "decimal m = decimal n \<Longrightarrow> m = n"
proof (induction m arbitrary: n rule: decimal.induct)
  case (1 m)
  have digit: "(of_nat (48 + a) :: byte) = of_nat (48 + b) \<Longrightarrow> a = b" if "a < 10" "b < 10" for a b
    using digit_value [OF that(1)] digit_value [OF that(2)] by (metis add_left_cancel)
  have nonempty: "decimal k \<noteq> [] \<and> [] \<noteq> decimal k" for k by (subst (1 2) decimal.simps) simp
  show ?case
  proof (cases "m < 10 \<or> n < 10")
    case True
    with 1(2) digit [of m n] nonempty show ?thesis
      by (cases "m < 10"; cases "n < 10") (simp_all add: decimal.simps [of m] decimal.simps [of n])
  next
    case False
    with 1(2) have "decimal (m div 10) = decimal (n div 10)"
      "(of_nat (48 + m mod 10) :: byte) = of_nat (48 + n mod 10)"
      by (simp_all add: decimal.simps [of m] decimal.simps [of n])
    with 1(1) False digit [of "m mod 10" "n mod 10"] have "m div 10 = n div 10" "m mod 10 = n mod 10"
      by auto
    then show ?thesis by (metis div_mult_mod_eq)
  qed
qed

end
