(* ===== verification/Cubeb.thy ===== *)
theory Cubeb
  imports Prelude
begin

text \<open>
  What the program uses of the cubeb crates, as parameters.  \<open>cubeb_abi\<close> holds the constants and
  pure conversions (error codes, sample formats, device-type flags).  \<open>cubeb_h\<close> is the instance the
  closed examples use, with the values of the public C header.  The errors of the program's own
  \<open>errors.rs\<close> are here too.
\<close>

section \<open>Constants and conversions\<close>

datatype cubeb_error =
    CubebError | InvalidFormat | InvalidParameter | NotSupported | DeviceUnavailable

datatype sample_format = S16LE | S16BE | S16NE | Float32LE | Float32BE | Float32NE

record cubeb_abi =
  CUBEB_ERROR :: c_int
  error_code :: "cubeb_error \<Rightarrow> c_int"
  error_of_code :: "c_int \<Rightarrow> cubeb_error option"
  CUBEB_SAMPLE_S16LE :: c_int
  CUBEB_SAMPLE_S16BE :: c_int
  CUBEB_SAMPLE_FLOAT32LE :: c_int
  CUBEB_SAMPLE_FLOAT32BE :: c_int
  sample_format_of :: "c_int \<Rightarrow> sample_format"
  DEVICE_TYPE_UNKNOWN :: u32
  DEVICE_TYPE_INPUT :: u32
  DEVICE_TYPE_OUTPUT :: u32
  device_type_truncate :: "u32 \<Rightarrow> u32"
  device_type_contains :: "u32 \<Rightarrow> u32 \<Rightarrow> bool"

text \<open>
  \<open>error_of_code\<close> is \<open>Error::wrap\<close>: \<open>None\<close> is its \<open>Ok\<close>.  The contract: error codes are negative
  and wrap back to their errors, \<open>CUBEB_ERROR\<close> is the code of \<open>Error::Error\<close>, the four stream
  sample formats convert to their own enumerators, and the two device directions are distinct
  flags that \<open>from_bits_truncate\<close> keeps.
\<close>

definition cubeb_abi_contract :: "cubeb_abi \<Rightarrow> bool" where
  "cubeb_abi_contract K \<longleftrightarrow>
     (\<forall>e. error_code K e < 0 \<and> error_of_code K (error_code K e) = Some e) \<and>
     CUBEB_ERROR K = error_code K CubebError \<and>
     - (2 ^ 31) \<le> CUBEB_ERROR K \<and>
     sample_format_of K (CUBEB_SAMPLE_S16LE K) = S16LE \<and>
     sample_format_of K (CUBEB_SAMPLE_S16BE K) = S16BE \<and>
     sample_format_of K (CUBEB_SAMPLE_FLOAT32LE K) = Float32LE \<and>
     sample_format_of K (CUBEB_SAMPLE_FLOAT32BE K) = Float32BE \<and>
     DEVICE_TYPE_INPUT K \<noteq> DEVICE_TYPE_OUTPUT K \<and>
     DEVICE_TYPE_INPUT K \<noteq> DEVICE_TYPE_UNKNOWN K \<and>
     DEVICE_TYPE_OUTPUT K \<noteq> DEVICE_TYPE_UNKNOWN K \<and>
     (\<forall>d \<in> {DEVICE_TYPE_INPUT K, DEVICE_TYPE_OUTPUT K}. device_type_truncate K d = d) \<and>
     (\<forall>d. device_type_contains K d d) \<and>
     \<not> device_type_contains K (DEVICE_TYPE_INPUT K) (DEVICE_TYPE_OUTPUT K) \<and>
     \<not> device_type_contains K (DEVICE_TYPE_OUTPUT K) (DEVICE_TYPE_INPUT K)"

definition cubeb_h_code :: "cubeb_error \<Rightarrow> c_int" where
  "cubeb_h_code e = (case e of CubebError \<Rightarrow> -1 | InvalidFormat \<Rightarrow> -2 | InvalidParameter \<Rightarrow> -3
     | NotSupported \<Rightarrow> -4 | DeviceUnavailable \<Rightarrow> -5)"

definition cubeb_h_error :: "c_int \<Rightarrow> cubeb_error option" where
  "cubeb_h_error c = (if c = 0 then None else if c = -2 then Some InvalidFormat
     else if c = -3 then Some InvalidParameter else if c = -4 then Some NotSupported
     else if c = -5 then Some DeviceUnavailable else Some CubebError)"

definition cubeb_h_format :: "c_int \<Rightarrow> sample_format" where
  "cubeb_h_format c = (if c = 0 then S16LE else if c = 1 then S16BE else if c = 2 then Float32LE
     else if c = 3 then Float32BE else S16NE)"

definition cubeb_h :: cubeb_abi where
  "cubeb_h = \<lparr>
     CUBEB_ERROR = -1, error_code = cubeb_h_code, error_of_code = cubeb_h_error,
     CUBEB_SAMPLE_S16LE = 0, CUBEB_SAMPLE_S16BE = 1,
     CUBEB_SAMPLE_FLOAT32LE = 2, CUBEB_SAMPLE_FLOAT32BE = 3,
     sample_format_of = cubeb_h_format,
     DEVICE_TYPE_UNKNOWN = 0, DEVICE_TYPE_INPUT = 1, DEVICE_TYPE_OUTPUT = 2,
     device_type_truncate = (\<lambda>d. and d 3), device_type_contains = (\<lambda>d e. and d e = e) \<rparr>"

lemma cubeb_h_contract: "cubeb_abi_contract cubeb_h"
proof -
  have "error_code cubeb_h e < 0 \<and> error_of_code cubeb_h (error_code cubeb_h e) = Some e" for e
    by (cases e) (simp_all add: cubeb_h_def cubeb_h_code_def cubeb_h_error_def)
  then show ?thesis
    unfolding cubeb_abi_contract_def
    by (simp add: cubeb_h_def cubeb_h_format_def cubeb_h_code_def)
qed

lemma abi_error_neg: "cubeb_abi_contract K \<Longrightarrow> CUBEB_ERROR K < 0"
  by (simp add: cubeb_abi_contract_def)

lemma abi_error_of_code [simp]:
  "cubeb_abi_contract K \<Longrightarrow> error_of_code K (error_code K e) = Some e"
  by (simp add: cubeb_abi_contract_def)

section \<open>errors.rs\<close>

text \<open>The error type of the program; the third-party errors are kept as they are.\<close>

datatype 'b ipc_error = ErrBincode 'b | ErrIo io_error | ErrCubeb cubeb_error | Disconnected
  | ErrOther string

text \<open>\<open>Display\<close> and \<open>source\<close>, over the displays of the wrapped errors.\<close>

definition fmt_error ::
  "('b \<Rightarrow> string) \<Rightarrow> (io_error \<Rightarrow> string) \<Rightarrow> (cubeb_error \<Rightarrow> string) \<Rightarrow> 'b ipc_error \<Rightarrow> string" where
  "fmt_error db di dc err = (case err of
     ErrBincode e \<Rightarrow> ''Bincode error: '' @ db e
   | ErrIo e \<Rightarrow> ''IO error: '' @ di e
   | ErrCubeb e \<Rightarrow> ''Cubeb error: '' @ dc e
   | Disconnected \<Rightarrow> ''Disconnected''
   | ErrOther s \<Rightarrow> s)"

datatype 'b error_source = SrcBincode 'b | SrcIo io_error | SrcCubeb cubeb_error

definition error_source :: "'b ipc_error \<Rightarrow> 'b error_source option" where
  "error_source err = (case err of
     ErrBincode e \<Rightarrow> Some (SrcBincode e)
   | ErrIo e \<Rightarrow> Some (SrcIo e)
   | ErrCubeb e \<Rightarrow> Some (SrcCubeb e)
   | Disconnected \<Rightarrow> None
   | ErrOther _ \<Rightarrow> None)"

end
