(* ===== verification/Codec.thy ===== *)
theory Codec
  imports Prelude
begin

text \<open>
  \<open>audioipc/src/codec.rs\<close>: the length-delimited frames in which every message crosses a
  connection: 8 bytes of magic, 4 bytes of length, the bincode payload.  The decoder keeps a state
  between calls (waiting for a header, or for the payload a header announced), so that a message
  may arrive in any number of pieces.

  Bincode is a third-party package, so serialization and deserialization are parameters
  (record \<open>bincode\<close>); the buffer a frame is read from or written to is the list of its bytes.
\<close>

section \<open>State and parameters\<close>

datatype codec_state = Length | Data u32

record lcodec =
  state :: codec_state
  encode_buf :: "byte list"

definition MAX_MESSAGE_LEN :: u32 where
  "MAX_MESSAGE_LEN = 1024 * 1024"

definition MAGIC :: u64 where
  "MAGIC = 0xa4d1019cc9101d4a"

definition HEADER_LEN :: nat where
  "HEADER_LEN = 4 + 8"

definition lcodec_default :: lcodec where
  "lcodec_default = \<lparr>state = Length, encode_buf = []\<rparr>"

text \<open>
  \<open>bincode::ErrorKind\<close>, as far as the codec looks at it; the bytes \<open>serialize_into\<close> writes before
  it fails; and a panic of the message's own \<open>Serialize\<close> implementation.
\<close>

datatype bincode_error = BincodeIo io_error | BincodeOther string

datatype ser_outcome = SerOk "byte list" | SerErr "byte list" bincode_error | SerPanic

record ('i, 'o) bincode =
  bc_serialize_into :: "nat \<Rightarrow> 'i \<Rightarrow> ser_outcome"
  bc_deserialize :: "nat \<Rightarrow> byte list \<Rightarrow> bincode_error + 'o"

primrec io_of_bincode :: "bincode_error \<Rightarrow> io_error" where
  "io_of_bincode (BincodeIo e) = e"
| "io_of_bincode (BincodeOther s) = io_other s"

section \<open>Decoding\<close>

definition decode_length :: "byte list \<Rightarrow> (io_error, u32 option \<times> byte list) res" where
  "decode_length buf =
     (if length buf < HEADER_LEN then Ok (None, buf)
      else
        let magic = le_u64 (take 8 buf) in
        if magic \<noteq> MAGIC then Panic
        else
          let n = le_u32 (take 4 (drop 8 buf)) in
          Ok (Some n, drop HEADER_LEN buf))"

definition decode_data ::
  "('i, 'o) bincode \<Rightarrow> byte list \<Rightarrow> u32 \<Rightarrow> (io_error, 'o option) res \<times> byte list" where
  "decode_data bc buf w =
     (let n = unat w in
      if length buf < n then (Ok None, buf)
      else
        case bc_deserialize bc (unat MAX_MESSAGE_LEN) (take n buf) of
          Inl e \<Rightarrow> (Err (io_of_bincode e), buf)
        | Inr m \<Rightarrow> (Ok (Some m), drop n buf))"

definition decode ::
  "('i, 'o) bincode \<Rightarrow> lcodec \<Rightarrow> byte list \<Rightarrow> (io_error, 'o option) res \<times> lcodec \<times> byte list" where
  "decode bc c buf =
     (let data = (\<lambda>c buf n.
        case decode_data bc buf n of
          (Ok (Some m), buf') \<Rightarrow> (Ok (Some m), c\<lparr>state := Length\<rparr>, buf')
        | (Ok None, buf') \<Rightarrow> (Ok None, c, buf')
        | (Err e, buf') \<Rightarrow> (Err e, c, buf')
        | (Panic, buf') \<Rightarrow> (Panic, c, buf'))
      in case state c of
          Length \<Rightarrow>
            (case decode_length buf of
               Ok (Some n, buf') \<Rightarrow>
                 if n \<le> MAX_MESSAGE_LEN then data (c\<lparr>state := Data n\<rparr>) buf' n
                 else (Panic, c, buf')
             | Ok (None, buf') \<Rightarrow> (Ok None, c, buf')
             | Err e \<Rightarrow> (Err e, c, buf)
             | Panic \<Rightarrow> (Panic, c, buf))
        | Data n \<Rightarrow> data c buf n)"

text \<open>\<open>Codec::decode_eof\<close>: what is left when the stream has ended must be a whole frame.\<close>

definition decode_eof ::
  "('i, 'o) bincode \<Rightarrow> lcodec \<Rightarrow> byte list \<Rightarrow> (io_error, 'o) res \<times> lcodec \<times> byte list" where
  "decode_eof bc c buf =
     (case decode bc c buf of
        (Ok (Some frame), c', buf') \<Rightarrow> (Ok frame, c', buf')
      | (Ok None, c', buf') \<Rightarrow> (Err (io_other ''bytes remaining on stream''), c', buf')
      | (Err e, c', buf') \<Rightarrow> (Err e, c', buf')
      | (Panic, c', buf') \<Rightarrow> (Panic, c', buf'))"

section \<open>Encoding\<close>

definition encode ::
  "('i, 'o) bincode \<Rightarrow> lcodec \<Rightarrow> 'i \<Rightarrow> byte list \<Rightarrow> (io_error, unit) res \<times> lcodec \<times> byte list" where
  "encode bc c item buf =
     (case bc_serialize_into bc (unat MAX_MESSAGE_LEN) item of
        SerPanic \<Rightarrow> (Panic, c\<lparr>encode_buf := []\<rparr>, buf)
      | SerErr bs e \<Rightarrow> (Err (io_of_bincode e), c\<lparr>encode_buf := bs\<rparr>, buf)
      | SerOk bs \<Rightarrow>
          let c' = c\<lparr>encode_buf := bs\<rparr>; encoded_len = length bs in
          if encoded_len \<le> unat MAX_MESSAGE_LEN
          then (Ok (), c', buf @ u64_le MAGIC @ u32_le (of_nat encoded_len) @ bs)
          else (Panic, c', buf))"


section \<open>Frames and the decoder's view of a stream\<close>

text \<open>
  A frame is what \<open>encode\<close> appends for a payload.  What the decoder has not yet turned into a
  message is \<open>unread\<close>: the buffer, with the header put back in front of it when it was consumed
  by an earlier call.
\<close>

definition header :: "u32 \<Rightarrow> byte list" where
  "header n = u64_le MAGIC @ u32_le n"

definition frame :: "byte list \<Rightarrow> byte list" where
  "frame bs = header (of_nat (length bs)) @ bs"

definition unread :: "lcodec \<Rightarrow> byte list \<Rightarrow> byte list" where
  "unread c buf = (case state c of Length \<Rightarrow> buf | Data n \<Rightarrow> header n @ buf)"

definition codec_inv :: "lcodec \<Rightarrow> bool" where
  "codec_inv c = (case state c of Length \<Rightarrow> True | Data n \<Rightarrow> n \<le> MAX_MESSAGE_LEN)"

text \<open>The frames of a message: those whose payload the receiver deserializes to it.\<close>

definition wire_frame :: "('i, 'o) bincode \<Rightarrow> 'o \<Rightarrow> byte list \<Rightarrow> bool" where
  "wire_frame bc m fr \<longleftrightarrow>
     (\<exists>bs. fr = frame bs \<and> length bs \<le> unat MAX_MESSAGE_LEN \<and>
           bc_deserialize bc (unat MAX_MESSAGE_LEN) bs = Inr m)"

text \<open>
  What the program relies on of bincode, between the two ends of a connection: a serialized
  message respects the limit given with \<open>with_limit\<close> and deserializes to the same data.  \<open>f m\<close> is
  the value the receiver builds for a sent \<open>m\<close>: \<open>m\<close> itself, but for the handle of a message that
  carries one, which is not part of the data.
\<close>

definition bincode_contract :: "('m \<Rightarrow> 'n) \<Rightarrow> ('m, 'a) bincode \<Rightarrow> ('b, 'n) bincode \<Rightarrow> bool" where
  "bincode_contract f tx rx \<longleftrightarrow>
     (\<forall>lim m bs. bc_serialize_into tx lim m = SerOk bs \<longrightarrow>
        length bs \<le> lim \<and> bc_deserialize rx lim bs = Inr (f m))"

lemma MAX_nat [simp]: "unat MAX_MESSAGE_LEN = 1048576"
  by (simp add: MAX_MESSAGE_LEN_def)

lemma length_header [simp, byte_simps]: "length (header n) = HEADER_LEN"
  by (simp add: header_def HEADER_LEN_def)

lemma length_frame [simp, byte_simps]: "length (frame bs) = HEADER_LEN + length bs"
  by (simp add: frame_def)

lemma u32_of_length:
  "length bs \<le> unat MAX_MESSAGE_LEN \<Longrightarrow> unat (of_nat (length bs) :: u32) = length bs"
  by (simp add: unat_of_nat_small)

lemma u32_length_le:
  "length bs \<le> unat MAX_MESSAGE_LEN \<Longrightarrow> (of_nat (length bs) :: u32) \<le> MAX_MESSAGE_LEN"
  using u32_of_length [of bs] by (simp add: word_le_nat_alt)

lemma header_inj [simp]: "header n @ xs = header m @ ys \<longleftrightarrow> n = m \<and> xs = ys"
proof
  assume "header n @ xs = header m @ ys"
  then have "u32_le n @ xs = u32_le m @ ys" by (simp add: header_def)
  then have "u32_le n = u32_le m \<and> xs = ys" by (simp add: append_eq_append_conv)
  then show "n = m \<and> xs = ys" by (metis le_u32_le)
qed auto

lemma decode_length_header [byte_simps]: "decode_length (header n @ buf) = Ok (Some n, buf)"
  by (simp add: decode_length_def header_def HEADER_LEN_def Let_def)

lemma decode_length_short: "length buf < HEADER_LEN \<Longrightarrow> decode_length buf = Ok (None, buf)"
  by (simp add: decode_length_def)

lemma decode_length_Some:
  assumes "decode_length buf = Ok (Some n, buf')"
  shows "buf = header n @ buf'"
proof -
  from assms have len: "\<not> length buf < HEADER_LEN" and magic: "le_u64 (take 8 buf) = MAGIC"
    and n: "n = le_u32 (take 4 (drop 8 buf))" and buf': "buf' = drop HEADER_LEN buf"
    by (auto simp: decode_length_def Let_def split: if_splits)
  from len have l8: "length (take 8 buf) = 8" and l4: "length (take 4 (drop 8 buf)) = 4"
    by (auto simp: HEADER_LEN_def)
  have "header n = take 8 buf @ take 4 (drop 8 buf)"
    using u64_le_u64 [OF l8] u32_le_u32 [OF l4] magic n by (simp add: header_def)
  also have "\<dots> = take HEADER_LEN buf"
    by (simp add: HEADER_LEN_def take_add [of 8 4 buf, simplified])
  finally show ?thesis using buf' by simp
qed

lemma decode_length_not_Err [simp]: "decode_length buf \<noteq> Err e"
  by (simp add: decode_length_def Let_def)

text \<open>One equation for \<open>decode\<close> in each state, and the three things it can do with a payload.\<close>

definition decode_payload ::
  "('i, 'o) bincode \<Rightarrow> lcodec \<Rightarrow> byte list \<Rightarrow> u32 \<Rightarrow> (io_error, 'o option) res \<times> lcodec \<times> byte list" where
  "decode_payload bc c buf n =
     (if length buf < unat n then (Ok None, c, buf)
      else case bc_deserialize bc (unat MAX_MESSAGE_LEN) (take (unat n) buf) of
          Inl e \<Rightarrow> (Err (io_of_bincode e), c, buf)
        | Inr m \<Rightarrow> (Ok (Some m), c\<lparr>state := Length\<rparr>, drop (unat n) buf))"

lemma decode_Data: "state c = Data n \<Longrightarrow> decode bc c buf = decode_payload bc c buf n"
  by (simp add: decode_def decode_data_def decode_payload_def Let_def split: sum.splits)

lemma decode_Length_header:
  "state c = Length \<Longrightarrow> n \<le> MAX_MESSAGE_LEN \<Longrightarrow>
   decode bc c (header n @ buf) = decode_payload bc (c\<lparr>state := Data n\<rparr>) buf n"
  by (simp add: decode_def decode_length_header decode_data_def decode_payload_def Let_def
      split: sum.splits)

lemma decode_Length_short:
  "state c = Length \<Longrightarrow> length buf < HEADER_LEN \<Longrightarrow> decode bc c buf = (Ok None, c, buf)"
  by (simp add: decode_def decode_length_short)

lemma unread_append [simp]: "unread c (buf @ suf) = unread c buf @ suf"
  by (simp add: unread_def split: codec_state.splits)

lemma unread_Length [simp]: "state c = Length \<Longrightarrow> unread c buf = buf"
  by (simp add: unread_def)

text \<open>
  Decoding depends on the state only through \<open>unread\<close>: a decoder that has read the header and one
  that has not give the same answer.
\<close>

lemma decode_unread_header:
  assumes "codec_inv c" and "unread c buf = header n @ rest" and "n \<le> MAX_MESSAGE_LEN"
  shows "decode bc c buf = decode_payload bc (c\<lparr>state := Data n\<rparr>) rest n"
proof (cases "state c")
  case Length
  with assms decode_Length_header [of c n bc rest] show ?thesis by simp
next
  case (Data m)
  with assms(2) have "m = n" and "buf = rest" by (auto simp: unread_def)
  moreover have "c\<lparr>state := Data n\<rparr> = c" using Data \<open>m = n\<close> by (cases c) simp
  ultimately show ?thesis using decode_Data [OF Data] by simp
qed

lemma decode_whole:
  assumes "codec_inv c" and "wire_frame bc m fr" and "unread c buf = fr @ rest"
  shows "decode bc c buf = (Ok (Some m), c\<lparr>state := Length\<rparr>, rest)"
proof -
  from assms(2) obtain bs where fr: "fr = frame bs" and len: "length bs \<le> unat MAX_MESSAGE_LEN"
    and de: "bc_deserialize bc (unat MAX_MESSAGE_LEN) bs = Inr m"
    by (auto simp: wire_frame_def)
  from assms(3) fr have "unread c buf = header (of_nat (length bs)) @ bs @ rest"
    by (simp add: frame_def)
  from decode_unread_header [OF assms(1) this u32_length_le [OF len], of bc]
  have "decode bc c buf =
      decode_payload bc (c\<lparr>state := Data (of_nat (length bs))\<rparr>) (bs @ rest) (of_nat (length bs))" .
  then show ?thesis
    unfolding decode_payload_def u32_of_length [OF len] using de by simp
qed

lemma decode_part:
  assumes inv: "codec_inv c" and wire: "wire_frame bc m fr"
    and fr: "unread c buf @ suf = fr" and suf: "suf \<noteq> []"
  obtains c' buf' where "decode bc c buf = (Ok None, c', buf')" and "codec_inv c'"
    and "unread c' buf' = unread c buf"
proof -
  from wire obtain bs where bs: "fr = frame bs" and len: "length bs \<le> unat MAX_MESSAGE_LEN"
    by (auto simp: wire_frame_def)
  let ?n = "of_nat (length bs) :: u32"
  show thesis
  proof (cases "length (unread c buf) < HEADER_LEN")
    case True
    then have "state c = Length" by (auto simp: unread_def split: codec_state.splits)
    with True inv that [of c buf] decode_Length_short [of c buf bc] show thesis by simp
  next
    case False
    have "unread c buf @ suf = header ?n @ bs" using fr bs by (simp add: frame_def)
    then obtain rest where rest: "unread c buf = header ?n @ rest" and "rest @ suf = bs"
      using False by (auto elim!: append_prefixE)
    with suf have short: "length rest < length bs" by auto
    have "decode bc c buf = (Ok None, c\<lparr>state := Data ?n\<rparr>, rest)"
      using decode_unread_header [OF inv rest u32_length_le [OF len]] short u32_of_length [OF len]
      by (simp add: decode_payload_def)
    then show thesis
      using that u32_length_le [OF len] rest by (simp add: codec_inv_def unread_def)
  qed
qed

lemma decode_idle:
  assumes "codec_inv c" and "unread c buf = []"
  shows "decode bc c buf = (Ok None, c, buf)"
proof -
  have "length (unread c buf) < HEADER_LEN" using assms(2) by (simp add: HEADER_LEN_def)
  then have "state c = Length" and "length buf < HEADER_LEN"
    by (auto simp: unread_def split: codec_state.splits)
  then show ?thesis by (rule decode_Length_short)
qed

text \<open>Every message decoded takes at least its header off the stream.\<close>

lemma decode_progress:
  assumes "decode bc c buf = (Ok (Some m), c', buf')"
  shows "length (unread c' buf') < length (unread c buf)"
proof (cases "state c")
  case (Data n)
  with assms have "decode_payload bc c buf n = (Ok (Some m), c', buf')"
    by (simp add: decode_Data)
  with Data show ?thesis
    by (auto simp: decode_payload_def unread_def HEADER_LEN_def split: if_splits sum.splits)
next
  case Length
  with assms obtain n buf1 where dl: "decode_length buf = Ok (Some n, buf1)"
    and n: "n \<le> MAX_MESSAGE_LEN"
    by (auto simp: decode_def Let_def split: res.splits option.splits if_splits)
  from decode_length_Some [OF dl] have buf: "buf = header n @ buf1" .
  with Length n assms have "decode_payload bc (c\<lparr>state := Data n\<rparr>) buf1 n = (Ok (Some m), c', buf')"
    by (simp add: decode_Length_header)
  with Length buf show ?thesis
    by (auto simp: decode_payload_def unread_def HEADER_LEN_def split: if_splits sum.splits)
qed

lemma decode_again:
  assumes "decode bc c buf = (Ok None, c', buf')"
  shows "decode bc c' buf' = (Ok None, c', buf')"
proof -
  have payload: "decode bc c' buf' = (Ok None, c', buf')"
    if "decode_payload bc d xs n = (Ok None, c', buf')" and "state d = Data n" for d xs n
    using that decode_Data [of d n bc xs] by (auto simp: decode_payload_def split: if_splits sum.splits)
  show ?thesis
  proof (cases "state c")
    case (Data n)
    then show ?thesis using assms payload [of c buf n] by (simp add: decode_Data)
  next
    case Length
    show ?thesis
    proof (cases "length buf < HEADER_LEN")
      case True
      with Length assms show ?thesis by (simp add: decode_Length_short)
    next
      case False
      with Length assms obtain n buf1 where "decode_length buf = Ok (Some n, buf1)" "n \<le> MAX_MESSAGE_LEN"
        by (auto simp: decode_def decode_length_def Let_def split: if_splits)
      then show ?thesis
        using decode_length_Some [of buf n buf1] Length assms
          payload [of "c\<lparr>state := Data n\<rparr>" buf1 n] by (simp add: decode_Length_header)
    qed
  qed
qed

section \<open>The codec as an interface\<close>

text \<open>
  The receiving half of the trait \<open>Codec\<close>, as its user (the framed driver) relies on it.
\<close>

locale message_codec =
  fixes dec :: "'c \<Rightarrow> byte list \<Rightarrow> (io_error, 'm option) res \<times> 'c \<times> byte list"
    and view :: "'c \<Rightarrow> byte list \<Rightarrow> byte list"
    and cinv :: "'c \<Rightarrow> bool"
    and wire :: "'m \<Rightarrow> byte list \<Rightarrow> bool"
  assumes whole: "cinv c \<Longrightarrow> wire m fr \<Longrightarrow> view c buf = fr @ rest \<Longrightarrow>
      \<exists>c' buf'. dec c buf = (Ok (Some m), c', buf') \<and> cinv c' \<and> view c' buf' = rest"
    and part: "cinv c \<Longrightarrow> wire m fr \<Longrightarrow> view c buf @ suf = fr \<Longrightarrow> suf \<noteq> [] \<Longrightarrow>
      \<exists>c' buf'. dec c buf = (Ok None, c', buf') \<and> cinv c' \<and> view c' buf' = view c buf"
    and idle: "cinv c \<Longrightarrow> view c buf = [] \<Longrightarrow> dec c buf = (Ok None, c, buf)"
    and feed: "view c (buf @ suf) = view c buf @ suf"
    and progress: "dec c buf = (Ok (Some m), c', buf') \<Longrightarrow>
      length (view c' buf') < length (view c buf)"
    and again: "dec c buf = (Ok None, c', buf') \<Longrightarrow> dec c' buf' = (Ok None, c', buf')"

interpretation lc: message_codec "decode bc" unread codec_inv "wire_frame bc" for bc
proof
  fix c m fr buf rest
  assume "codec_inv c" and "wire_frame bc m fr" and "unread c buf = fr @ rest"
  then show "\<exists>c' buf'. decode bc c buf = (Ok (Some m), c', buf') \<and> codec_inv c' \<and> unread c' buf' = rest"
    by (simp add: decode_whole codec_inv_def)
next
  fix c m fr buf suf
  assume "codec_inv c" and "wire_frame bc m fr" and "unread c buf @ suf = fr" and "suf \<noteq> []"
  then show "\<exists>c' buf'. decode bc c buf = (Ok None, c', buf') \<and> codec_inv c' \<and>
      unread c' buf' = unread c buf"
    by (metis decode_part)
qed (auto simp: decode_idle dest: decode_progress decode_again)

section \<open>Encoding and decoding together\<close>

lemma encode_Ok:
  "encode bc e m buf = (Ok (), e', buf') \<Longrightarrow>
   \<exists>bs. bc_serialize_into bc (unat MAX_MESSAGE_LEN) m = SerOk bs \<and>
        length bs \<le> unat MAX_MESSAGE_LEN \<and> buf' = buf @ frame bs"
  by (auto simp: encode_def frame_def header_def Let_def split: ser_outcome.splits if_splits)

lemma encode_wire_frame:
  assumes "bincode_contract f tx rx" and "encode tx e m buf = (Ok (), e', buf')"
  obtains fr where "buf' = buf @ fr" and "wire_frame rx (f m) fr"
proof -
  from encode_Ok [OF assms(2)] obtain bs where
    ser: "bc_serialize_into tx (unat MAX_MESSAGE_LEN) m = SerOk bs"
    and len: "length bs \<le> unat MAX_MESSAGE_LEN" and buf': "buf' = buf @ frame bs"
    by blast
  from assms(1) ser have "bc_deserialize rx (unat MAX_MESSAGE_LEN) bs = Inr (f m)"
    unfolding bincode_contract_def by blast
  with len buf' that show thesis by (auto simp: wire_frame_def)
qed

lemma wire_frame_nonempty: "wire_frame bc m fr \<Longrightarrow> HEADER_LEN \<le> length fr"
  by (auto simp: wire_frame_def)

text \<open>A bincode for messages that are byte strings, used by the closed examples.\<close>

definition raw_bincode :: "(byte list, byte list) bincode" where
  "raw_bincode = \<lparr>
     bc_serialize_into = (\<lambda>lim bs. if length bs \<le> lim then SerOk bs
                                   else SerErr [] (BincodeOther ''size limit'')),
     bc_deserialize = (\<lambda>lim bs. if length bs \<le> lim then Inr bs
                                else Inl (BincodeOther ''size limit'')) \<rparr>"

lemma raw_bincode_contract: "bincode_contract id raw_bincode raw_bincode"
  by (simp add: bincode_contract_def raw_bincode_def)

text \<open>
  C9: what \<open>encode\<close> writes for a message, \<open>decode\<close> reads back as the same message (as the receiver
  sees it), leaving exactly the bytes that follow the frame, whether or not the decoder had already
  consumed the frame's header in an earlier call.
\<close>

theorem codec_roundtrip:
  assumes "bincode_contract f tx rx"
    and "encode tx e m [] = (Ok (), e', fr)"
    and "codec_inv d" and "unread d inb = fr @ rest"
  shows "decode rx d inb = (Ok (Some (f m)), d\<lparr>state := Length\<rparr>, rest)"
proof -
  from encode_wire_frame [OF assms(1,2)] have "wire_frame rx (f m) fr" by auto
  with assms(3,4) show ?thesis by (simp add: decode_whole)
qed

theorem codec_roundtrip_witness:
  "decode raw_bincode lcodec_default (snd (snd (encode raw_bincode lcodec_default [7, 8, 9] [])) @ [1, 2])
   = (Ok (Some [7, 8, 9]), lcodec_default, [1, 2])"
proof -
  let ?fr = "u64_le MAGIC @ u32_le 3 @ [7, 8, 9]"
  have enc: "encode raw_bincode lcodec_default [7, 8, 9] []
      = (Ok (), \<lparr>state = Length, encode_buf = [7, 8, 9]\<rparr>, ?fr)"
    by (simp add: encode_def raw_bincode_def lcodec_default_def Let_def)
  have "codec_inv lcodec_default" by (simp add: codec_inv_def lcodec_default_def)
  moreover have "unread lcodec_default (?fr @ [1, 2]) = ?fr @ [1, 2]"
    by (simp add: unread_def lcodec_default_def)
  ultimately have "decode raw_bincode lcodec_default (?fr @ [1, 2])
      = (Ok (Some (id [7, 8, 9])), lcodec_default\<lparr>state := Length\<rparr>, [1, 2])"
    by (rule codec_roundtrip [OF raw_bincode_contract enc])
  then show ?thesis by (simp add: enc) (simp add: lcodec_default_def)
qed

text \<open>
  C18: a decoder panics on nothing but a complete header whose magic is wrong or whose announced
  length is above the limit; a header that is still incomplete, a payload that is still incomplete
  and a payload that does not deserialize never do.
\<close>

theorem decode_panic_iff:
  "fst (decode bc c buf) = Panic \<longleftrightarrow>
     state c = Length \<and> HEADER_LEN \<le> length buf \<and>
     \<not> (le_u64 (take 8 buf) = MAGIC \<and> le_u32 (take 4 (drop 8 buf)) \<le> MAX_MESSAGE_LEN)"
proof (cases "state c")
  case Length
  then show ?thesis
    by (auto simp: decode_def decode_data_def decode_length_def Let_def linorder_not_less
        split: sum.splits)
next
  case (Data n)
  then show ?thesis
    by (simp add: decode_Data decode_payload_def split: sum.splits)
qed

text \<open>
  Encoding under the bincode contract never fails an assertion: it panics only where the
  message's own serialization does, an error leaves the outgoing buffer as it was, and a success
  appends one frame of at most 12 bytes plus the limit.
\<close>

theorem encode_behaviour:
  assumes "bincode_contract f tx rx"
  shows "case encode tx e m buf of
      (Ok _, e', buf') \<Rightarrow>
        buf' = buf @ frame (encode_buf e') \<and> length buf' \<le> length buf + 12 + unat MAX_MESSAGE_LEN
    | (Err _, e', buf') \<Rightarrow> buf' = buf
    | (Panic, e', buf') \<Rightarrow>
        buf' = buf \<and> bc_serialize_into tx (unat MAX_MESSAGE_LEN) m = SerPanic"
proof (cases "bc_serialize_into tx (unat MAX_MESSAGE_LEN) m")
  case (SerOk bs)
  with assms have "length bs \<le> unat MAX_MESSAGE_LEN" unfolding bincode_contract_def by blast
  with SerOk show ?thesis
    by (simp add: encode_def Let_def frame_def header_def del: MAX_nat)
qed (simp_all add: encode_def)

theorem encode_behaviour_witness:
  "case encode raw_bincode lcodec_default [7] [1] of
      (Ok _, e', buf') \<Rightarrow>
        buf' = [1] @ frame (encode_buf e') \<and> length buf' \<le> length [1::byte] + 12 + unat MAX_MESSAGE_LEN
    | (Err _, e', buf') \<Rightarrow> buf' = [1]
    | (Panic, e', buf') \<Rightarrow>
        buf' = [1] \<and> bc_serialize_into raw_bincode (unat MAX_MESSAGE_LEN) [7] = SerPanic"
  by (rule encode_behaviour [OF raw_bincode_contract])

end
