(* ===== verification/Messages.thy ===== *)
theory Messages
  imports Cubeb Codec
begin

text \<open>
  \<open>audioipc/src/messages.rs\<close>: the messages of the three RPC connections, the platform handles that
  travel with some of them, and the conversions between the messages' data and cubeb's C structs.

  Integers that are only passed on (device ids, stream tokens) are naturals; a \<open>f32\<close> is its bit
  pattern.  A message type is polymorphic in its handles: in memory they are \<open>serializable_handle\<close>s,
  on the wire each is the \<open>i64\<close> that its \<open>Serialize\<close> implementation writes.  The platform is Unix
  (a handle is a file descriptor).
\<close>

section \<open>Devices and C strings\<close>

record device =
  output_name :: "byte list option"
  input_name :: "byte list option"

text \<open>
  A \<open>*const c_char\<close> is null or the bytes of memory it points to; reading it as a C string stops at
  the first zero byte.  \<open>CString::new\<close> refuses interior zero bytes and appends the terminator.
\<close>

type_synonym c_char_ptr = "byte list option"

definition dup_str :: "c_char_ptr \<Rightarrow> byte list option" where
  "dup_str s = (case s of None \<Rightarrow> None | Some mem \<Rightarrow> Some (takeWhile (\<lambda>b. b \<noteq> 0) mem))"

definition opt_str :: "byte list option \<Rightarrow> c_char_ptr" where
  "opt_str v = (case v of
     Some bs \<Rightarrow> if 0 \<in> set bs then None else Some (bs @ [0])
   | None \<Rightarrow> None)"

record cubeb_device =
  cd_output_name :: c_char_ptr
  cd_input_name :: c_char_ptr

definition device_of_ffi :: "cubeb_device \<Rightarrow> device" where
  "device_of_ffi info =
     \<lparr>output_name = dup_str (cd_output_name info), input_name = dup_str (cd_input_name info)\<rparr>"

definition ffi_of_device :: "device \<Rightarrow> cubeb_device" where
  "ffi_of_device info =
     \<lparr>cd_output_name = opt_str (output_name info), cd_input_name = opt_str (input_name info)\<rparr>"

record device_info =
  devid :: nat
  device_id :: "byte list option"
  friendly_name :: "byte list option"
  group_id :: "byte list option"
  vendor_name :: "byte list option"
  device_type :: u32
  dev_state :: u32
  preferred :: u32
  dev_format :: u32
  default_format :: u32
  max_channels :: u32
  default_rate :: u32
  max_rate :: u32
  min_rate :: u32
  latency_lo :: u32
  latency_hi :: u32

record cubeb_device_info =
  cdi_devid :: nat
  cdi_device_id :: c_char_ptr
  cdi_friendly_name :: c_char_ptr
  cdi_group_id :: c_char_ptr
  cdi_vendor_name :: c_char_ptr
  cdi_device_type :: u32
  cdi_state :: u32
  cdi_preferred :: u32
  cdi_format :: u32
  cdi_default_format :: u32
  cdi_max_channels :: u32
  cdi_default_rate :: u32
  cdi_max_rate :: u32
  cdi_min_rate :: u32
  cdi_latency_lo :: u32
  cdi_latency_hi :: u32

definition device_info_of_ffi :: "cubeb_device_info \<Rightarrow> device_info" where
  "device_info_of_ffi info = \<lparr>
     devid = cdi_devid info,
     device_id = dup_str (cdi_device_id info),
     friendly_name = dup_str (cdi_friendly_name info),
     group_id = dup_str (cdi_group_id info),
     vendor_name = dup_str (cdi_vendor_name info),
     device_type = cdi_device_type info,
     dev_state = cdi_state info,
     preferred = cdi_preferred info,
     dev_format = cdi_format info,
     default_format = cdi_default_format info,
     max_channels = cdi_max_channels info,
     default_rate = cdi_default_rate info,
     max_rate = cdi_max_rate info,
     min_rate = cdi_min_rate info,
     latency_lo = cdi_latency_lo info,
     latency_hi = cdi_latency_hi info \<rparr>"

definition ffi_of_device_info :: "device_info \<Rightarrow> cubeb_device_info" where
  "ffi_of_device_info info = \<lparr>
     cdi_devid = devid info,
     cdi_device_id = opt_str (device_id info),
     cdi_friendly_name = opt_str (friendly_name info),
     cdi_group_id = opt_str (group_id info),
     cdi_vendor_name = opt_str (vendor_name info),
     cdi_device_type = device_type info,
     cdi_state = dev_state info,
     cdi_preferred = preferred info,
     cdi_format = dev_format info,
     cdi_default_format = default_format info,
     cdi_max_channels = max_channels info,
     cdi_default_rate = default_rate info,
     cdi_max_rate = max_rate info,
     cdi_min_rate = min_rate info,
     cdi_latency_lo = latency_lo info,
     cdi_latency_hi = latency_hi info \<rparr>"

section \<open>Stream parameters\<close>

record stream_params =
  format :: c_int
  rate :: u32
  channels :: u32
  layout :: u32
  prefs :: u32
  input_params :: u32

definition frame_size_in_bytes :: "cubeb_abi \<Rightarrow> stream_params \<Rightarrow> usize" where
  "frame_size_in_bytes K p =
     (let sample_size = (case sample_format_of K (format p) of
          S16LE \<Rightarrow> 2 | S16BE \<Rightarrow> 2 | S16NE \<Rightarrow> 2
        | Float32LE \<Rightarrow> 4 | Float32BE \<Rightarrow> 4 | Float32NE \<Rightarrow> 4);
          channel_count = ucast (channels p)
      in sample_size * channel_count)"

record stream_create_params =
  stream_name :: "byte list option"
  input_device :: nat
  input_stream_params :: "stream_params option"
  output_device :: nat
  output_stream_params :: "stream_params option"
  latency_frames :: u32

section \<open>Messages\<close>

type_synonym f32 = u32

datatype 'h stream_create = StreamCreateMk (token: nat) (shm_handle: 'h) (shm_area_size: usize)

datatype 'h register_device_collection_changed = RegisterMk (platform_handle: 'h)

datatype server_message =
    ClientConnect
  | ClientDisconnect
  | ContextGetBackendId
  | ContextGetMaxChannelCount
  | ContextGetMinLatency stream_params
  | ContextGetPreferredSampleRate
  | ContextGetSupportedInputProcessingParams
  | ContextGetDeviceEnumeration u32
  | ContextSetupDeviceCollectionCallback
  | ContextRegisterDeviceCollectionChanged u32 bool
  | StreamCreate stream_create_params
  | StreamInit nat
  | StreamDestroy nat
  | StreamStart nat
  | StreamStop nat
  | StreamGetPosition nat
  | StreamGetLatency nat
  | StreamGetInputLatency nat
  | StreamSetVolume nat f32
  | StreamSetName nat "byte list"
  | StreamGetCurrentDevice nat
  | StreamSetInputMute nat bool
  | StreamSetInputProcessingParams nat u32
  | StreamRegisterDeviceChangeCallback nat bool
  | PromoteThreadToRealTime "byte list"

datatype 'h client_message =
    ClientConnected
  | ClientDisconnected
  | ContextBackendId "byte list"
  | ContextMaxChannelCount u32
  | ContextMinLatency u32
  | ContextPreferredSampleRate u32
  | ContextSupportedInputProcessingParams u32
  | ContextEnumeratedDevices "device_info list"
  | ContextSetupDeviceCollectionCallbackDone "'h register_device_collection_changed"
  | ContextRegisteredDeviceCollectionChanged
  | StreamCreated "'h stream_create"
  | StreamInitialized 'h
  | StreamDestroyed
  | StreamStarted
  | StreamStopped
  | StreamPosition u64
  | StreamLatency u32
  | StreamInputLatency u32
  | StreamVolumeSet
  | StreamNameSet
  | StreamCurrentDevice device
  | StreamInputMuteSet
  | StreamInputProcessingParamsSet
  | StreamRegisterDeviceChangeCallbackDone
  | ThreadPromoted
  | ErrorMsg c_int

datatype callback_req = ReqData isize | ReqState u32 | ReqDeviceChange

datatype callback_resp = RespData isize | RespState | RespDeviceChange | RespError c_int

datatype device_collection_req = CollReqDeviceChange u32

datatype device_collection_resp = CollRespDeviceChange

end
