(* ===== verification/Handles.thy ===== *)
theory Handles
  imports Messages
begin

text \<open>
  Platform handles (\<open>audioipc/src/lib.rs\<close>) and how they travel with messages
  (\<open>audioipc/src/messages.rs\<close>): the states of a \<open>SerializableHandle\<close>, and the trait
  \<open>AssociateHandleForMessage\<close> the framed driver uses to detach a handle before a message is
  serialized and to attach the received one afterwards.  The platform is Unix (\<open>WinHandles\<close> has the Windows variants): a handle is a file
  descriptor, a \<open>RemoteHandle\<close> is a descriptor owned by a connection buffer.
\<close>

section \<open>Platform handles\<close>

type_synonym handle = c_int

definition INVALID_HANDLE_VALUE :: handle where
  "INVALID_HANDLE_VALUE = -1"

definition valid_handle :: "handle \<Rightarrow> bool" where
  "valid_handle h \<longleftrightarrow> 0 \<le> h"

definition platform_handle_new :: "handle \<Rightarrow> ('e, handle) res" where
  "platform_handle_new raw = (if valid_handle raw then Ok raw else Panic)"

text \<open>\<open>PlatformHandle::duplicate\<close>, over the result of \<open>dup\<close> and the error of a failed one.\<close>

definition platform_handle_duplicate ::
  "(handle \<Rightarrow> handle) \<Rightarrow> io_error \<Rightarrow> handle \<Rightarrow> (io_error, handle) res" where
  "platform_handle_duplicate dup last_os_error h =
     (let newfd = dup h in
      if \<not> valid_handle newfd then Err last_os_error else platform_handle_new newfd)"

section \<open>SerializableHandle\<close>

datatype serializable_handle = Owned handle "u32 option" | SerializableValue handle | Empty

definition serializable_handle_new :: "handle \<Rightarrow> u32 \<Rightarrow> serializable_handle" where
  "serializable_handle_new h target_pid = Owned h (Some target_pid)"

definition sh_take_handle :: "serializable_handle \<Rightarrow> ('e, handle) res \<times> serializable_handle" where
  "sh_take_handle s = (case s of
     Owned h target_pid \<Rightarrow> if target_pid = None then (Ok h, Empty) else (Panic, Empty)
   | _ \<Rightarrow> (Panic, Empty))"

definition take_handle_for_send ::
  "serializable_handle \<Rightarrow> ('e, handle) res \<times> serializable_handle" where
  "take_handle_for_send s = (case s of
     Owned h target_pid \<Rightarrow> (case target_pid of Some _ \<Rightarrow> (Ok h, Empty) | None \<Rightarrow> (Panic, Empty))
   | _ \<Rightarrow> (Panic, Empty))"

definition new_owned :: "handle \<Rightarrow> ('e, serializable_handle) res" where
  "new_owned h = map_ok (\<lambda>h. Owned h None) (platform_handle_new h)"

definition get_serializable_value :: "serializable_handle \<Rightarrow> ('e, handle) res" where
  "get_serializable_value s = (case s of
     SerializableValue h \<Rightarrow> Ok h
   | Empty \<Rightarrow> Ok INVALID_HANDLE_VALUE
   | Owned _ _ \<Rightarrow> Panic)"

text \<open>
  \<open>Serialize\<close> writes the value as an \<open>i64\<close>; \<open>Deserialize\<close> reads one and casts it to \<open>c_int\<close>.
\<close>

definition handle_of_i64 :: "int \<Rightarrow> serializable_handle" where
  "handle_of_i64 v = SerializableValue (sint (word_of_int v :: 32 word))"

definition handle_panics :: "serializable_handle \<Rightarrow> bool" where
  "handle_panics h \<longleftrightarrow> (get_serializable_value h :: (unit, handle) res) = Panic"

definition i64_of_handle :: "serializable_handle \<Rightarrow> int" where
  "i64_of_handle h = (case (get_serializable_value h :: (unit, handle) res) of
     Ok v \<Rightarrow> v | _ \<Rightarrow> INVALID_HANDLE_VALUE)"

text \<open>
  The two ends of a connection that carries \<open>ClientMessage\<close>s, over a bincode for their wire form:
  serialization panics where the handle's does, deserialization builds a \<open>SerializableValue\<close>.
\<close>

definition client_message_tx ::
  "(int client_message, 'o) bincode \<Rightarrow> (serializable_handle client_message, 'o) bincode" where
  "client_message_tx bc = \<lparr>
     bc_serialize_into = (\<lambda>lim m.
       if \<exists>h \<in> set_client_message m. handle_panics h then SerPanic
       else bc_serialize_into bc lim (map_client_message i64_of_handle m)),
     bc_deserialize = bc_deserialize bc \<rparr>"

definition client_message_rx ::
  "('i, int client_message) bincode \<Rightarrow> ('i, serializable_handle client_message) bincode" where
  "client_message_rx bc = \<lparr>
     bc_serialize_into = bc_serialize_into bc,
     bc_deserialize = (\<lambda>lim bs. map_sum id (map_client_message handle_of_i64) (bc_deserialize bc lim bs)) \<rparr>"

section \<open>AssociateHandleForMessage\<close>

record 'm handle_ops =
  has_associated_handle :: "'m \<Rightarrow> bool"
  take_handle :: "'m \<Rightarrow> (io_error, handle) res \<times> 'm"
  set_local_handle :: "'m \<Rightarrow> handle \<Rightarrow> (io_error, unit) res \<times> 'm"

text \<open>The trait's default methods: no message carries a handle.\<close>

definition default_handle_ops :: "'m handle_ops" where
  "default_handle_ops = \<lparr>
     has_associated_handle = (\<lambda>_. False),
     take_handle = (\<lambda>m. (Panic, m)),
     set_local_handle = (\<lambda>m _. (Panic, m)) \<rparr>"

text \<open>\<open>impl AssociateHandleForMessage for ClientMessage\<close>.\<close>

definition cm_has_associated_handle :: "'h client_message \<Rightarrow> bool" where
  "cm_has_associated_handle m = (case m of
     StreamCreated _ \<Rightarrow> True
   | StreamInitialized _ \<Rightarrow> True
   | ContextSetupDeviceCollectionCallbackDone _ \<Rightarrow> True
   | _ \<Rightarrow> False)"

definition cm_take_handle ::
  "serializable_handle client_message \<Rightarrow>
   (io_error, handle) res \<times> serializable_handle client_message" where
  "cm_take_handle m = (case m of
     StreamCreated d \<Rightarrow> (case take_handle_for_send (shm_handle d) of
       (r, s) \<Rightarrow> (r, StreamCreated (StreamCreateMk (token d) s (shm_area_size d))))
   | StreamInitialized d \<Rightarrow> (case take_handle_for_send d of (r, s) \<Rightarrow> (r, StreamInitialized s))
   | ContextSetupDeviceCollectionCallbackDone d \<Rightarrow>
       (case take_handle_for_send (platform_handle d) of
         (r, s) \<Rightarrow> (r, ContextSetupDeviceCollectionCallbackDone (RegisterMk s)))
   | _ \<Rightarrow> (Panic, m))"

definition cm_set_local_handle ::
  "serializable_handle client_message \<Rightarrow> handle \<Rightarrow>
   (io_error, unit) res \<times> serializable_handle client_message" where
  "cm_set_local_handle m h = (case m of
     StreamCreated d \<Rightarrow> (case new_owned h of
       Ok s \<Rightarrow> (Ok (), StreamCreated (StreamCreateMk (token d) s (shm_area_size d)))
     | Err e \<Rightarrow> (Err e, m) | Panic \<Rightarrow> (Panic, m))
   | StreamInitialized d \<Rightarrow> (case new_owned h of
       Ok s \<Rightarrow> (Ok (), StreamInitialized s)
     | Err e \<Rightarrow> (Err e, m) | Panic \<Rightarrow> (Panic, m))
   | ContextSetupDeviceCollectionCallbackDone d \<Rightarrow> (case new_owned h of
       Ok s \<Rightarrow> (Ok (), ContextSetupDeviceCollectionCallbackDone (RegisterMk s))
     | Err e \<Rightarrow> (Err e, m) | Panic \<Rightarrow> (Panic, m))
   | _ \<Rightarrow> (Panic, m))"

definition client_message_handles :: "serializable_handle client_message handle_ops" where
  "client_message_handles = \<lparr>
     has_associated_handle = cm_has_associated_handle,
     take_handle = cm_take_handle,
     set_local_handle = cm_set_local_handle \<rparr>"

section \<open>What the driver relies on\<close>

text \<open>
  \<open>sendable\<close>: a message as its sender builds it (any handle in it is owned, valid and has a target).
  \<open>seen m\<close>: what deserialization yields for the serialized \<open>m\<close>.  \<open>received m h\<close>: the message the
  receiver ends with, when the handle that arrived beside it is \<open>h\<close>.
\<close>

locale handle_message =
  fixes ops :: "'m handle_ops"
    and sendable :: "'m \<Rightarrow> bool"
    and seen :: "'m \<Rightarrow> 'm"
    and received :: "'m \<Rightarrow> handle \<Rightarrow> 'm"
    and serializable :: "'m \<Rightarrow> bool"
  assumes take_owned: "sendable m \<Longrightarrow> has_associated_handle ops m \<Longrightarrow>
      \<exists>h m'. take_handle ops m = (Ok h, m') \<and> valid_handle h \<and> serializable m'"
    and take_set: "sendable m \<Longrightarrow> has_associated_handle ops m \<Longrightarrow> take_handle ops m = (Ok h, m') \<Longrightarrow>
      has_associated_handle ops (seen m') \<and>
      (valid_handle h' \<longrightarrow> set_local_handle ops (seen m') h' = (Ok (), received m h'))"
    and plain: "sendable m \<Longrightarrow> \<not> has_associated_handle ops m \<Longrightarrow>
      serializable m \<and> seen m = m \<and> received m h' = m"

definition cm_sendable :: "serializable_handle client_message \<Rightarrow> bool" where
  "cm_sendable m \<longleftrightarrow> (\<forall>h \<in> set_client_message m. case h of
     Owned fd (Some _) \<Rightarrow> valid_handle fd | _ \<Rightarrow> False)"

definition cm_seen :: "serializable_handle client_message \<Rightarrow> serializable_handle client_message" where
  "cm_seen m = map_client_message (\<lambda>h. handle_of_i64 (i64_of_handle h)) m"

definition cm_received ::
  "serializable_handle client_message \<Rightarrow> handle \<Rightarrow> serializable_handle client_message" where
  "cm_received m h = map_client_message (\<lambda>_. Owned h None) m"

definition cm_serializable :: "serializable_handle client_message \<Rightarrow> bool" where
  "cm_serializable m \<longleftrightarrow> (\<forall>h \<in> set_client_message m. \<not> handle_panics h)"

lemma cm_no_handle:
  "\<not> cm_has_associated_handle m \<Longrightarrow> set_client_message m = {} \<and> map_client_message f m = map_client_message g m"
  by (cases m) (auto simp: cm_has_associated_handle_def)

lemma cm_no_handle_id: "\<not> cm_has_associated_handle m \<Longrightarrow> map_client_message f m = m"
  using cm_no_handle [of m f id] by (simp add: client_message.map_id)

lemmas handle_defs = take_handle_for_send_def new_owned_def platform_handle_new_def
  get_serializable_value_def handle_panics_def

lemma cm_handle_cases:
  assumes "cm_has_associated_handle m"
  obtains (created) t s a where "m = StreamCreated (StreamCreateMk t s a)"
    | (initialized) s where "m = StreamInitialized s"
    | (registered) s where "m = ContextSetupDeviceCollectionCallbackDone (RegisterMk s)"
  using assms
  by (cases m) (auto simp: cm_has_associated_handle_def split: stream_create.splits
      intro: stream_create.exhaust register_device_collection_changed.exhaust)

lemma sendable_handle: 
  "(case s of Owned fd (Some _) \<Rightarrow> valid_handle fd | _ \<Rightarrow> False) \<Longrightarrow>
   \<exists>fd pid. s = Owned fd (Some pid) \<and> valid_handle fd"
  by (auto split: serializable_handle.splits option.splits)

lemmas cm_handle_simps = cm_has_associated_handle_def cm_take_handle_def cm_set_local_handle_def
  cm_seen_def cm_received_def cm_serializable_def

interpretation cmh: handle_message client_message_handles cm_sendable cm_seen cm_received
  cm_serializable
proof
  fix m assume s: "cm_sendable m" and "has_associated_handle client_message_handles m"
  then have "cm_has_associated_handle m" by (simp add: client_message_handles_def)
  then show "\<exists>h m'. take_handle client_message_handles m = (Ok h, m') \<and> valid_handle h \<and> cm_serializable m'"
    using s by (cases rule: cm_handle_cases)
      (auto simp: client_message_handles_def cm_sendable_def cm_handle_simps handle_defs
        dest!: sendable_handle)
next
  fix m h m' h'
  assume s: "cm_sendable m" and "has_associated_handle client_message_handles m"
    and t: "take_handle client_message_handles m = (Ok h, m')"
  then have "cm_has_associated_handle m" by (simp add: client_message_handles_def)
  then show "has_associated_handle client_message_handles (cm_seen m') \<and>
      (valid_handle h' \<longrightarrow> set_local_handle client_message_handles (cm_seen m') h' = (Ok (), cm_received m h'))"
    using s t by (cases rule: cm_handle_cases)
      (auto simp: client_message_handles_def cm_sendable_def cm_handle_simps handle_defs
        dest!: sendable_handle)
next
  fix m h' assume "\<not> has_associated_handle client_message_handles m"
  then have "\<not> cm_has_associated_handle m" by (simp add: client_message_handles_def)
  then show "cm_serializable m \<and> cm_seen m = m \<and> cm_received m h' = m"
    by (simp add: cm_serializable_def cm_seen_def cm_received_def cm_no_handle cm_no_handle_id)
qed

text \<open>The messages that never carry a handle use the default methods.\<close>

interpretation plainh: handle_message default_handle_ops "\<lambda>_. True" "\<lambda>m. m" "\<lambda>m _. m" "\<lambda>_. True"
  by unfold_locales (simp_all add: default_handle_ops_def)

text \<open>The contract of a wire bincode carries over to the messages with handles.\<close>

lemma client_message_contract:
  assumes "bincode_contract id tx rx"
  shows "bincode_contract cm_seen (client_message_tx tx) (client_message_rx rx)"
  using assms
  by (auto simp: bincode_contract_def client_message_tx_def client_message_rx_def cm_seen_def
      client_message.map_comp comp_def split: if_splits)

end
