(* ===== verification/Sys.thy ===== *)
theory Sys
  imports Handles
begin

text \<open>
  \<open>audioipc/src/sys\<close>: the connection buffer (bytes and the handles that belong to them) and the Unix
  pipe, which sends the handles of a buffer as \<open>SCM_RIGHTS\<close> control data beside the bytes.

  The kernel is the environment: a system call's outcome is an argument, and what the program passed
  to it is part of a result.  The layout of control messages (\<open>CMSG_LEN\<close>, \<open>CMSG_SPACE\<close>, the header
  struct, the native byte order of descriptors) is a parameter.
\<close>

section \<open>ConnectionBuffer\<close>

definition HANDLE_QUEUE_LIMIT :: nat where
  "HANDLE_QUEUE_LIMIT = 16"

text \<open>The handle queue is allocated for the limit and asserts that it never grows.\<close>

record conn_buf =
  cb_buf :: "byte list"
  cb_handles :: "handle list"

definition conn_buf_new :: conn_buf where
  "conn_buf_new = \<lparr>cb_buf = [], cb_handles = []\<rparr>"

definition conn_buf_is_empty :: "conn_buf \<Rightarrow> bool" where
  "conn_buf_is_empty b \<longleftrightarrow> cb_buf b = []"

definition push_handle :: "conn_buf \<Rightarrow> handle \<Rightarrow> (io_error, unit) res \<times> conn_buf" where
  "push_handle b h =
     (if length (cb_handles b) < HANDLE_QUEUE_LIMIT
      then (Ok (), b\<lparr>cb_handles := cb_handles b @ [h]\<rparr>) else (Panic, b))"

definition pop_handle :: "conn_buf \<Rightarrow> handle option \<times> conn_buf" where
  "pop_handle b = (case cb_handles b of [] \<Rightarrow> (None, b) | h # hs \<Rightarrow> (Some h, b\<lparr>cb_handles := hs\<rparr>))"

section \<open>Control messages\<close>

record cmsg_abi =
  CMSG_LEN :: "nat \<Rightarrow> nat"
  CMSG_SPACE :: "nat \<Rightarrow> nat"
  cmsg_data_offset :: nat
  cmsghdr_bytes :: "nat \<Rightarrow> c_int \<Rightarrow> c_int \<Rightarrow> byte list"
  cmsghdr_read :: "byte list \<Rightarrow> nat \<times> c_int \<times> c_int"
  SOL_SOCKET :: c_int
  SCM_RIGHTS :: c_int
  fd_bytes :: "handle \<Rightarrow> byte list"
  fd_read :: "byte list \<Rightarrow> handle"

definition cmsg_abi_contract :: "cmsg_abi \<Rightarrow> bool" where
  "cmsg_abi_contract C \<longleftrightarrow>
     (\<forall>n. CMSG_LEN C n = CMSG_LEN C 0 + n \<and> CMSG_LEN C n \<le> CMSG_SPACE C n) \<and>
     0 < CMSG_LEN C 0 \<and> CMSG_LEN C 0 \<le> 64 \<and> cmsg_data_offset C = CMSG_LEN C 0 \<and>
     (\<forall>n l t. length (cmsghdr_bytes C n l t) \<le> CMSG_LEN C 0) \<and>
     (\<forall>n rest. n \<le> 128 \<longrightarrow> cmsghdr_read C (cmsghdr_bytes C n (SOL_SOCKET C) (SCM_RIGHTS C) @ rest)
        = (n, SOL_SOCKET C, SCM_RIGHTS C)) \<and>
     (\<forall>h. length (fd_bytes C h) = 4) \<and>
     (\<forall>h. - (2 ^ 31) \<le> h \<and> h < 2 ^ 31 \<longrightarrow> fd_read C (fd_bytes C h) = h)"

text \<open>\<open>ptr::copy_nonoverlapping\<close> into a block of memory.\<close>

definition overwrite :: "byte list \<Rightarrow> nat \<Rightarrow> byte list \<Rightarrow> byte list" where
  "overwrite mem off bs = take off mem @ bs @ drop (off + length bs) mem"

text \<open>
  \<open>encode_handles\<close> appends a control message to \<open>cmsg\<close>, written into the spare memory behind it
  (\<open>mem\<close>: that memory, up to the end of the allocation).  The assertion on \<open>remaining_mut\<close> does not
  bound it (a \<open>BytesMut\<close> reports what it could grow to); \<open>advance_mut\<close> panics past its end, after the
  copies have been made.
\<close>

definition encode_handles ::
  "cmsg_abi \<Rightarrow> byte list \<Rightarrow> byte list \<Rightarrow> handle list \<Rightarrow> (io_error, byte list) res" where
  "encode_handles C mem cmsg hs =
     (if length hs \<le> HANDLE_QUEUE_LIMIT then
        let msg = concat (map (fd_bytes C) hs);
            cmsg_space = CMSG_SPACE C (length msg);
            hdr = cmsghdr_bytes C (CMSG_LEN C (length msg)) (SOL_SOCKET C) (SCM_RIGHTS C);
            block = overwrite (overwrite (take cmsg_space mem) 0 hdr) (cmsg_data_offset C) msg
        in if cmsg_space \<le> length mem then Ok (cmsg @ block) else Panic
      else Panic)"

text \<open>
  \<open>decode_handles\<close> reads the descriptors of the first control message; a length field beyond the
  buffer, or more descriptors than the limit, panics.
\<close>

fun fds_of_bytes :: "cmsg_abi \<Rightarrow> nat \<Rightarrow> byte list \<Rightarrow> handle list" where
  "fds_of_bytes C 0 bs = []"
| "fds_of_bytes C (Suc k) bs = fd_read C (take 4 bs) # fds_of_bytes C k (drop 4 bs)"

definition decode_handles :: "cmsg_abi \<Rightarrow> byte list \<Rightarrow> (io_error, handle list) res" where
  "decode_handles C buf =
     (let cmsghdr_len = CMSG_LEN C 0 in
      if length buf < cmsghdr_len then Ok []
      else
        case cmsghdr_read C buf of (cmsg_len, level, typ) \<Rightarrow>
          if level = SOL_SOCKET C \<and> typ = SCM_RIGHTS C then
            (if cmsghdr_len \<le> cmsg_len \<and> cmsg_len \<le> length buf then
               let slice = take (cmsg_len - cmsghdr_len) (drop cmsghdr_len buf);
                   fds = fds_of_bytes C (length slice div 4) slice
               in if length fds \<le> HANDLE_QUEUE_LIMIT then Ok fds else Panic
             else Panic)
          else Ok [])"

section \<open>System calls\<close>

datatype 'a sys_result = SysRet 'a | SysErr io_error

text \<open>
  A system call returns a \<open>ssize_t\<close> and leaves an error behind; \<open>cvt\<close> makes a result of the two, and
  \<open>cvt_r\<close> repeats an interrupted call.  Its argument is the sequence of the kernel's answers (\<open>None\<close>:
  the sequence ends while the call is being repeated).
\<close>

record kernel_answer =
  k_ret :: int
  k_errno :: io_error
  k_controllen :: nat
  k_flags :: int

definition cvt :: "kernel_answer \<Rightarrow> nat sys_result" where
  "cvt k = (if k_ret k = -1 then SysErr (k_errno k) else SysRet (unat (word_of_int (k_ret k) :: usize)))"

definition interrupted :: "kernel_answer \<Rightarrow> bool" where
  "interrupted k = (case cvt k of SysErr e \<Rightarrow> kind e = Interrupted | SysRet _ \<Rightarrow> False)"

fun cvt_r :: "kernel_answer list \<Rightarrow> (nat sys_result \<times> kernel_answer \<times> kernel_answer list) option" where
  "cvt_r [] = None"
| "cvt_r (k # ks) = (if interrupted k then cvt_r ks else Some (cvt k, k, ks))"

text \<open>The message header the two calls build from the slices and the control data.\<close>

record msghdr =
  msg_iov :: "byte list list"
  msg_iovlen :: nat
  msg_control :: "byte list option"
  msg_controllen :: nat

definition msghdr_of :: "byte list list \<Rightarrow> byte list \<Rightarrow> msghdr" where
  "msghdr_of bufs control = \<lparr>
     msg_iov = bufs, msg_iovlen = min (2 ^ 31 - 1) (length bufs),
     msg_control = (if control = [] then None else Some control),
     msg_controllen = (if control = [] then 0 else length control) \<rparr>"

definition send_msg_with_flags ::
  "kernel_answer list \<Rightarrow> byte list list \<Rightarrow> byte list \<Rightarrow> (msghdr \<times> nat sys_result) option" where
  "send_msg_with_flags ks bufs control =
     map_option (\<lambda>(r, _). (msghdr_of bufs control, r)) (cvt_r ks)"

definition recv_msg_with_flags ::
  "kernel_answer list \<Rightarrow> byte list list \<Rightarrow> byte list \<Rightarrow> (msghdr \<times> (nat \<times> nat \<times> int) sys_result) option" where
  "recv_msg_with_flags ks bufs control =
     map_option (\<lambda>(r, k, _). (msghdr_of bufs control,
         case r of SysErr e \<Rightarrow> SysErr e | SysRet n \<Rightarrow> SysRet (n, k_controllen k, k_flags k))) (cvt_r ks)"

section \<open>The Unix pipe\<close>

record pipe =
  cmsg :: "byte list"

definition pipe_new :: pipe where
  "pipe_new = \<lparr>cmsg = []\<rparr>"

text \<open>The control buffer is allocated once, for the largest control message.\<close>

definition pipe_cmsg_capacity :: "cmsg_abi \<Rightarrow> nat" where
  "pipe_cmsg_capacity C = CMSG_SPACE C (4 * HANDLE_QUEUE_LIMIT)"

text \<open>
  \<open>recv_msg\<close>, given the outcome of \<open>recvmsg\<close>: the bytes and the control data received.
\<close>

fun push_handles :: "conn_buf \<Rightarrow> handle list \<Rightarrow> (io_error, unit) res \<times> conn_buf" where
  "push_handles b [] = (Ok (), b)"
| "push_handles b (h # hs) = (case push_handle b h of
     (Ok _, b') \<Rightarrow> push_handles b' hs
   | (Err e, b') \<Rightarrow> (Err e, b')
   | (Panic, b') \<Rightarrow> (Panic, b'))"

definition recv_msg ::
  "cmsg_abi \<Rightarrow> (byte list \<times> byte list) sys_result \<Rightarrow> pipe \<Rightarrow> conn_buf \<Rightarrow>
   (io_error, nat) res \<times> pipe \<times> conn_buf" where
  "recv_msg C r p b = (case r of
     SysErr e \<Rightarrow> (Err e, p, b)
   | SysRet (bytes, control) \<Rightarrow>
       let b1 = b\<lparr>cb_buf := cb_buf b @ bytes\<rparr> in
       (case decode_handles C (cmsg p @ control) of
          Ok hs \<Rightarrow> (case push_handles b1 hs of
              (Ok _, b2) \<Rightarrow> (Ok (length bytes), p\<lparr>cmsg := []\<rparr>, b2)
            | (Err e, b2) \<Rightarrow> (Err e, p\<lparr>cmsg := []\<rparr>, b2)
            | (Panic, b2) \<Rightarrow> (Panic, p\<lparr>cmsg := []\<rparr>, b2))
        | Err e \<Rightarrow> (Err e, p\<lparr>cmsg := cmsg p @ control\<rparr>, b1)
        | Panic \<Rightarrow> (Panic, p\<lparr>cmsg := cmsg p @ control\<rparr>, b1)))"

text \<open>
  \<open>send_msg\<close>, given the outcome of \<open>sendmsg\<close>; the last result is what was passed to it (bytes and
  control data).  \<open>BytesMut::advance\<close> panics when told to skip more than there is.
\<close>

definition send_msg ::
  "cmsg_abi \<Rightarrow> byte list \<Rightarrow> nat sys_result \<Rightarrow> pipe \<Rightarrow> conn_buf \<Rightarrow>
   (io_error, nat) res \<times> pipe \<times> conn_buf \<times> (byte list \<times> byte list) option" where
  "send_msg C mem r p b =
     (if cb_buf b = [] then (Panic, p, b, None)
      else
        case (if cb_handles b \<noteq> [] then encode_handles C mem (cmsg p) (cb_handles b) else Ok (cmsg p)) of
          Panic \<Rightarrow> (Panic, p, b, None)
        | Err e \<Rightarrow> (Err e, p, b, None)
        | Ok control \<Rightarrow>
            let p' = p\<lparr>cmsg := control\<rparr>; call = Some (cb_buf b, control) in
            (case r of
               SysErr e \<Rightarrow> (Err e, p', b, call)
             | SysRet n \<Rightarrow>
                 if n \<le> length (cb_buf b)
                 then (Ok n, p'\<lparr>cmsg := []\<rparr>, \<lparr>cb_buf = drop n (cb_buf b), cb_handles = []\<rparr>, call)
                 else (Panic, p', b, call)))"

section \<open>Round trip of the handles\<close>

definition c_int_range :: "c_int \<Rightarrow> bool" where
  "c_int_range h \<longleftrightarrow> - (2 ^ 31) \<le> h \<and> h < 2 ^ 31"

definition fds_ok :: "handle list \<Rightarrow> bool" where
  "fds_ok hs \<longleftrightarrow> length hs \<le> HANDLE_QUEUE_LIMIT \<and> (\<forall>h \<in> set hs. c_int_range h)"

lemma cmsg_contractD:
  assumes "cmsg_abi_contract C"
  shows fd_length: "length (fd_bytes C h) = 4"
    and fd_round: "c_int_range h \<Longrightarrow> fd_read C (fd_bytes C h) = h"
    and cmsg_len: "CMSG_LEN C n = CMSG_LEN C 0 + n"
    and cmsg_len_le: "CMSG_LEN C n \<le> CMSG_SPACE C n"
    and cmsg_pos: "0 < CMSG_LEN C 0"
    and cmsg_header: "CMSG_LEN C 0 \<le> 64" "cmsg_data_offset C = CMSG_LEN C 0"
      "length (cmsghdr_bytes C n l t) \<le> CMSG_LEN C 0"
    and cmsg_read: "n \<le> 128 \<Longrightarrow> cmsghdr_read C (cmsghdr_bytes C n (SOL_SOCKET C) (SCM_RIGHTS C) @ rest)
        = (n, SOL_SOCKET C, SCM_RIGHTS C)"
  using assms unfolding cmsg_abi_contract_def c_int_range_def by blast+

lemma length_fd_bytes: "cmsg_abi_contract C \<Longrightarrow> length (concat (map (fd_bytes C) hs)) = 4 * length hs"
  by (induction hs) (simp_all add: fd_length)

lemma fds_of_fd_bytes:
  assumes "cmsg_abi_contract C" and "\<forall>h \<in> set hs. c_int_range h"
  shows "fds_of_bytes C (length hs) (concat (map (fd_bytes C) hs) @ rest) = hs"
  using assms(2) by (induction hs) (simp_all add: fd_length [OF assms(1)] fd_round [OF assms(1)])

lemma overwrite_front: "length bs \<le> length mem \<Longrightarrow> overwrite mem 0 bs = bs @ drop (length bs) mem"
  by (simp add: overwrite_def)

lemma length_overwrite: "off + length bs \<le> length mem \<Longrightarrow> length (overwrite mem off bs) = length mem"
  by (simp add: overwrite_def)

text \<open>What \<open>encode_handles\<close> appends, and that it reads back, whatever follows it.\<close>

lemma encode_decode_handles:
  assumes C: "cmsg_abi_contract C" and hs: "fds_ok hs"
    and mem: "CMSG_SPACE C (4 * length hs) \<le> length mem"
  obtains enc where "\<And>c. encode_handles C mem c hs = Ok (c @ enc)"
    and "\<And>rest. decode_handles C (enc @ rest) = Ok hs"
    and "length enc = CMSG_SPACE C (4 * length hs)"
proof -
  define msg where "msg = concat (map (fd_bytes C) hs)"
  define sp where "sp = CMSG_SPACE C (length msg)"
  define hdr where "hdr = cmsghdr_bytes C (CMSG_LEN C (length msg)) (SOL_SOCKET C) (SCM_RIGHTS C)"
  define off where "off = CMSG_LEN C 0"
  define m1 where "m1 = overwrite (take sp mem) 0 hdr"
  define enc where "enc = overwrite m1 off msg"
  have lmsg: "length msg = 4 * length hs" using length_fd_bytes [OF C] by (simp add: msg_def)
  have len: "CMSG_LEN C (length msg) = off + length msg" and le: "off + length msg \<le> sp"
    using cmsg_len [OF C, of "length msg"] cmsg_len_le [OF C, of "length msg"]
    by (simp_all add: off_def sp_def)
  have off: "cmsg_data_offset C = off" "off \<le> 64" "length hdr \<le> off"
    using cmsg_header [OF C] by (simp_all add: off_def hdr_def)
  have l1: "length m1 = sp"
    using mem lmsg off le by (simp add: m1_def length_overwrite sp_def)
  have lenc: "length enc = sp" using l1 le by (simp add: enc_def length_overwrite)
  have "m1 = hdr @ drop (length hdr) (take sp mem)"
    using mem lmsg off le by (simp add: m1_def overwrite_front sp_def)
  then have t: "take off m1 = hdr @ drop (length hdr) (take off m1)"
    using off(3) by (metis append_take_drop_id append_eq_conv_conj min.absorb1 take_take)
  define junk where "junk = drop (length hdr) (take off m1)"
  have e: "enc = hdr @ junk @ msg @ drop (off + length msg) m1"
    unfolding enc_def overwrite_def junk_def using t by (metis append.assoc)
  have d: "drop off (enc @ rest) = msg @ drop (off + length msg) m1 @ rest" for rest
    using l1 le by (simp add: enc_def overwrite_def)
  have "off + length msg \<le> 128" using lmsg hs off by (simp add: fds_ok_def HANDLE_QUEUE_LIMIT_def)
  then have hdr: "cmsghdr_read C (enc @ rest) = (off + length msg, SOL_SOCKET C, SCM_RIGHTS C)" for rest
    using cmsg_read [OF C, of "off + length msg"] len by (simp add: e hdr_def)
  have slice: "take (length msg) (drop off (enc @ rest)) = msg" for rest
    unfolding d by simp
  have fds: "fds_of_bytes C (length msg div 4) msg = hs"
    using fds_of_fd_bytes [OF C, of hs "[]"] hs lmsg by (simp add: msg_def fds_ok_def)
  show thesis
  proof
    show "encode_handles C mem c hs = Ok (c @ enc)" for c
      using hs mem lmsg off
      by (simp add: encode_handles_def fds_ok_def Let_def enc_def m1_def hdr_def msg_def sp_def
          flip: msg_def)
    show "decode_handles C (enc @ rest) = Ok hs" for rest
      using hdr [of rest] slice [of rest] fds hs lenc le
      by (simp add: decode_handles_def Let_def fds_ok_def flip: off_def)
    show "length enc = CMSG_SPACE C (4 * length hs)" using lenc lmsg by (simp add: sp_def)
  qed
qed

lemma decode_no_handles: "cmsg_abi_contract C \<Longrightarrow> decode_handles C [] = Ok []"
  using cmsg_pos [of C] by (simp add: decode_handles_def)

lemma push_handles_room:
  "length (cb_handles b) + length hs \<le> HANDLE_QUEUE_LIMIT \<Longrightarrow>
   push_handles b hs = (Ok (), b\<lparr>cb_handles := cb_handles b @ hs\<rparr>)"
  by (induction hs arbitrary: b) (auto simp: push_handle_def)

text \<open>The control data \<open>send_msg\<close> passes for a buffer, on a pipe whose control buffer is clean.\<close>

definition control_for :: "cmsg_abi \<Rightarrow> handle list \<Rightarrow> byte list \<Rightarrow> bool" where
  "control_for C hs control \<longleftrightarrow>
     (if hs = [] then control = [] else \<forall>rest. decode_handles C (control @ rest) = Ok hs)"

lemma control_for_decode:
  "cmsg_abi_contract C \<Longrightarrow> control_for C hs control \<Longrightarrow> decode_handles C control = Ok hs"
  using decode_no_handles [of C] by (auto simp: control_for_def split: if_splits dest: spec [of _ "[]"])

lemma send_control:
  assumes C: "cmsg_abi_contract C" and hs: "fds_ok (cb_handles b)"
    and mem: "CMSG_SPACE C (4 * length (cb_handles b)) \<le> length mem" and buf: "cb_buf b \<noteq> []"
  obtains enc where "control_for C (cb_handles b) enc"
    and "\<And>n. n \<le> length (cb_buf b) \<Longrightarrow> send_msg C mem (SysRet n) p b =
        (Ok n, p\<lparr>cmsg := []\<rparr>, \<lparr>cb_buf = drop n (cb_buf b), cb_handles = []\<rparr>, Some (cb_buf b, cmsg p @ enc))"
    and "\<And>e. send_msg C mem (SysErr e) p b =
        (Err e, p\<lparr>cmsg := cmsg p @ enc\<rparr>, b, Some (cb_buf b, cmsg p @ enc))"
    and "cb_handles b \<noteq> [] \<Longrightarrow> length enc = CMSG_SPACE C (4 * length (cb_handles b))"
proof (cases "cb_handles b = []")
  case True
  with buf show thesis by (intro that [of "[]"]) (simp_all add: control_for_def send_msg_def Let_def)
next
  case False
  from encode_decode_handles [OF C hs mem] obtain enc where
    e: "\<And>c. encode_handles C mem c (cb_handles b) = Ok (c @ enc)"
      "\<And>rest. decode_handles C (enc @ rest) = Ok (cb_handles b)"
      "length enc = CMSG_SPACE C (4 * length (cb_handles b))" by blast
  show thesis
    by (rule that [of enc]) (use e False buf in \<open>simp_all add: control_for_def send_msg_def Let_def\<close>)
qed

section \<open>The layout on 64-bit Linux\<close>

definition align8 :: "nat \<Rightarrow> nat" where
  "align8 n = (n + 7) div 8 * 8"

definition linux_cmsg :: cmsg_abi where
  "linux_cmsg = \<lparr>
     CMSG_LEN = (\<lambda>n. 16 + n), CMSG_SPACE = (\<lambda>n. 16 + align8 n), cmsg_data_offset = 16,
     cmsghdr_bytes = (\<lambda>n l t. u64_le (of_nat n) @ u32_le (word_of_int l) @ u32_le (word_of_int t)),
     cmsghdr_read = (\<lambda>bs. (unat (le_u64 (take 8 bs)), sint (le_u32 (take 4 (drop 8 bs))),
        sint (le_u32 (take 4 (drop 12 bs))))),
     SOL_SOCKET = 1, SCM_RIGHTS = 1,
     fd_bytes = (\<lambda>h. u32_le (word_of_int h)), fd_read = (\<lambda>bs. sint (le_u32 bs)) \<rparr>"

lemma sint_c_int: "- (2 ^ 31) \<le> h \<Longrightarrow> h < 2 ^ 31 \<Longrightarrow> sint (word_of_int h :: u32) = h"
  by (simp add: sint_word_ariths signed_of_int signed_take_bit_int_eq_self)

lemma linux_cmsg_contract: "cmsg_abi_contract linux_cmsg"
proof -
  have "n \<le> align8 n" for n by (simp add: align8_def)
  then show ?thesis
    by (auto simp: cmsg_abi_contract_def linux_cmsg_def sint_c_int unat_of_nat)
qed

section \<open>Properties\<close>

text \<open>
  C24: a successful send on a clean pipe followed by the peer's receive moves exactly the accepted
  bytes and every handle of the buffer, in order and once (under the names \<open>hs'\<close> the kernel gives
  them in the receiver), empties the sender's handle queue and leaves both control buffers clean.
\<close>

theorem pipe_transfers_handles:
  assumes C: "cmsg_abi_contract C" and fds: "fds_ok (cb_handles b)" and fds': "fds_ok hs'"
    and same: "length hs' = length (cb_handles b)"
    and mem: "CMSG_SPACE C (4 * length (cb_handles b)) \<le> length mem"
    and mem': "CMSG_SPACE C (4 * length (cb_handles b)) \<le> length mem'"
    and buf: "cb_buf b \<noteq> []" and n: "n \<le> length (cb_buf b)"
    and clean: "cmsg p = []" "cmsg q = []"
    and room: "length (cb_handles r) + length hs' \<le> HANDLE_QUEUE_LIMIT"
    and kernel: "if hs' = [] then control' = [] else encode_handles C mem' [] hs' = Ok control'"
  shows "(\<exists>control. send_msg C mem (SysRet n) p b =
        (Ok n, p, \<lparr>cb_buf = drop n (cb_buf b), cb_handles = []\<rparr>, Some (cb_buf b, control)) \<and>
      decode_handles C control = Ok (cb_handles b)) \<and>
    recv_msg C (SysRet (take n (cb_buf b), control')) q r =
        (Ok n, q, \<lparr>cb_buf = cb_buf r @ take n (cb_buf b), cb_handles = cb_handles r @ hs'\<rparr>)"
proof
  have p: "p\<lparr>cmsg := []\<rparr> = p" "q\<lparr>cmsg := []\<rparr> = q" using clean by simp_all
  from send_control [OF C fds mem buf] obtain enc where
    ctl: "control_for C (cb_handles b) enc"
    and send: "send_msg C mem (SysRet n) p b =
        (Ok n, p\<lparr>cmsg := []\<rparr>, \<lparr>cb_buf = drop n (cb_buf b), cb_handles = []\<rparr>, Some (cb_buf b, cmsg p @ enc))"
    using n by metis
  then show "\<exists>control. send_msg C mem (SysRet n) p b =
        (Ok n, p, \<lparr>cb_buf = drop n (cb_buf b), cb_handles = []\<rparr>, Some (cb_buf b, control)) \<and>
      decode_handles C control = Ok (cb_handles b)"
    using control_for_decode [OF C ctl] clean p by auto
  have "decode_handles C control' = Ok hs'"
  proof (cases "hs' = []")
    case False
    have mem': "CMSG_SPACE C (4 * length hs') \<le> length mem'" using mem' same by simp
    from encode_decode_handles [OF C fds' mem'] obtain enc where
      "encode_handles C mem' [] hs' = Ok enc" "decode_handles C (enc @ []) = Ok hs'"
      by (metis append_Nil)
    with kernel False show ?thesis by simp
  qed (use kernel decode_no_handles [OF C] in simp)
  then show "recv_msg C (SysRet (take n (cb_buf b), control')) q r =
        (Ok n, q, \<lparr>cb_buf = cb_buf r @ take n (cb_buf b), cb_handles = cb_handles r @ hs'\<rparr>)"
    using clean p n room by (simp add: recv_msg_def Let_def push_handles_room)
qed

text \<open>A message with one handle, of which the kernel takes two bytes.\<close>

definition demo_buf :: conn_buf where
  "demo_buf = \<lparr>cb_buf = [1, 2, 3], cb_handles = [5]\<rparr>"

lemma linux_space: "CMSG_SPACE linux_cmsg 4 = 24"
  by (simp add: linux_cmsg_def align8_def)

theorem pipe_transfers_handles_witness:
  "\<exists>control'. (\<exists>control. send_msg linux_cmsg (replicate 80 0) (SysRet 2) pipe_new demo_buf =
        (Ok 2, pipe_new, \<lparr>cb_buf = [3], cb_handles = []\<rparr>, Some ([1, 2, 3], control)) \<and>
      decode_handles linux_cmsg control = Ok [5]) \<and>
    recv_msg linux_cmsg (SysRet ([1, 2], control')) pipe_new conn_buf_new =
        (Ok 2, pipe_new, \<lparr>cb_buf = [1, 2], cb_handles = [9]\<rparr>)"
proof -
  have ok: "fds_ok (cb_handles demo_buf)" "fds_ok [9]"
    by (simp_all add: fds_ok_def demo_buf_def HANDLE_QUEUE_LIMIT_def c_int_range_def)
  have sp: "CMSG_SPACE linux_cmsg (4 * length (cb_handles demo_buf)) \<le> length (replicate 80 (0::byte))"
    by (simp add: demo_buf_def linux_space)
  have "CMSG_SPACE linux_cmsg (4 * length [9::handle]) \<le> length (replicate 80 (0::byte))"
    by (simp add: linux_space)
  from encode_decode_handles [OF linux_cmsg_contract ok(2) this] obtain enc where
    "encode_handles linux_cmsg (replicate 80 0) [] [9] = Ok enc" by metis
  then have "(\<exists>control. send_msg linux_cmsg (replicate 80 0) (SysRet 2) pipe_new demo_buf =
        (Ok 2, pipe_new, \<lparr>cb_buf = drop 2 (cb_buf demo_buf), cb_handles = []\<rparr>, Some (cb_buf demo_buf, control)) \<and>
      decode_handles linux_cmsg control = Ok (cb_handles demo_buf)) \<and>
    recv_msg linux_cmsg (SysRet (take 2 (cb_buf demo_buf), enc)) pipe_new conn_buf_new =
        (Ok 2, pipe_new, \<lparr>cb_buf = cb_buf conn_buf_new @ take 2 (cb_buf demo_buf),
          cb_handles = cb_handles conn_buf_new @ [9]\<rparr>)"
    by (intro pipe_transfers_handles [OF linux_cmsg_contract ok _ sp sp])
      (simp_all add: demo_buf_def pipe_new_def conn_buf_new_def HANDLE_QUEUE_LIMIT_def)
  then show ?thesis
    by (intro exI [of _ enc]) (simp add: demo_buf_def conn_buf_new_def)
qed

text \<open>The sends of one buffer that the kernel refuses (\<open>EAGAIN\<close>), one after the other; each has the
  memory behind the control data at that time.\<close>

fun refused_sends :: "cmsg_abi \<Rightarrow> (byte list \<times> io_error) list \<Rightarrow> pipe \<Rightarrow> conn_buf \<Rightarrow> pipe \<times> conn_buf" where
  "refused_sends C [] p b = (p, b)"
| "refused_sends C ((mem, e) # as) p b =
     (case send_msg C mem (SysErr e) p b of (_, p', b', _) \<Rightarrow> refused_sends C as p' b')"

lemma refused_sends_append:
  assumes C: "cmsg_abi_contract C" and fds: "fds_ok (cb_handles b)" and hs: "cb_handles b \<noteq> []"
    and buf: "cb_buf b \<noteq> []"
    and mem: "list_all (\<lambda>(mem, _). CMSG_SPACE C (4 * length (cb_handles b)) \<le> length mem) as"
  shows "\<exists>encs. length encs = length as \<and> list_all (\<lambda>c. \<forall>rest. decode_handles C (c @ rest) = Ok (cb_handles b)) encs \<and>
      length (concat encs) = length as * CMSG_SPACE C (4 * length (cb_handles b)) \<and>
      refused_sends C as p b = (p\<lparr>cmsg := cmsg p @ concat encs\<rparr>, b)"
  using mem
proof (induction as arbitrary: p)
  case Nil
  then show ?case by (intro exI [of _ "[]"]) simp
next
  case (Cons a as)
  obtain mem e where a: "a = (mem, e)" by (cases a)
  with Cons.prems have "CMSG_SPACE C (4 * length (cb_handles b)) \<le> length mem" by simp
  from send_control [OF C fds this buf, of p] obtain enc where
    enc: "control_for C (cb_handles b) enc" "length enc = CMSG_SPACE C (4 * length (cb_handles b))"
      "\<And>e. send_msg C mem (SysErr e) p b = (Err e, p\<lparr>cmsg := cmsg p @ enc\<rparr>, b, Some (cb_buf b, cmsg p @ enc))"
    using hs by metis
  from Cons.IH [of "p\<lparr>cmsg := cmsg p @ enc\<rparr>"] Cons.prems obtain encs where
    "length encs = length as" "list_all (\<lambda>c. \<forall>rest. decode_handles C (c @ rest) = Ok (cb_handles b)) encs"
    "length (concat encs) = length as * CMSG_SPACE C (4 * length (cb_handles b))"
    "refused_sends C as (p\<lparr>cmsg := cmsg p @ enc\<rparr>) b = (p\<lparr>cmsg := cmsg p @ enc @ concat encs\<rparr>, b)" by auto
  then show ?case using enc a hs
    by (intro exI [of _ "enc # encs"]) (simp add: control_for_def)
qed



text \<open>
  \<open>cvt_r\<close> returns the outcome of the first call that is not interrupted, after exactly the
  interrupted ones before it; it keeps going only while every call is interrupted.
\<close>

theorem cvt_r_result:
  "(cvt_r ks = Some (r, k, rest) \<longleftrightarrow>
      (\<exists>pre. ks = pre @ k # rest \<and> list_all interrupted pre \<and> \<not> interrupted k \<and> r = cvt k)) \<and>
   (cvt_r ks = None \<longleftrightarrow> list_all interrupted ks)"
proof (induction ks)
  case Nil
  then show ?case by simp
next
  case (Cons k' ks)
  show ?case
  proof (cases "interrupted k'")
    case True
    have "(\<exists>pre. k' # ks = pre @ k # rest \<and> list_all interrupted pre \<and> \<not> interrupted k \<and> r = cvt k)
        \<longleftrightarrow> (\<exists>pre. ks = pre @ k # rest \<and> list_all interrupted pre \<and> \<not> interrupted k \<and> r = cvt k)"
      using True by (auto simp: Cons_eq_append_conv)
    with Cons.IH True show ?thesis by simp
  qed (auto simp: Cons_eq_append_conv)
qed

end
