(* ===== verification/Containers.thy ===== *)
theory Containers
  imports Prelude "HOL-Library.AList"
begin

text \<open>
  The two third-party containers of the program, as parameters: \<open>slab::Slab\<close> (the event loop's
  connections, the server's streams) and \<open>crossbeam_queue::ArrayQueue\<close> (the queue behind
  every RPC proxy and every event loop).  A parameter is a record of the operations the program
  calls; the contract says what their documentation promises, through an abstraction of the
  container's state (its lookup function, its list of queued items).  Each contract is shown
  satisfiable by a concrete instance, which the closed examples of the development use.

  Slab keys are unbounded naturals: a \<open>usize\<close> key is only compared and looked up.
\<close>

section \<open>slab::Slab\<close>

record ('s, 'v) slab =
  sl_new :: 's
  sl_vacant_key :: "'s \<Rightarrow> nat"
  sl_insert :: "'s \<Rightarrow> 'v \<Rightarrow> 's"
  sl_get :: "'s \<Rightarrow> nat \<Rightarrow> 'v option"
  sl_set :: "'s \<Rightarrow> nat \<Rightarrow> 'v \<Rightarrow> 's"
  sl_remove :: "'s \<Rightarrow> nat \<Rightarrow> 's"
  sl_keys :: "'s \<Rightarrow> nat list"

text \<open>
  \<open>sl_insert\<close> is \<open>vacant_entry().insert(v)\<close>, which stores \<open>v\<close> under \<open>vacant_entry().key()\<close>;
  \<open>sl_set\<close> writes through \<open>get_mut\<close> or an index; \<open>sl_keys\<close> is the order of iteration.
\<close>

definition slab_contract :: "('s, 'v) slab \<Rightarrow> bool" where
  "slab_contract S \<longleftrightarrow>
     sl_get S (sl_new S) = Map.empty \<and>
     (\<forall>s. sl_get S s (sl_vacant_key S s) = None) \<and>
     (\<forall>s v. sl_get S (sl_insert S s v) = (sl_get S s)(sl_vacant_key S s \<mapsto> v)) \<and>
     (\<forall>s k v. sl_get S s k \<noteq> None \<longrightarrow> sl_get S (sl_set S s k v) = (sl_get S s)(k \<mapsto> v)) \<and>
     (\<forall>s k. sl_get S (sl_remove S s k) = (sl_get S s)(k := None)) \<and>
     (\<forall>s. distinct (sl_keys S s) \<and> set (sl_keys S s) = dom (sl_get S s))"

named_theorems slab_laws

lemma slab_get_new [slab_laws]: "slab_contract S \<Longrightarrow> sl_get S (sl_new S) = Map.empty"
  by (simp add: slab_contract_def)

lemma slab_vacant [slab_laws]: "slab_contract S \<Longrightarrow> sl_get S s (sl_vacant_key S s) = None"
  by (simp add: slab_contract_def)

lemma slab_get_insert [slab_laws]:
  "slab_contract S \<Longrightarrow> sl_get S (sl_insert S s v) = (sl_get S s)(sl_vacant_key S s \<mapsto> v)"
  by (simp add: slab_contract_def)

lemma slab_get_set [slab_laws]:
  "slab_contract S \<Longrightarrow> sl_get S s k = Some w \<Longrightarrow> sl_get S (sl_set S s k v) = (sl_get S s)(k \<mapsto> v)"
  by (simp add: slab_contract_def)

lemma slab_get_remove [slab_laws]:
  "slab_contract S \<Longrightarrow> sl_get S (sl_remove S s k) = (sl_get S s)(k := None)"
  by (simp add: slab_contract_def)

lemma slab_keys [slab_laws]:
  "slab_contract S \<Longrightarrow> distinct (sl_keys S s) \<and> set (sl_keys S s) = dom (sl_get S s)"
  by (simp add: slab_contract_def)

text \<open>An instance: an association list whose next key is above every key in it.\<close>

definition list_slab :: "((nat \<times> 'v) list, 'v) slab" where
  "list_slab = \<lparr>
     sl_new = [],
     sl_vacant_key = (\<lambda>kvs. foldr (\<lambda>(k, _) m. max (Suc k) m) kvs 0),
     sl_insert = (\<lambda>kvs v. (foldr (\<lambda>(k, _) m. max (Suc k) m) kvs 0, v) # kvs),
     sl_get = map_of,
     sl_set = (\<lambda>kvs k v. AList.update k v kvs),
     sl_remove = (\<lambda>kvs k. AList.delete k kvs),
     sl_keys = (\<lambda>kvs. remdups (map fst kvs)) \<rparr>"

lemma foldr_max_above:
  "(k, v) \<in> set kvs \<Longrightarrow> k < foldr (\<lambda>(k, _) m. max (Suc k) m) kvs (0 :: nat)"
  by (induction kvs) (auto simp: less_max_iff_disj)

lemma list_slab_contract: "slab_contract list_slab"
proof -
  have fresh: "map_of kvs (foldr (\<lambda>(k, _) m. max (Suc k) m) kvs 0) = None" for kvs :: "(nat \<times> 'v) list"
    using foldr_max_above [of "foldr (\<lambda>(k, _) m. max (Suc k) m) kvs 0" _ kvs]
    by (fastforce simp: map_of_eq_None_iff)
  show ?thesis
    unfolding slab_contract_def list_slab_def
    by (auto simp: fresh update_conv' delete_conv' dom_map_of_conv_image_fst)
qed

section \<open>crossbeam_queue::ArrayQueue\<close>

text \<open>
  \<open>aq_push\<close> is \<open>push\<close> (\<open>None\<close> is the \<open>Err\<close> of a full queue), \<open>aq_pop\<close> is \<open>pop\<close>;
  \<open>aq_items\<close> and \<open>aq_capacity\<close> are what the contract reads of a queue.  Each operation is one
  linearizable step, so a use from several threads is a sequence of these steps.
\<close>

record ('q, 't) array_queue =
  aq_new :: "nat \<Rightarrow> 'q"
  aq_push :: "'q \<Rightarrow> 't \<Rightarrow> 'q option"
  aq_pop :: "'q \<Rightarrow> ('t \<times> 'q) option"
  aq_items :: "'q \<Rightarrow> 't list"
  aq_capacity :: "'q \<Rightarrow> nat"

definition array_queue_contract :: "('q, 't) array_queue \<Rightarrow> bool" where
  "array_queue_contract Q \<longleftrightarrow>
     (\<forall>n. aq_items Q (aq_new Q n) = [] \<and> aq_capacity Q (aq_new Q n) = n) \<and>
     (\<forall>q x. if length (aq_items Q q) < aq_capacity Q q
            then \<exists>q'. aq_push Q q x = Some q' \<and> aq_items Q q' = aq_items Q q @ [x] \<and>
                      aq_capacity Q q' = aq_capacity Q q
            else aq_push Q q x = None) \<and>
     (\<forall>q. case aq_items Q q of
             [] \<Rightarrow> aq_pop Q q = None
           | x # xs \<Rightarrow> \<exists>q'. aq_pop Q q = Some (x, q') \<and> aq_items Q q' = xs \<and>
                            aq_capacity Q q' = aq_capacity Q q)"

named_theorems queue_laws

lemma aq_new_items [queue_laws]:
  "array_queue_contract Q \<Longrightarrow> aq_items Q (aq_new Q n) = [] \<and> aq_capacity Q (aq_new Q n) = n"
  by (simp add: array_queue_contract_def)

lemma aq_push_room:
  assumes "array_queue_contract Q" and "length (aq_items Q q) < aq_capacity Q q"
  obtains q' where "aq_push Q q x = Some q'" and "aq_items Q q' = aq_items Q q @ [x]"
    and "aq_capacity Q q' = aq_capacity Q q"
  using assms unfolding array_queue_contract_def by metis

lemma aq_push_full [queue_laws]:
  "array_queue_contract Q \<Longrightarrow> \<not> length (aq_items Q q) < aq_capacity Q q \<Longrightarrow> aq_push Q q x = None"
  by (simp add: array_queue_contract_def)

lemma aq_push_SomeD:
  assumes "array_queue_contract Q" and "aq_push Q q x = Some q'"
  shows "length (aq_items Q q) < aq_capacity Q q" and "aq_items Q q' = aq_items Q q @ [x]"
    and "aq_capacity Q q' = aq_capacity Q q"
proof -
  from assms show room: "length (aq_items Q q) < aq_capacity Q q"
    using aq_push_full [OF assms(1), of q x] by (cases "length (aq_items Q q) < aq_capacity Q q") auto
  from assms(1) room obtain q2 where "aq_push Q q x = Some q2"
    and "aq_items Q q2 = aq_items Q q @ [x]" and "aq_capacity Q q2 = aq_capacity Q q"
    by (rule aq_push_room)
  with assms(2) show "aq_items Q q' = aq_items Q q @ [x]" and "aq_capacity Q q' = aq_capacity Q q"
    by auto
qed

lemma aq_pop_law:
  "array_queue_contract Q \<Longrightarrow> case aq_items Q q of
       [] \<Rightarrow> aq_pop Q q = None
     | x # xs \<Rightarrow> \<exists>q'. aq_pop Q q = Some (x, q') \<and> aq_items Q q' = xs \<and>
                      aq_capacity Q q' = aq_capacity Q q"
  by (simp add: array_queue_contract_def)

lemma aq_pop_empty [queue_laws]:
  "array_queue_contract Q \<Longrightarrow> aq_items Q q = [] \<Longrightarrow> aq_pop Q q = None"
  using aq_pop_law [of Q q] by simp

lemma aq_pop_cons:
  assumes "array_queue_contract Q" and "aq_items Q q = x # xs"
  obtains q' where "aq_pop Q q = Some (x, q')" and "aq_items Q q' = xs"
    and "aq_capacity Q q' = aq_capacity Q q"
  using aq_pop_law [OF assms(1), of q] assms(2) that by auto

lemma aq_pop_SomeD:
  assumes "array_queue_contract Q" and "aq_pop Q q = Some (x, q')"
  shows "aq_items Q q = x # aq_items Q q'" and "aq_capacity Q q' = aq_capacity Q q"
proof -
  show "aq_items Q q = x # aq_items Q q'"
  proof (cases "aq_items Q q")
    case Nil
    with aq_pop_empty [OF assms(1)] assms(2) show ?thesis by simp
  next
    case (Cons y ys)
    with aq_pop_cons [OF assms(1) Cons] assms(2) show ?thesis by (metis option.inject prod.inject)
  qed
  then show "aq_capacity Q q' = aq_capacity Q q"
    using aq_pop_cons [OF assms(1)] assms(2) by (metis option.inject prod.inject)
qed

lemma aq_pop_None_iff:
  assumes "array_queue_contract Q"
  shows "aq_pop Q q = None \<longleftrightarrow> aq_items Q q = []"
proof (cases "aq_items Q q")
  case Nil
  with aq_pop_empty [OF assms] show ?thesis by simp
next
  case (Cons y ys)
  with aq_pop_cons [OF assms Cons] show ?thesis by (metis list.distinct(1) option.distinct(1))
qed

text \<open>An instance: a capacity and a list.\<close>

definition list_queue :: "(nat \<times> 't list, 't) array_queue" where
  "list_queue = \<lparr>
     aq_new = (\<lambda>n. (n, [])),
     aq_push = (\<lambda>(n, xs) x. if length xs < n then Some (n, xs @ [x]) else None),
     aq_pop = (\<lambda>(n, xs). case xs of [] \<Rightarrow> None | x # xs' \<Rightarrow> Some (x, (n, xs'))),
     aq_items = snd,
     aq_capacity = fst \<rparr>"

lemma list_queue_contract: "array_queue_contract list_queue"
  by (auto simp: array_queue_contract_def list_queue_def split: list.splits)

end
