(* ===== verification/Rpccore.thy ===== *)
theory Rpccore
  imports Containers
begin

text \<open>
  \<open>audioipc/src/rpccore.rs\<close>: completions (the slot a blocked caller waits on), the bounded request
  queue shared between proxies and a client handler, and the two \<open>Handler\<close>s that the framed driver
  runs at the ends of a connection.

  A \<open>CompletionWriter\<close> holds a pointer to its \<open>Completion\<close>: completions live in a store, and a
  writer is the address of one.  The \<open>Arc\<close> of a request queue is held by its handler alone and the
  \<open>Weak\<close>s by the proxies, so a queue is the container, whether the \<open>Arc\<close> is still there, and the
  number of \<open>Weak\<close>s.
\<close>

section \<open>Completion and CompletionWriter\<close>

record 'r completion =
  item :: "'r option"
  writer :: bool

type_synonym addr = nat
type_synonym 'r store = "addr \<Rightarrow> 'r completion"

definition completion_new :: "'r completion" where
  "completion_new = \<lparr>item = None, writer = False\<rparr>"

definition completion_writer :: "'r store \<Rightarrow> addr \<Rightarrow> ('e, addr) res \<times> 'r store" where
  "completion_writer st a =
     (if writer (st a) then (Panic, st) else (Ok a, st(a := (st a)\<lparr>writer := True\<rparr>)))"

text \<open>\<open>Drop for CompletionWriter\<close>: the writer is done, the waiting thread is woken.\<close>

definition writer_drop :: "'r store \<Rightarrow> addr \<Rightarrow> 'r store" where
  "writer_drop st a = st(a := (st a)\<lparr>writer := False\<rparr>)"

text \<open>\<open>CompletionWriter::set\<close> consumes the writer, so its drop follows.\<close>

definition writer_set :: "'r store \<Rightarrow> addr \<Rightarrow> 'r \<Rightarrow> ('e, unit) res \<times> 'r store" where
  "writer_set st a v =
     (if \<not> writer (st a) then (Panic, writer_drop st a)
      else (Ok (), writer_drop (st(a := (st a)\<lparr>item := Some v\<rparr>)) a))"

text \<open>
  \<open>Completion::wait\<close> parks while the writer is there (\<open>None\<close>: still waiting), then takes the item.
\<close>

definition completion_wait :: "'r store \<Rightarrow> addr \<Rightarrow> ('r option \<times> 'r store) option" where
  "completion_wait st a =
     (if writer (st a) then None else Some (item (st a), st(a := (st a)\<lparr>item := None\<rparr>)))"

text \<open>
  \<open>Drop for Completion\<close> parks as well while the writer is there: the memory a writer points to outlives it.
\<close>

definition completion_drop :: "'r store \<Rightarrow> addr \<Rightarrow> unit option" where
  "completion_drop st a = (if writer (st a) then None else Some ())"

lemma completion_wait_drop: "completion_wait st a = Some (x, st') \<Longrightarrow> completion_drop st' a = Some ()"
  by (auto simp: completion_wait_def completion_drop_def split: if_splits)

section \<open>RequestQueue and its senders\<close>

record 'q request_queue =
  queue :: 'q
  live :: bool
  weak :: nat

definition rq_new :: "('q, 't) array_queue \<Rightarrow> nat \<Rightarrow> 'q request_queue" where
  "rq_new Q n = \<lparr>queue = aq_new Q n, live = True, weak = 0\<rparr>"

definition rq_pop :: "('q, 't) array_queue \<Rightarrow> 'q request_queue \<Rightarrow> 't option \<times> 'q request_queue" where
  "rq_pop Q rq = (case aq_pop Q (queue rq) of
     None \<Rightarrow> (None, rq)
   | Some (x, q') \<Rightarrow> (Some x, rq\<lparr>queue := q'\<rparr>))"

definition new_sender :: "'q request_queue \<Rightarrow> 'q request_queue" where
  "new_sender rq = rq\<lparr>weak := weak rq + 1\<rparr>"

definition check_live_proxies :: "'q request_queue \<Rightarrow> (io_error, unit) res" where
  "check_live_proxies rq = (if weak rq = 0 then Err io_aborted else Ok ())"

definition sender_push ::
  "('q, 't) array_queue \<Rightarrow> 'q request_queue \<Rightarrow> 't \<Rightarrow> (io_error, unit) res \<times> 'q request_queue" where
  "sender_push Q rq request =
     (if live rq then
        (case aq_push Q (queue rq) request of
           None \<Rightarrow> (Err io_aborted, rq)
         | Some q' \<Rightarrow> (Ok (), rq\<lparr>queue := q'\<rparr>))
      else (Err (io_other ''proxy send error''), rq))"

text \<open>\<open>Weak::weak_count\<close> is 0 once the queue itself has been dropped.\<close>

definition live_proxies :: "'q request_queue \<Rightarrow> nat" where
  "live_proxies rq = (if live rq then weak rq else 0)"

definition sender_clone :: "'q request_queue \<Rightarrow> 'q request_queue" where
  "sender_clone rq = rq\<lparr>weak := weak rq + 1\<rparr>"

definition sender_drop :: "'q request_queue \<Rightarrow> 'q request_queue" where
  "sender_drop rq = rq\<lparr>weak := weak rq - 1\<rparr>"

section \<open>Handlers\<close>

text \<open>
  The state of a client end: the handler's own \<open>in_flight\<close> list, the request queue and the
  completions.  The last two are shared with the proxies.
\<close>

record ('q, 'r) client_end =
  in_flight :: "addr list"
  requests :: "'q request_queue"
  completions :: "'r store"

definition RPC_CLIENT_INITIAL_PROXIES :: nat where
  "RPC_CLIENT_INITIAL_PROXIES = 32"

text \<open>\<open>make_client\<close>: a handler and its first proxy.\<close>

definition make_client :: "('q, 'm \<times> addr) array_queue \<Rightarrow> 'r store \<Rightarrow> ('q, 'r) client_end" where
  "make_client Q st = \<lparr>in_flight = [],
     requests = new_sender (rq_new Q RPC_CLIENT_INITIAL_PROXIES), completions = st\<rparr>"

definition client_consume ::
  "'r \<Rightarrow> ('q, 'r) client_end \<Rightarrow> (io_error, unit) res \<times> ('q, 'r) client_end" where
  "client_consume response ch = (case in_flight ch of
     w # ws \<Rightarrow> (case writer_set (completions ch) w response of
        (r, st) \<Rightarrow> (r, ch\<lparr>in_flight := ws, completions := st\<rparr>))
   | [] \<Rightarrow> (Err (io_other ''request/response mismatch''), ch))"

definition client_produce ::
  "('q, 'm \<times> addr) array_queue \<Rightarrow> ('q, 'r) client_end \<Rightarrow>
   (io_error, 'm option) res \<times> ('q, 'r) client_end" where
  "client_produce Q ch = (case check_live_proxies (requests ch) of
     Err e \<Rightarrow> (Err e, ch)
   | Panic \<Rightarrow> (Panic, ch)
   | Ok _ \<Rightarrow> (case rq_pop Q (requests ch) of
        (Some (request, w), rq') \<Rightarrow>
          (Ok (Some request), ch\<lparr>requests := rq', in_flight := in_flight ch @ [w]\<rparr>)
      | (None, rq') \<Rightarrow> (Ok None, ch\<lparr>requests := rq'\<rparr>)))"

text \<open>
  Dropping the handler (its connection is removed): the writers of \<open>in_flight\<close> are dropped, and with
  the queue's \<open>Arc\<close> the requests still queued and their writers.
\<close>

definition client_handler_drop ::
  "('q, 'm \<times> addr) array_queue \<Rightarrow> ('q, 'r) client_end \<Rightarrow> ('q, 'r) client_end" where
  "client_handler_drop Q ch =
     (let queued = map snd (aq_items Q (queue (requests ch))) in
      ch\<lparr>in_flight := [],
         completions := fold (\<lambda>w st. writer_drop st w) (in_flight ch @ queued) (completions ch),
         requests := (requests ch)\<lparr>live := False, queue := aq_new Q 0\<rparr>\<rparr>)"

text \<open>
  \<open>Proxy::call\<close>, the part before it blocks: take a writer, push the request.  When the push fails the
  request and its writer are dropped, and the call returns the error.
\<close>

definition proxy_call_send ::
  "('q, 'm \<times> addr) array_queue \<Rightarrow> ('q, 'r) client_end \<Rightarrow> addr \<Rightarrow> 'm \<Rightarrow>
   (io_error, unit) res \<times> ('q, 'r) client_end" where
  "proxy_call_send Q ch a request =
     (case completion_writer ((completions ch)(a := completion_new)) a of
        (Ok w, st) \<Rightarrow> (case sender_push Q (requests ch) (request, w) of
            (Ok _, rq') \<Rightarrow> (Ok (), ch\<lparr>requests := rq', completions := st\<rparr>)
          | (Err e, rq') \<Rightarrow> (Err e, ch\<lparr>requests := rq', completions := writer_drop st w\<rparr>)
          | (Panic, rq') \<Rightarrow> (Panic, ch\<lparr>requests := rq', completions := st\<rparr>))
      | (Err e, st) \<Rightarrow> (Err e, ch\<lparr>completions := st\<rparr>)
      | (Panic, st) \<Rightarrow> (Panic, ch\<lparr>completions := st\<rparr>))"

text \<open>The rest of \<open>Proxy::call\<close>, once woken: \<open>None\<close> while the response is outstanding.\<close>

definition proxy_call_wait ::
  "('q, 'r) client_end \<Rightarrow> addr \<Rightarrow> ((io_error, 'r) res \<times> ('q, 'r) client_end) option" where
  "proxy_call_wait ch a = (case completion_wait (completions ch) a of
     None \<Rightarrow> None
   | Some (Some resp, st) \<Rightarrow> Some (Ok resp, ch\<lparr>completions := st\<rparr>)
   | Some (None, st) \<Rightarrow> Some (Err (io_other ''proxy recv error''), ch\<lparr>completions := st\<rparr>))"

text \<open>The server's end: the server's own state and the responses not yet sent.\<close>

record ('s, 'r) server_handler =
  server :: 's
  responses :: "'r list"

definition make_server :: "'s \<Rightarrow> ('s, 'r) server_handler" where
  "make_server s = \<lparr>server = s, responses = []\<rparr>"

text \<open>\<open>process\<close> is the server's \<open>Server::process\<close>, which may panic.\<close>

definition server_consume ::
  "('m \<Rightarrow> 's \<Rightarrow> (io_error, 'r) res \<times> 's) \<Rightarrow> 'm \<Rightarrow> ('s, 'r) server_handler \<Rightarrow>
   (io_error, unit) res \<times> ('s, 'r) server_handler" where
  "server_consume process message sh = (case process message (server sh) of
     (Ok response, s') \<Rightarrow> (Ok (), sh\<lparr>server := s', responses := responses sh @ [response]\<rparr>)
   | (Err e, s') \<Rightarrow> (Err e, sh\<lparr>server := s'\<rparr>)
   | (Panic, s') \<Rightarrow> (Panic, sh\<lparr>server := s'\<rparr>))"

definition server_produce ::
  "('s, 'r) server_handler \<Rightarrow> (io_error, 'r option) res \<times> ('s, 'r) server_handler" where
  "server_produce sh = (case responses sh of
     res # rest \<Rightarrow> (Ok (Some res), sh\<lparr>responses := rest\<rparr>)
   | [] \<Rightarrow> (Ok None, sh))"

section \<open>The trait Handler\<close>

text \<open>
  What the framed driver relies on of a handler: \<open>pending\<close> is what it will produce, in order, and
  \<open>hinv\<close> what consuming and producing keep.
\<close>

locale rpc_handler =
  fixes consume :: "'i \<Rightarrow> 'h \<Rightarrow> (io_error, unit) res \<times> 'h"
    and produce :: "'h \<Rightarrow> (io_error, 'o option) res \<times> 'h"
    and pending :: "'h \<Rightarrow> 'o list"
    and hinv :: "'h \<Rightarrow> bool"
  assumes produce_some: "hinv h \<Longrightarrow> produce h = (Ok (Some x), h') \<Longrightarrow> pending h = x # pending h' \<and> hinv h'"
    and produce_none: "hinv h \<Longrightarrow> produce h = (Ok None, h') \<Longrightarrow> pending h = [] \<and> pending h' = [] \<and> hinv h'"
    and produce_safe: "hinv h \<Longrightarrow> fst (produce h) \<noteq> Panic"
    and consume_inv: "hinv h \<Longrightarrow> consume y h = (Ok (), h') \<Longrightarrow> hinv h'"

text \<open>
  The invariant of a client end: the writers handed out are the ones of \<open>in_flight\<close> and of the queued
  requests, no two of them point to the same completion, and each of these completions still waits.
\<close>

definition queued :: "('q, 'm \<times> addr) array_queue \<Rightarrow> ('q, 'r) client_end \<Rightarrow> ('m \<times> addr) list" where
  "queued Q ch = aq_items Q (queue (requests ch))"

definition writers :: "('q, 'm \<times> addr) array_queue \<Rightarrow> ('q, 'r) client_end \<Rightarrow> addr list" where
  "writers Q ch = in_flight ch @ map snd (queued Q ch)"

definition waiting :: "'r store \<Rightarrow> addr \<Rightarrow> bool" where
  "waiting st a \<longleftrightarrow> writer (st a) \<and> item (st a) = None"

definition client_inv :: "('q, 'm \<times> addr) array_queue \<Rightarrow> ('q, 'r) client_end \<Rightarrow> bool" where
  "client_inv Q ch \<longleftrightarrow> array_queue_contract Q \<and> distinct (writers Q ch) \<and>
     (\<forall>a \<in> set (writers Q ch). waiting (completions ch) a)"

lemmas store_defs = writer_set_def writer_drop_def completion_writer_def completion_new_def
  waiting_def

lemma client_produce_cases:
  assumes "array_queue_contract Q"
  obtains (dead) "weak (requests ch) = 0" and "client_produce Q ch = (Err io_aborted, ch)"
    | (none) "queued Q ch = []" and "client_produce Q ch = (Ok None, ch)"
    | (some) m w rq' where "queued Q ch = (m, w) # aq_items Q (queue rq')"
        and "client_produce Q ch
           = (Ok (Some m), ch\<lparr>requests := rq', in_flight := in_flight ch @ [w]\<rparr>)"
        and "weak rq' = weak (requests ch)" and "live rq' = live (requests ch)"
        and "aq_capacity Q (queue rq') = aq_capacity Q (queue (requests ch))"
proof (cases "weak (requests ch) = 0")
  case True
  then show thesis by (auto intro: dead simp: client_produce_def check_live_proxies_def)
next
  case live: False
  show thesis
  proof (cases "aq_pop Q (queue (requests ch))")
    case None
    with live assms show thesis
      using aq_pop_None_iff [OF assms, of "queue (requests ch)"]
      by (intro none) (simp_all add: client_produce_def check_live_proxies_def rq_pop_def queued_def)
  next
    case (Some p)
    obtain m w q' where p: "p = ((m, w), q')" by (metis prod.exhaust)
    with aq_pop_SomeD [OF assms] Some
    have q': "aq_items Q (queue (requests ch)) = (m, w) # aq_items Q q'"
      "aq_capacity Q q' = aq_capacity Q (queue (requests ch))" by auto
    show thesis
      by (rule some [of m w "(requests ch)\<lparr>queue := q'\<rparr>"])
        (use Some p q' live in \<open>simp_all add: queued_def client_produce_def check_live_proxies_def
          rq_pop_def\<close>)
  qed
qed

lemma client_produce_inv:
  assumes "client_inv Q ch" and "client_produce Q ch = (Ok r, ch')"
  shows "client_inv Q ch'"
proof -
  from assms(1) have "array_queue_contract Q" by (simp add: client_inv_def)
  then show ?thesis
    by (cases rule: client_produce_cases [of Q ch])
      (use assms in \<open>auto simp: client_inv_def writers_def queued_def\<close>)
qed

lemma writer_set_waiting:
  "waiting st w \<Longrightarrow> writer_set st w v = (Ok (), st(w := \<lparr>item = Some v, writer = False\<rparr>))"
  by (cases "st w") (simp add: store_defs)

lemma client_consume_Cons:
  assumes inv: "client_inv Q ch" and w: "in_flight ch = w # ws"
  shows "client_consume r ch = (Ok (), ch\<lparr>in_flight := ws,
      completions := (completions ch)(w := \<lparr>item = Some r, writer = False\<rparr>)\<rparr>)"
proof -
  from inv w have "waiting (completions ch) w" by (auto simp: client_inv_def writers_def)
  with w show ?thesis by (simp add: client_consume_def writer_set_waiting)
qed

lemma client_consume_inv:
  assumes inv: "client_inv Q ch" and c: "client_consume r ch = (Ok (), ch')"
  shows "client_inv Q ch'"
proof (cases "in_flight ch")
  case (Cons w ws)
  from client_consume_Cons [OF inv Cons, of r] c
  have ch': "ch' = ch\<lparr>in_flight := ws,
      completions := (completions ch)(w := \<lparr>item = Some r, writer = False\<rparr>)\<rparr>" by simp
  then have ws: "writers Q ch = w # writers Q ch'" using Cons by (simp add: writers_def queued_def)
  then have "\<forall>a \<in> set (writers Q ch'). waiting (completions ch') a"
    using inv ch' by (auto simp: client_inv_def waiting_def)
  with inv ws show ?thesis by (simp add: client_inv_def)
qed (use c in \<open>simp add: client_consume_def\<close>)

lemma client_consume_safe: "client_inv Q ch \<Longrightarrow> fst (client_consume r ch) \<noteq> Panic"
  by (auto simp: client_consume_def client_inv_def writers_def store_defs split: list.splits)

interpretation ch: rpc_handler client_consume "client_produce Q" "\<lambda>ch. map fst (queued Q ch)"
  "client_inv Q" for Q
proof
  fix h x h' assume inv: "client_inv Q h" and p: "client_produce Q h = (Ok (Some x), h')"
  from inv have "array_queue_contract Q" by (simp add: client_inv_def)
  then show "map fst (queued Q h) = x # map fst (queued Q h') \<and> client_inv Q h'"
    by (cases rule: client_produce_cases [of Q h])
      (use inv p in \<open>auto simp: queued_def client_inv_def writers_def\<close>)
next
  fix h h' assume inv: "client_inv Q h" and p: "client_produce Q h = (Ok None, h')"
  from inv have "array_queue_contract Q" by (simp add: client_inv_def)
  then show "map fst (queued Q h) = [] \<and> map fst (queued Q h') = [] \<and> client_inv Q h'"
    by (cases rule: client_produce_cases [of Q h]) (use inv p in auto)
next
  fix h assume "client_inv Q h"
  then have "array_queue_contract Q" by (simp add: client_inv_def)
  then show "fst (client_produce Q h) \<noteq> Panic"
    by (cases rule: client_produce_cases [of Q h]) auto
qed (rule client_consume_inv)

interpretation sh: rpc_handler "server_consume process" server_produce responses "\<lambda>_. True"
  for process
  by unfold_locales (auto simp: server_produce_def split: list.splits)

section \<open>Calls\<close>

lemma call_send_Ok:
  assumes "array_queue_contract Q" and "proxy_call_send Q ch a m = (Ok (), ch')"
  shows "queued Q ch' = queued Q ch @ [(m, a)]" and "in_flight ch' = in_flight ch"
    and "completions ch' = (completions ch)(a := \<lparr>item = None, writer = True\<rparr>)"
    and "weak (requests ch') = weak (requests ch)" and "live (requests ch)"
proof -
  from assms(2) obtain q' where lv: "live (requests ch)"
    and q: "aq_push Q (queue (requests ch)) (m, a) = Some q'"
    and ch': "ch' = ch\<lparr>requests := (requests ch)\<lparr>queue := q'\<rparr>,
         completions := (completions ch)(a := \<lparr>item = None, writer = True\<rparr>)\<rparr>"
    by (auto simp: proxy_call_send_def sender_push_def store_defs split: if_splits option.splits)
  show "queued Q ch' = queued Q ch @ [(m, a)]"
    using aq_push_SomeD(2) [OF assms(1) q] ch' by (simp add: queued_def)
  show "in_flight ch' = in_flight ch" and "weak (requests ch') = weak (requests ch)"
    and "completions ch' = (completions ch)(a := \<lparr>item = None, writer = True\<rparr>)"
    using ch' by simp_all
  show "live (requests ch)" by (rule lv)
qed

lemma call_send_inv:
  assumes inv: "client_inv Q ch" and a: "a \<notin> set (writers Q ch)"
    and "proxy_call_send Q ch a m = (Ok (), ch')"
  shows "client_inv Q ch'"
proof -
  from inv have Q: "array_queue_contract Q" by (simp add: client_inv_def)
  note s = call_send_Ok [OF Q assms(3)]
  show ?thesis using inv a s by (auto simp: client_inv_def writers_def waiting_def)
qed

lemma call_send_Err:
  assumes "proxy_call_send Q ch a m = (Err e, ch')"
  shows "requests ch' = requests ch" and "in_flight ch' = in_flight ch"
    and "completions ch' = (completions ch)(a := completion_new)"
  using assms
  by (auto simp: proxy_call_send_def sender_push_def store_defs split: if_splits option.splits)

lemma fold_writer_drop:
  "fold (\<lambda>w st. writer_drop st w) ws st a =
     (if a \<in> set ws then (st a)\<lparr>writer := False\<rparr> else st a)"
  by (induction ws arbitrary: st) (auto simp: writer_drop_def)

end
