(* ===== verification/Driver.thy ===== *)
theory Driver
  imports Sys Rpccore
begin

text \<open>
  The framed driver of \<open>audioipc/src/ipccore.rs\<close>: it turns the inbound bytes and handles of a
  connection into messages for a \<open>Handler\<close>, and the messages the handler produces into outbound
  bytes and handles.  Its codec, its handler and the handle operations of its message types are the
  code's type parameters, so the two loops take their operations as arguments; what is proved of them
  is proved over the interfaces \<open>message_codec\<close>, \<open>handle_message\<close> and \<open>rpc_handler\<close>.
\<close>

section \<open>FramedDriver\<close>

record ('c, 'h) framed_driver =
  codec :: 'c
  handler :: 'h

definition framed_driver_new :: "'h \<Rightarrow> (lcodec, 'h) framed_driver" where
  "framed_driver_new h = \<lparr>codec = lcodec_default, handler = h\<rparr>"

text \<open>The handle of a received item: the next one of the connection, which has to be there.\<close>

definition attach_handle ::
  "'m handle_ops \<Rightarrow> 'm \<Rightarrow> conn_buf \<Rightarrow> (io_error, 'm) res \<times> conn_buf" where
  "attach_handle ops itm inbound =
     (if has_associated_handle ops itm then
        (case pop_handle inbound of
           (None, b) \<Rightarrow> (Panic, b)
         | (Some new, b) \<Rightarrow> (case set_local_handle ops itm new of
              (Ok _, itm') \<Rightarrow> (Ok itm', b)
            | (Err e, _) \<Rightarrow> (Err e, b)
            | (Panic, _) \<Rightarrow> (Panic, b)))
      else (Ok itm, inbound))"

text \<open>\<open>None\<close> would be a loop that never returns; \<open>process_inbound_returns\<close> excludes it.\<close>

partial_function (option) process_inbound ::
  "('c \<Rightarrow> byte list \<Rightarrow> (io_error, 'm option) res \<times> 'c \<times> byte list) \<Rightarrow> 'm handle_ops \<Rightarrow>
   ('m \<Rightarrow> 'h \<Rightarrow> (io_error, unit) res \<times> 'h) \<Rightarrow> ('c, 'h) framed_driver \<Rightarrow> conn_buf \<Rightarrow>
   ((io_error, bool) res \<times> ('c, 'h) framed_driver \<times> conn_buf) option" where
  "process_inbound dec ops consume d inbound =
     (case dec (codec d) (cb_buf inbound) of (r, c, buf) \<Rightarrow>
        (case r of
           Ok None \<Rightarrow> Some (Ok False, d\<lparr>codec := c\<rparr>, inbound\<lparr>cb_buf := buf\<rparr>)
         | Err e \<Rightarrow> Some (Err e, d\<lparr>codec := c\<rparr>, inbound\<lparr>cb_buf := buf\<rparr>)
         | Panic \<Rightarrow> Some (Panic, d\<lparr>codec := c\<rparr>, inbound\<lparr>cb_buf := buf\<rparr>)
         | Ok (Some itm) \<Rightarrow>
             (case attach_handle ops itm (inbound\<lparr>cb_buf := buf\<rparr>) of
                (Err e, b) \<Rightarrow> Some (Err e, d\<lparr>codec := c\<rparr>, b)
              | (Panic, b) \<Rightarrow> Some (Panic, d\<lparr>codec := c\<rparr>, b)
              | (Ok itm', b) \<Rightarrow>
                  (case consume itm' (handler d) of
                     (Ok _, h) \<Rightarrow> process_inbound dec ops consume (d\<lparr>codec := c, handler := h\<rparr>) b
                   | (Err e, h) \<Rightarrow> Some (Err e, d\<lparr>codec := c, handler := h\<rparr>, b)
                   | (Panic, h) \<Rightarrow> Some (Panic, d\<lparr>codec := c, handler := h\<rparr>, b)))))"

text \<open>The handle of an outgoing item is detached before the item is encoded.\<close>

definition detach_handle :: "'m handle_ops \<Rightarrow> 'm \<Rightarrow> (io_error, handle option) res \<times> 'm" where
  "detach_handle ops itm =
     (if has_associated_handle ops itm then
        (case take_handle ops itm of (r, itm') \<Rightarrow> (map_ok Some r, itm'))
      else (Ok None, itm))"

partial_function (option) flush_outbound ::
  "('c \<Rightarrow> 'm \<Rightarrow> byte list \<Rightarrow> (io_error, unit) res \<times> 'c \<times> byte list) \<Rightarrow> 'm handle_ops \<Rightarrow>
   ('h \<Rightarrow> (io_error, 'm option) res \<times> 'h) \<Rightarrow> ('c, 'h) framed_driver \<Rightarrow> conn_buf \<Rightarrow>
   ((io_error, unit) res \<times> ('c, 'h) framed_driver \<times> conn_buf) option" where
  "flush_outbound enc ops produce d outbound =
     (case produce (handler d) of (r, h) \<Rightarrow>
        (case r of
           Ok None \<Rightarrow> Some (Ok (), d\<lparr>handler := h\<rparr>, outbound)
         | Err e \<Rightarrow> Some (Err e, d\<lparr>handler := h\<rparr>, outbound)
         | Panic \<Rightarrow> Some (Panic, d\<lparr>handler := h\<rparr>, outbound)
         | Ok (Some itm) \<Rightarrow>
             (case detach_handle ops itm of
                (Err e, _) \<Rightarrow> Some (Err e, d\<lparr>handler := h\<rparr>, outbound)
              | (Panic, _) \<Rightarrow> Some (Panic, d\<lparr>handler := h\<rparr>, outbound)
              | (Ok handle, itm') \<Rightarrow>
                  (case enc (codec d) itm' (cb_buf outbound) of
                     (Err e, c, buf) \<Rightarrow> Some (Err e, d\<lparr>codec := c, handler := h\<rparr>, outbound\<lparr>cb_buf := buf\<rparr>)
                   | (Panic, c, buf) \<Rightarrow> Some (Panic, d\<lparr>codec := c, handler := h\<rparr>, outbound\<lparr>cb_buf := buf\<rparr>)
                   | (Ok _, c, buf) \<Rightarrow>
                       (case handle of
                          None \<Rightarrow> flush_outbound enc ops produce (d\<lparr>codec := c, handler := h\<rparr>)
                                    (outbound\<lparr>cb_buf := buf\<rparr>)
                        | Some ha \<Rightarrow>
                            (case push_handle (outbound\<lparr>cb_buf := buf\<rparr>) ha of
                               (Ok _, b) \<Rightarrow> flush_outbound enc ops produce (d\<lparr>codec := c, handler := h\<rparr>) b
                             | (Err e, b) \<Rightarrow> Some (Err e, d\<lparr>codec := c, handler := h\<rparr>, b)
                             | (Panic, b) \<Rightarrow> Some (Panic, d\<lparr>codec := c, handler := h\<rparr>, b)))))))"

section \<open>The inbound loop\<close>

text \<open>What the messages of a stream become with the handles that arrive beside them, and consuming
  them in order up to the first failure.\<close>

fun attach_all :: "'m handle_ops \<Rightarrow> 'm list \<Rightarrow> handle list \<Rightarrow> ('m list \<times> handle list) option" where
  "attach_all ops [] hs = Some ([], hs)"
| "attach_all ops (m # ms) hs =
     (case attach_handle ops m \<lparr>cb_buf = [], cb_handles = hs\<rparr> of
        (Ok m', b) \<Rightarrow> map_option (\<lambda>(ms', hs'). (m' # ms', hs')) (attach_all ops ms (cb_handles b))
      | _ \<Rightarrow> None)"

fun consume_all :: "('m \<Rightarrow> 'h \<Rightarrow> (io_error, unit) res \<times> 'h) \<Rightarrow> 'm list \<Rightarrow> 'h \<Rightarrow> (io_error, unit) res \<times> 'h" where
  "consume_all consume [] h = (Ok (), h)"
| "consume_all consume (m # ms) h = (case consume m h of
     (Ok _, h') \<Rightarrow> consume_all consume ms h' | (Err e, h') \<Rightarrow> (Err e, h') | (Panic, h') \<Rightarrow> (Panic, h'))"

lemma attach_handle_buf:
  "attach_handle ops m \<lparr>cb_buf = buf, cb_handles = hs\<rparr> =
     (case attach_handle ops m \<lparr>cb_buf = [], cb_handles = hs\<rparr> of (r, b) \<Rightarrow> (r, b\<lparr>cb_buf := buf\<rparr>))"
  by (auto simp: attach_handle_def pop_handle_def split: list.splits res.splits prod.splits)

lemma attach_all_append:
  "attach_all ops (ms @ ns) hs = (case attach_all ops ms hs of
     None \<Rightarrow> None
   | Some (ms', hs') \<Rightarrow> map_option (\<lambda>(ns', hs''). (ms' @ ns', hs'')) (attach_all ops ns hs'))"
  by (induction ms arbitrary: hs)
    (auto simp: option.map_comp comp_def option.map_ident split_beta cong: option.map_cong
      split: option.splits prod.splits res.splits)

lemma attach_handle_more:
  "attach_handle ops m \<lparr>cb_buf = [], cb_handles = hs\<rparr> = (Ok m', b) \<Longrightarrow>
   attach_handle ops m \<lparr>cb_buf = [], cb_handles = hs @ xs\<rparr> = (Ok m', b\<lparr>cb_handles := cb_handles b @ xs\<rparr>)"
  by (auto simp: attach_handle_def pop_handle_def split: list.splits res.splits prod.splits if_splits)

lemma attach_all_more:
  "attach_all ops ms hs = Some (ms', hs') \<Longrightarrow> attach_all ops ms (hs @ xs) = Some (ms', hs' @ xs)"
proof (induction ms arbitrary: hs ms')
  case (Cons m ms)
  then obtain m' b ns where a: "attach_handle ops m \<lparr>cb_buf = [], cb_handles = hs\<rparr> = (Ok m', b)"
    and r: "attach_all ops ms (cb_handles b) = Some (ns, hs')" and "ms' = m' # ns"
    by (auto split: prod.splits res.splits)
  with Cons.IH [OF r] attach_handle_more [OF a, of xs] show ?case by simp
qed simp

lemma consume_all_append:
  "consume_all consume (ms @ ns) h = (case consume_all consume ms h of
     (Ok _, h') \<Rightarrow> consume_all consume ns h' | (Err e, h') \<Rightarrow> (Err e, h') | (Panic, h') \<Rightarrow> (Panic, h'))"
  by (induction ms arbitrary: h) (auto split: prod.splits res.splits)

context message_codec
begin

text \<open>
  Every decoded message makes the rest of the stream shorter, so the loop ends; a success leaves
  nothing to decode.
\<close>

lemma process_inbound_drained:
  "\<exists>r d' b'. process_inbound dec ops consume d b = Some (r, d', b') \<and>
     (case r of Ok done \<Rightarrow> done = False \<and> fst (dec (codec d') (cb_buf b')) = Ok None
      | Err e \<Rightarrow> True | Panic \<Rightarrow> True)"
proof (induction "length (view (codec d) (cb_buf b))" arbitrary: d b rule: less_induct)
  case less
  obtain r c buf where dec: "dec (codec d) (cb_buf b) = (r, c, buf)" by (metis prod.exhaust)
  show ?case
  proof (cases "\<exists>itm. r = Ok (Some itm)")
    case True
    then obtain itm where r: "r = Ok (Some itm)" by blast
    obtain ra b' where a: "attach_handle ops itm (b\<lparr>cb_buf := buf\<rparr>) = (ra, b')" by (metis prod.exhaust)
    have b': "cb_buf b' = buf"
      using a by (auto simp: attach_handle_def pop_handle_def split: list.splits if_splits res.splits prod.splits)
    from progress dec r b' have "length (view c (cb_buf b')) < length (view (codec d) (cb_buf b))" by simp
    note ih = less [of "d\<lparr>codec := c, handler := h\<rparr>" b' for h, simplified, OF this]
    show ?thesis
    proof (cases ra)
      case (Ok itm')
      obtain rc h where "consume itm' (handler d) = (rc, h)" by (metis prod.exhaust)
      with Ok show ?thesis using ih
        by (subst process_inbound.simps) (simp add: dec r a split: res.split)
    qed (subst process_inbound.simps, simp add: dec r a)+
  next
    case False
    with dec again [of "codec d" "cb_buf b" c buf] show ?thesis
      by (subst process_inbound.simps, cases r) auto
  qed
qed

text \<open>Bytes that are not yet a whole frame.\<close>

definition incomplete :: "byte list \<Rightarrow> bool" where
  "incomplete tail \<longleftrightarrow> tail = [] \<or> (\<exists>m suf. wire m (tail @ suf) \<and> suf \<noteq> [])"

text \<open>
  A buffer that holds some whole frames and the beginning of another: their messages, with their
  handles, are consumed in order, and what is left is the beginning.
\<close>

lemma process_inbound_frames:
  assumes "list_all2 wire ms frs" and "cinv (codec d)" and "incomplete tail"
    and "view (codec d) (cb_buf b) = concat frs @ tail"
    and "attach_all ops ms (cb_handles b) = Some (ms', hs')"
    and "consume_all consume ms' (handler d) = (Ok (), h')"
  shows "\<exists>c' buf'. process_inbound dec ops consume d b =
      Some (Ok False, \<lparr>codec = c', handler = h'\<rparr>, \<lparr>cb_buf = buf', cb_handles = hs'\<rparr>) \<and>
      cinv c' \<and> view c' buf' = tail"
  using assms
proof (induction ms frs arbitrary: d b ms' rule: list_all2_induct)
  case Nil
  then have v: "view (codec d) (cb_buf b) = tail" and e: "hs' = cb_handles b" "h' = handler d" by simp_all
  have "\<exists>c' buf'. dec (codec d) (cb_buf b) = (Ok None, c', buf') \<and> cinv c' \<and> view c' buf' = tail"
  proof (cases "tail = []")
    case True
    with v idle Nil.prems(1) show ?thesis by metis
  next
    case False
    then obtain m suf where "wire m (tail @ suf)" "suf \<noteq> []" using Nil.prems by (auto simp: incomplete_def)
    with part [OF Nil.prems(1)] v show ?thesis by metis
  qed
  then obtain c' buf' where "dec (codec d) (cb_buf b) = (Ok None, c', buf')" "cinv c'" "view c' buf' = tail"
    by blast
  then show ?case
    by (subst process_inbound.simps) (cases d; cases b; simp add: e)
next
  case (Cons m ms fr frs)
  from Cons.prems Cons.hyps obtain c buf where
    dec: "dec (codec d) (cb_buf b) = (Ok (Some m), c, buf)" and c: "cinv c" "view c buf = concat frs @ tail"
    using whole [of "codec d" m fr "cb_buf b" "concat frs @ tail"] by auto
  from Cons.prems(4) obtain m' b1 ns where
    a: "attach_handle ops m \<lparr>cb_buf = [], cb_handles = cb_handles b\<rparr> = (Ok m', b1)"
    and r: "attach_all ops ms (cb_handles b1) = Some (ns, hs')" and ms': "ms' = m' # ns"
    by (auto split: prod.splits res.splits)
  have a': "attach_handle ops m (b\<lparr>cb_buf := buf\<rparr>) = (Ok m', b1\<lparr>cb_buf := buf\<rparr>)"
    using attach_handle_buf [of ops m buf "cb_handles b"] a by (cases b) simp
  from Cons.prems(5) ms' obtain h where h: "consume m' (handler d) = (Ok (), h)"
    and rest: "consume_all consume ns h = (Ok (), h')"
    by (auto split: prod.splits res.splits)
  from Cons.IH [of "d\<lparr>codec := c, handler := h\<rparr>" "b1\<lparr>cb_buf := buf\<rparr>" ns] c r rest Cons.prems(2)
  obtain c' buf' where
    "process_inbound dec ops consume (d\<lparr>codec := c, handler := h\<rparr>) (b1\<lparr>cb_buf := buf\<rparr>) =
      Some (Ok False, \<lparr>codec = c', handler = h'\<rparr>, \<lparr>cb_buf = buf', cb_handles = hs'\<rparr>)"
    "cinv c'" "view c' buf' = tail" by auto
  then show ?case
    by (subst process_inbound.simps) (simp add: dec a' h)
qed

text \<open>
  The same stream, received in pieces cut anywhere: \<open>receive_chunks\<close> appends each piece (bytes, and
  the handles that came with them) and processes the buffer.
\<close>

lemma incomplete_prefix: "incomplete (xs @ ys) \<Longrightarrow> incomplete xs"
proof -
  assume "incomplete (xs @ ys)"
  then consider "xs @ ys = []" | m suf where "wire m (xs @ ys @ suf)" "suf \<noteq> []"
    by (auto simp: incomplete_def)
  then show ?thesis by cases (auto simp: incomplete_def intro: exI [of _ "ys @ _"])
qed

lemma split_frames:
  assumes "list_all2 wire ms frs" and "incomplete tail" and "xs @ ys = concat frs @ tail"
  shows "\<exists>ms1 ms2 frs1 frs2 tail1. ms = ms1 @ ms2 \<and> frs = frs1 @ frs2 \<and> list_all2 wire ms1 frs1 \<and>
    list_all2 wire ms2 frs2 \<and> xs = concat frs1 @ tail1 \<and> incomplete tail1 \<and> tail1 @ ys = concat frs2 @ tail"
  using assms
proof (induction ms frs arbitrary: xs rule: list_all2_induct)
  case Nil
  then show ?case using incomplete_prefix [of xs ys] by auto
next
  case (Cons m ms fr frs)
  show ?case
  proof (cases "length fr \<le> length xs")
    case True
    with Cons.prems obtain zs where xs: "xs = fr @ zs" and "zs @ ys = concat frs @ tail"
      using append_prefixE [of xs ys fr "concat frs @ tail"] by auto
    with Cons.IH [OF Cons.prems(1), of zs] obtain ms1 ms2 frs1 frs2 tail1 where
      "ms = ms1 @ ms2" "frs = frs1 @ frs2" "list_all2 wire ms1 frs1" "list_all2 wire ms2 frs2"
      "zs = concat frs1 @ tail1" "incomplete tail1" "tail1 @ ys = concat frs2 @ tail" by blast
    with xs Cons.hyps(1) show ?thesis
      by (intro exI [of _ "m # ms1"] exI [of _ ms2] exI [of _ "fr # frs1"] exI [of _ frs2] exI [of _ tail1])
        simp
  next
    case False
    then obtain suf where "fr = xs @ suf" "suf \<noteq> []"
      using Cons.prems(2) append_eq_append_conv_if [of xs ys fr "concat frs @ tail"]
      by (metis append_Nil2 append_take_drop_id append_assoc concat.simps(2) nat_le_linear take_all_iff)
    with Cons.hyps(1) have "incomplete xs" by (auto simp: incomplete_def)
    with Cons show ?thesis
      by (intro exI [of _ "[]"] exI [of _ "m # ms"] exI [of _ "[]"] exI [of _ "fr # frs"] exI [of _ xs])
        simp
  qed
qed

end

fun receive_chunks ::
  "('c \<Rightarrow> byte list \<Rightarrow> (io_error, 'm option) res \<times> 'c \<times> byte list) \<Rightarrow> 'm handle_ops \<Rightarrow>
   ('m \<Rightarrow> 'h \<Rightarrow> (io_error, unit) res \<times> 'h) \<Rightarrow> (byte list \<times> handle list) list \<Rightarrow>
   ('c, 'h) framed_driver \<Rightarrow> conn_buf \<Rightarrow>
   ((io_error, bool) res \<times> ('c, 'h) framed_driver \<times> conn_buf) option" where
  "receive_chunks dec ops consume [] d b = Some (Ok False, d, b)"
| "receive_chunks dec ops consume ((bs, hs) # cs) d b =
     (case process_inbound dec ops consume d \<lparr>cb_buf = cb_buf b @ bs, cb_handles = cb_handles b @ hs\<rparr> of
        Some (Ok False, d', b') \<Rightarrow> receive_chunks dec ops consume cs d' b'
      | r \<Rightarrow> r)"

context message_codec
begin

lemma receive_chunks_frames:
  assumes "list_all2 wire ms frs" and "cinv (codec d)" and "incomplete tail" and "cs \<noteq> []"
    and "view (codec d) (cb_buf b) @ concat (map fst cs) = concat frs @ tail"
    and "attach_all ops ms (cb_handles b) = Some (ms', hs')"
    and "consume_all consume ms' (handler d) = (Ok (), h')"
  shows "\<exists>c' buf'. receive_chunks dec ops consume cs d b =
      Some (Ok False, \<lparr>codec = c', handler = h'\<rparr>,
        \<lparr>cb_buf = buf', cb_handles = hs' @ concat (map snd cs)\<rparr>) \<and>
      cinv c' \<and> view c' buf' = tail"
  using assms
proof (induction cs arbitrary: d b ms frs ms' hs')
  case (Cons c cs)
  obtain bs hs where c: "c = (bs, hs)" by (cases c)
  let ?b = "\<lparr>cb_buf = cb_buf b @ bs, cb_handles = cb_handles b @ hs\<rparr>"
  have v: "view (codec d) (cb_buf ?b) = view (codec d) (cb_buf b) @ bs" by (simp add: feed)
  from attach_all_more [OF Cons.prems(6), of hs]
  have a: "attach_all ops ms (cb_handles ?b) = Some (ms', hs' @ hs)" by simp
  show ?case
  proof (cases "cs = []")
    case True
    with Cons.prems c process_inbound_frames [OF Cons.prems(1-3), of ?b, OF _ a Cons.prems(7)] v
    show ?thesis by auto
  next
    case False
    from split_frames [OF Cons.prems(1,3), of "view (codec d) (cb_buf ?b)" "concat (map fst cs)"]
      Cons.prems(5) v c
    obtain ms1 ms2 frs1 frs2 tail1 where
      m: "ms = ms1 @ ms2" "list_all2 wire ms1 frs1" "list_all2 wire ms2 frs2"
      and t: "view (codec d) (cb_buf ?b) = concat frs1 @ tail1" "incomplete tail1"
        "tail1 @ concat (map fst cs) = concat frs2 @ tail" by auto
    from a m(1) obtain ns1 hs1 ns2 where a1: "attach_all ops ms1 (cb_handles ?b) = Some (ns1, hs1)"
      and a2: "attach_all ops ms2 hs1 = Some (ns2, hs' @ hs)" and ms': "ms' = ns1 @ ns2"
      by (auto simp: attach_all_append split: option.splits)
    from Cons.prems(7) ms' obtain h1 where h1: "consume_all consume ns1 (handler d) = (Ok (), h1)"
      and h2: "consume_all consume ns2 h1 = (Ok (), h')"
      by (auto simp: consume_all_append split: prod.splits res.splits)
    from process_inbound_frames [OF m(2) Cons.prems(2) t(2,1) a1 h1] obtain c' buf' where
      p: "process_inbound dec ops consume d ?b
        = Some (Ok False, \<lparr>codec = c', handler = h1\<rparr>, \<lparr>cb_buf = buf', cb_handles = hs1\<rparr>)"
      and c': "cinv c'" "view c' buf' = tail1" by blast
    from Cons.IH [OF m(3) _ Cons.prems(3) False, of "\<lparr>codec = c', handler = h1\<rparr>"
        "\<lparr>cb_buf = buf', cb_handles = hs1\<rparr>" ns2 "hs' @ hs"] c' t(3) a2 h2 c
    obtain c'' buf'' where
      "receive_chunks dec ops consume cs \<lparr>codec = c', handler = h1\<rparr> \<lparr>cb_buf = buf', cb_handles = hs1\<rparr>
        = Some (Ok False, \<lparr>codec = c'', handler = h'\<rparr>,
            \<lparr>cb_buf = buf'', cb_handles = hs' @ concat (map snd (c # cs))\<rparr>)"
      "cinv c''" "view c'' buf'' = tail"
      by auto
    with p c show ?thesis by simp
  qed
qed simp

end

section \<open>The outbound loop\<close>

text \<open>
  What a message looks like on the wire, the handles that go beside a list of messages, and the
  messages the receiver builds from them.
\<close>

definition on_wire :: "'m handle_ops \<Rightarrow> ('m \<Rightarrow> 'm) \<Rightarrow> 'm \<Rightarrow> 'm" where
  "on_wire ops seen m = seen (if has_associated_handle ops m then snd (take_handle ops m) else m)"

definition handle_of_msg :: "'m handle_ops \<Rightarrow> 'm \<Rightarrow> handle list" where
  "handle_of_msg ops m =
     (if has_associated_handle ops m then (case take_handle ops m of (Ok h, _) \<Rightarrow> [h] | _ \<Rightarrow> []) else [])"

definition handles_of :: "'m handle_ops \<Rightarrow> 'm list \<Rightarrow> handle list" where
  "handles_of ops ms = concat (map (handle_of_msg ops) ms)"

fun received_all :: "'m handle_ops \<Rightarrow> ('m \<Rightarrow> handle \<Rightarrow> 'm) \<Rightarrow> 'm list \<Rightarrow> handle list \<Rightarrow> 'm list" where
  "received_all ops received [] hs = []"
| "received_all ops received (m # ms) hs =
     (if has_associated_handle ops m then received m (hd hs) # received_all ops received ms (tl hs)
      else m # received_all ops received ms hs)"

lemma handles_of_simps [simp]:
  "handles_of ops [] = []" "handles_of ops (m # ms) = handle_of_msg ops m @ handles_of ops ms"
  by (simp_all add: handles_of_def)

context rpc_handler
begin

text \<open>The handler has only so many messages to produce, so the loop ends, whatever the codec does.\<close>

lemma flush_outbound_total:
  assumes "hinv (handler d)"
  shows "\<exists>r. flush_outbound enc ops produce d b = Some r"
  using assms
proof (induction "pending (handler d)" arbitrary: d b)
  case Nil
  obtain r h where p: "produce (handler d) = (r, h)" by (cases "produce (handler d)")
  have "\<And>x. r \<noteq> Ok (Some x)" using produce_some [OF Nil.prems] p Nil.hyps by fastforce
  then show ?case by (subst flush_outbound.simps) (auto simp: p split: res.split option.split)
next
  case (Cons x xs)
  obtain r h where p: "produce (handler d) = (r, h)" by (cases "produce (handler d)")
  show ?case
  proof (cases "\<exists>y. r = Ok (Some y)")
    case True
    then obtain y where "r = Ok (Some y)" by blast
    with produce_some [OF Cons.prems] p Cons.hyps(2) have "xs = pending h" "hinv h" by fastforce+
    then have "\<exists>r. flush_outbound enc ops produce (d\<lparr>codec := c, handler := h\<rparr>) b = Some r" for c b
      using Cons.hyps(1) [of "d\<lparr>codec := c, handler := h\<rparr>" b] by simp
    with \<open>r = Ok (Some y)\<close> show ?thesis
      by (subst flush_outbound.simps) (auto simp: p split: res.split option.split prod.split)
  qed (subst flush_outbound.simps, auto simp: p split: res.split option.split)
qed

end

text \<open>One direction of a connection: a handler that produces and the peer's codec.\<close>

locale framed_link =
  message_codec dec view cinv wire + handle_message ops sendable seen received serializable +
  rpc_handler consume produce pending hinv
  for dec :: "'c \<Rightarrow> byte list \<Rightarrow> (io_error, 'm option) res \<times> 'c \<times> byte list"
    and view :: "'c \<Rightarrow> byte list \<Rightarrow> byte list" and cinv :: "'c \<Rightarrow> bool"
    and wire :: "'m \<Rightarrow> byte list \<Rightarrow> bool"
    and ops :: "'m handle_ops" and sendable :: "'m \<Rightarrow> bool" and seen :: "'m \<Rightarrow> 'm"
    and received :: "'m \<Rightarrow> handle \<Rightarrow> 'm" and serializable :: "'m \<Rightarrow> bool"
    and consume :: "'i \<Rightarrow> 'h \<Rightarrow> (io_error, unit) res \<times> 'h"
    and produce :: "'h \<Rightarrow> (io_error, 'm option) res \<times> 'h"
    and pending :: "'h \<Rightarrow> 'm list" and hinv :: "'h \<Rightarrow> bool" +
  fixes enc :: "'e \<Rightarrow> 'm \<Rightarrow> byte list \<Rightarrow> (io_error, unit) res \<times> 'e \<times> byte list"
  assumes enc_wire: "enc e m buf = (Ok (), e', buf') \<Longrightarrow> \<exists>fr. buf' = buf @ fr \<and> wire (seen m) fr"
    and enc_safe: "serializable m \<Longrightarrow> fst (enc e m buf) \<noteq> Panic"
begin

lemma detach_ok:
  assumes "sendable m"
  shows "\<exists>m'. detach_handle ops m = (Ok (case handle_of_msg ops m of [] \<Rightarrow> None | h # _ \<Rightarrow> Some h), m') \<and>
    serializable m' \<and> seen m' = on_wire ops seen m \<and> length (handle_of_msg ops m) \<le> 1"
proof (cases "has_associated_handle ops m")
  case True
  from take_owned [OF assms this] obtain h m' where "take_handle ops m = (Ok h, m')" "serializable m'"
    by blast
  with True show ?thesis by (simp add: detach_handle_def handle_of_msg_def on_wire_def)
next
  case False
  with plain [OF assms False] show ?thesis
    by (simp add: detach_handle_def handle_of_msg_def on_wire_def)
qed

text \<open>The receiver attaches exactly the handles that were detached, renamed by the kernel.\<close>

lemma attach_on_wire:
  assumes "list_all sendable ms" and "length hs = length (handles_of ops ms)" and "list_all valid_handle hs"
  shows "attach_all ops (map (on_wire ops seen) ms) hs = Some (received_all ops received ms hs, [])"
  using assms
proof (induction ms arbitrary: hs)
  case (Cons m ms)
  show ?case
  proof (cases "has_associated_handle ops m")
    case True
    from take_owned [OF _ this] Cons.prems obtain h m' where t: "take_handle ops m = (Ok h, m')" by auto
    with True Cons.prems obtain h' hs' where hs: "hs = h' # hs'" by (cases hs) (auto simp: handle_of_msg_def)
    from take_set [OF _ True t, of h'] Cons.prems hs
    have "has_associated_handle ops (on_wire ops seen m)"
      "set_local_handle ops (on_wire ops seen m) h' = (Ok (), received m h')"
      using True t by (auto simp: on_wire_def)
    with True Cons.IH [of hs'] Cons.prems hs t show ?thesis
      by (simp add: attach_handle_def pop_handle_def handle_of_msg_def)
  next
    case False
    with plain [OF _ False] Cons.prems have "on_wire ops seen m = m" by (simp add: on_wire_def)
    with False Cons show ?thesis by (simp add: attach_handle_def handle_of_msg_def)
  qed
qed simp

text \<open>
  One round of the flush: the message is encoded behind the buffer and its handle is queued, and the
  flush goes on; or the encoder fails, or there is no room for the handle.
\<close>

lemma flush_outbound_some:
  assumes p: "produce (handler d) = (Ok (Some x), h)" and x: "sendable x"
    and room: "length (cb_handles b) \<le> HANDLE_QUEUE_LIMIT"
  obtains (failed) e c buf where
      "flush_outbound enc ops produce d b = Some (Err e, d\<lparr>codec := c, handler := h\<rparr>, b\<lparr>cb_buf := buf\<rparr>)"
      "fst (enc (codec d) (snd (detach_handle ops x)) (cb_buf b)) = Err e"
    | (full) d' b' where "flush_outbound enc ops produce d b = Some (Panic, d', b')"
      "HANDLE_QUEUE_LIMIT < length (cb_handles b @ handle_of_msg ops x)"
    | (sent) c fr where "flush_outbound enc ops produce d b = flush_outbound enc ops produce (d\<lparr>codec := c, handler := h\<rparr>)
        \<lparr>cb_buf = cb_buf b @ fr, cb_handles = cb_handles b @ handle_of_msg ops x\<rparr>"
      "wire (on_wire ops seen x) fr" "length (cb_handles b @ handle_of_msg ops x) \<le> HANDLE_QUEUE_LIMIT"
proof -
  obtain m' where m': "detach_handle ops x
      = (Ok (case handle_of_msg ops x of [] \<Rightarrow> None | h # _ \<Rightarrow> Some h), m')"
    "serializable m'" "seen m' = on_wire ops seen x" "length (handle_of_msg ops x) \<le> 1"
    using detach_ok [OF x] by blast
  obtain re c buf where enc: "enc (codec d) m' (cb_buf b) = (re, c, buf)" by (metis prod.exhaust)
  let ?b = "\<lparr>cb_buf = buf, cb_handles = cb_handles b @ handle_of_msg ops x\<rparr>"
  have step: "flush_outbound enc ops produce d b = (case re of
      Err e \<Rightarrow> Some (Err e, d\<lparr>codec := c, handler := h\<rparr>, b\<lparr>cb_buf := buf\<rparr>)
    | Panic \<Rightarrow> Some (Panic, d\<lparr>codec := c, handler := h\<rparr>, b\<lparr>cb_buf := buf\<rparr>)
    | Ok _ \<Rightarrow> if length (cb_handles ?b) \<le> HANDLE_QUEUE_LIMIT
        then flush_outbound enc ops produce (d\<lparr>codec := c, handler := h\<rparr>) ?b
        else Some (Panic, d\<lparr>codec := c, handler := h\<rparr>, b\<lparr>cb_buf := buf\<rparr>))"
    using m'(4) room enc
    by (subst flush_outbound.simps, cases b)
      (auto simp: p m'(1) push_handle_def Suc_le_eq split: res.split list.split)
  show thesis
  proof (cases re)
    case (Err e)
    with step enc m'(1) show thesis by (auto intro: failed)
  next
    case (Ok u)
    with enc enc_wire m'(3) obtain fr where fr: "buf = cb_buf b @ fr" "wire (on_wire ops seen x) fr"
      by (metis (full_types) old.unit.exhaust)
    show thesis
    proof (cases "length (cb_handles b @ handle_of_msg ops x) \<le> HANDLE_QUEUE_LIMIT")
      case True
      with Ok step fr show thesis by (auto intro: sent)
    next
      case False
      with Ok step show thesis by (auto intro: full)
    qed
  next
    case Panic
    then show thesis using enc_safe [OF m'(2), of "codec d" "cb_buf b"] enc by simp
  qed
qed

text \<open>
  A flush that succeeds encodes every message the handler had to send and queues their handles; it
  panics only when the handles do not fit the queue, and fails only where the handler or the encoder
  does.
\<close>

lemma flush_outbound_result:
  assumes "hinv (handler d)" and "list_all sendable (pending (handler d))"
    and "length (cb_handles b) \<le> HANDLE_QUEUE_LIMIT"
    and "flush_outbound enc ops produce d b = Some (r, d', b')"
  shows "(r = Ok () \<longrightarrow>
      (\<exists>frs. cb_buf b' = cb_buf b @ concat frs \<and>
        list_all2 wire (map (on_wire ops seen) (pending (handler d))) frs) \<and>
      cb_handles b' = cb_handles b @ handles_of ops (pending (handler d)) \<and>
      length (cb_handles b') \<le> HANDLE_QUEUE_LIMIT \<and> pending (handler d') = [] \<and> hinv (handler d')) \<and>
    (r = Panic \<longrightarrow> HANDLE_QUEUE_LIMIT < length (cb_handles b @ handles_of ops (pending (handler d)))) \<and>
    (r = Err e \<longrightarrow> (\<exists>h. hinv h \<and> fst (produce h) = Err e) \<or>
      (\<exists>m e' buf. m \<in> set (pending (handler d)) \<and> fst (enc e' (snd (detach_handle ops m)) buf) = Err e))"
  using assms
proof (induction "pending (handler d)" arbitrary: d b)
  case Nil
  obtain r0 h where p: "produce (handler d) = (r0, h)" by (cases "produce (handler d)")
  have "\<And>x. r0 \<noteq> Ok (Some x)" using produce_some [OF Nil.prems(1)] p Nil.hyps by fastforce
  with Nil.prems p produce_safe [OF Nil.prems(1)] show ?case
    by (subst (asm) flush_outbound.simps)
      (auto simp flip: Nil.hyps dest: produce_none [OF Nil.prems(1)]
        intro!: exI [of _ "handler d"] split: res.splits option.splits)
next
  case (Cons x xs)
  obtain r0 h where p: "produce (handler d) = (r0, h)" by (cases "produce (handler d)")
  show ?case
  proof (cases "\<exists>y. r0 = Ok (Some y)")
    case False
    with Cons.prems(1,4) p produce_safe [OF Cons.prems(1)] produce_none [OF Cons.prems(1)] Cons.hyps(2)
    show ?thesis by (subst (asm) flush_outbound.simps)
      (auto intro!: exI [of _ "handler d"] split: res.splits option.splits)
  next
    case True
    then have r0: "r0 = Ok (Some x)" and h: "xs = pending h" "hinv h"
      using produce_some [OF Cons.prems(1)] p Cons.hyps(2) by fastforce+
    have x: "sendable x" "list_all sendable xs" "pending (handler d) = x # xs" using Cons.prems(2)
      by (simp_all flip: Cons.hyps(2))
    show ?thesis
    proof (rule flush_outbound_some [OF p [unfolded r0] x(1) Cons.prems(3)])
      fix c fr
      assume step: "flush_outbound enc ops produce d b = flush_outbound enc ops produce (d\<lparr>codec := c, handler := h\<rparr>)
          \<lparr>cb_buf = cb_buf b @ fr, cb_handles = cb_handles b @ handle_of_msg ops x\<rparr>"
        and fr: "wire (on_wire ops seen x) fr"
        and room: "length (cb_handles b @ handle_of_msg ops x) \<le> HANDLE_QUEUE_LIMIT"
      let ?b = "\<lparr>cb_buf = cb_buf b @ fr, cb_handles = cb_handles b @ handle_of_msg ops x\<rparr>"
      have nx: "flush_outbound enc ops produce (d\<lparr>codec := c, handler := h\<rparr>) ?b = Some (r, d', b')"
        using step Cons.prems(4) by simp
      have ih: "(r = Ok () \<longrightarrow>
          (\<exists>frs. cb_buf b' = cb_buf ?b @ concat frs \<and> list_all2 wire (map (on_wire ops seen) xs) frs) \<and>
          cb_handles b' = cb_handles ?b @ handles_of ops xs \<and>
          length (cb_handles b') \<le> HANDLE_QUEUE_LIMIT \<and> pending (handler d') = [] \<and> hinv (handler d')) \<and>
        (r = Panic \<longrightarrow> HANDLE_QUEUE_LIMIT < length (cb_handles ?b @ handles_of ops xs)) \<and>
        (r = Err e \<longrightarrow> (\<exists>h. hinv h \<and> fst (produce h) = Err e) \<or>
          (\<exists>m e' buf. m \<in> set xs \<and> fst (enc e' (snd (detach_handle ops m)) buf) = Err e))"
        using Cons.hyps(1) [of "d\<lparr>codec := c, handler := h\<rparr>" ?b] h x(2) room nx by auto
      show ?thesis
      proof (intro conjI impI)
        assume "r = Ok ()"
        with ih obtain frs where "cb_buf b' = cb_buf ?b @ concat frs"
          "list_all2 wire (map (on_wire ops seen) xs) frs" by blast
        with fr x(3) show "\<exists>frs. cb_buf b' = cb_buf b @ concat frs \<and>
            list_all2 wire (map (on_wire ops seen) (pending (handler d))) frs"
          by (intro exI [of _ "fr # frs"]) simp
      qed (use ih x(3) in auto)
    qed (use Cons.prems(4) x(3) in auto)
  qed
qed

end

section \<open>The connections of the program\<close>

definition never_panics :: "('i, 'o) bincode \<Rightarrow> bool" where
  "never_panics bc \<longleftrightarrow> (\<forall>lim m. bc_serialize_into bc lim m \<noteq> SerPanic)"

lemma encode_no_panic:
  assumes "bincode_contract f tx rx" and "bc_serialize_into tx (unat MAX_MESSAGE_LEN) m \<noteq> SerPanic"
  shows "fst (encode tx e m buf) \<noteq> Panic"
proof (cases "bc_serialize_into tx (unat MAX_MESSAGE_LEN) m")
  case (SerOk bs)
  with assms(1) have "length bs \<le> unat MAX_MESSAGE_LEN" unfolding bincode_contract_def by blast
  with SerOk show ?thesis by (simp add: encode_def Let_def del: MAX_nat)
qed (use assms(2) in \<open>simp_all add: encode_def\<close>)

lemma encode_wire:
  "bincode_contract f tx rx \<Longrightarrow> encode tx e m buf = (Ok (), e', buf') \<Longrightarrow>
   \<exists>fr. buf' = buf @ fr \<and> wire_frame rx (f m) fr"
  by (metis encode_wire_frame)

text \<open>From the server to a client: the messages that may carry handles.\<close>

lemma client_message_link:
  assumes c: "bincode_contract id tx rx" and p: "never_panics tx"
    and h: "rpc_handler consume produce pending hinv"
  shows "framed_link (decode (client_message_rx rx)) unread codec_inv (wire_frame (client_message_rx rx))
    client_message_handles cm_sendable cm_seen cm_received cm_serializable consume produce pending hinv
    (encode (client_message_tx tx))"
proof -
  note c' = client_message_contract [OF c]
  have "bc_serialize_into (client_message_tx tx) lim m \<noteq> SerPanic" if "cm_serializable m" for lim m
    using that p by (auto simp: client_message_tx_def never_panics_def cm_serializable_def)
  then have "framed_link_axioms (wire_frame (client_message_rx rx)) cm_seen cm_serializable
      (encode (client_message_tx tx))"
    by (intro framed_link_axioms.intro encode_no_panic [OF c'] encode_wire [OF c'])
  then show ?thesis
    by (intro framed_link.intro lc.message_codec_axioms cmh.handle_message_axioms h)
qed

text \<open>Every other connection: no message carries a handle.\<close>

lemma plain_link:
  assumes c: "bincode_contract id tx rx" and p: "never_panics tx"
    and h: "rpc_handler consume produce pending hinv"
  shows "framed_link (decode rx) unread codec_inv (wire_frame rx) default_handle_ops (\<lambda>_. True)
    (\<lambda>m. m) (\<lambda>m _. m) (\<lambda>_. True) consume produce pending hinv (encode tx)"
proof -
  have "framed_link_axioms (wire_frame rx) (\<lambda>m. m) (\<lambda>_. True) (encode tx)"
    using p encode_wire [OF c] 
    by (intro framed_link_axioms.intro encode_no_panic [OF c]) (simp_all add: never_panics_def)
  then show ?thesis
    by (intro framed_link.intro lc.message_codec_axioms plainh.handle_message_axioms h)
qed

text \<open>
  A bincode for the messages of a table (at most 256 of them): a message is written as its index.
  It meets the contract, so the interfaces above have instances for every message type.
\<close>

fun index_of :: "'m list \<Rightarrow> 'm \<Rightarrow> nat" where
  "index_of [] m = 0"
| "index_of (x # xs) m = (if x = m then 0 else Suc (index_of xs m))"

definition table_bincode :: "'m list \<Rightarrow> ('m, 'm) bincode" where
  "table_bincode table = (let t = take 256 table in \<lparr>
     bc_serialize_into = (\<lambda>lim m. if index_of t m < length t \<and> 1 \<le> lim
       then SerOk [of_nat (index_of t m)] else SerErr [] (BincodeOther ''unknown message'')),
     bc_deserialize = (\<lambda>lim bs. case bs of [b] \<Rightarrow>
         if unat b < length t then Inr (t ! unat b) else Inl (BincodeOther ''invalid value'')
       | _ \<Rightarrow> Inl (BincodeOther ''invalid length'')) \<rparr>)"

lemma nth_index_of: "index_of t m < length t \<Longrightarrow> t ! index_of t m = m"
  by (induction t) (auto split: if_splits)

lemma table_bincode_contract: "bincode_contract id (table_bincode t) (table_bincode t)"
proof -
  have "i < length (take 256 t) \<Longrightarrow> unat (of_nat i :: byte) = i" for i
    by (simp add: unat_of_nat)
  then show ?thesis
    by (auto simp: bincode_contract_def table_bincode_def Let_def nth_index_of [simplified]
        simp del: length_take split: if_splits)
qed

lemma table_bincode_safe: "never_panics (table_bincode t)"
  by (simp add: never_panics_def table_bincode_def Let_def)

interpretation s2c: framed_link "decode (client_message_rx (table_bincode t))" unread codec_inv
  "wire_frame (client_message_rx (table_bincode t))" client_message_handles cm_sendable cm_seen cm_received
  cm_serializable "server_consume process" server_produce responses "\<lambda>_. True"
  "encode (client_message_tx (table_bincode t))" for t process
  by (rule client_message_link [OF table_bincode_contract table_bincode_safe sh.rpc_handler_axioms])

interpretation c2s: framed_link "decode (table_bincode t)" unread codec_inv
  "wire_frame (table_bincode t)" default_handle_ops "\<lambda>_. True" "\<lambda>m. m" "\<lambda>m _. m" "\<lambda>_. True"
  client_consume "client_produce Q" "\<lambda>ch. map fst (queued Q ch)" "client_inv Q"
  "encode (table_bincode t)" for t Q
  by (rule plain_link [OF table_bincode_contract table_bincode_safe ch.rpc_handler_axioms])

section \<open>Properties\<close>

text \<open>
  C30: \<open>process_inbound\<close> returns on every buffer, and a success has taken every whole message out of
  it: the driver never reports itself done, and decoding what is left yields nothing.
\<close>

theorem process_inbound_drains:
  "\<exists>r d' b'. process_inbound (decode bc) ops consume d b = Some (r, d', b') \<and>
     (case r of Ok done \<Rightarrow> done = False \<and> fst (decode bc (codec d') (cb_buf b')) = Ok None
      | Err e \<Rightarrow> True | Panic \<Rightarrow> True)"
  by (rule lc.process_inbound_drained)

text \<open>
  Flushing a server's responses (as the server builds them, with a bincode that meets its contract
  and encodes them) returns.  With room for their handles it empties the handler and appends one
  frame for each response and all their handles, in order; one handle more than the queue takes and
  it panics.
\<close>

theorem flush_responses:
  assumes "bincode_contract id tx rx" and "never_panics tx"
    and "list_all cm_sendable (responses sh)" and "length (cb_handles b) \<le> HANDLE_QUEUE_LIMIT"
    and "\<forall>m \<in> set (responses sh). \<forall>e buf err.
      fst (encode (client_message_tx tx) e (snd (detach_handle client_message_handles m)) buf) \<noteq> Err err"
  shows "\<exists>r d' b'. flush_outbound (encode (client_message_tx tx)) client_message_handles server_produce
        \<lparr>codec = c, handler = sh\<rparr> b = Some (r, d', b') \<and>
      (if length (cb_handles b) + length (handles_of client_message_handles (responses sh)) \<le> HANDLE_QUEUE_LIMIT
       then r = Ok () \<and> responses (handler d') = [] \<and>
         cb_handles b' = cb_handles b @ handles_of client_message_handles (responses sh) \<and>
         (\<exists>frs. cb_buf b' = cb_buf b @ concat frs \<and> length frs = length (responses sh))
       else r = Panic)"
proof -
  note link = client_message_link [OF assms(1,2) sh.rpc_handler_axioms, of undefined]
  have p: "fst (server_produce h) \<noteq> Err e" for h e by (simp add: server_produce_def split: list.splits)
  obtain r d' b' where f: "flush_outbound (encode (client_message_tx tx)) client_message_handles
      server_produce \<lparr>codec = c, handler = sh\<rparr> b = Some (r, d', b')"
    using sh.flush_outbound_total by (metis prod.exhaust)
  note res = framed_link.flush_outbound_result [OF link _ _ assms(4) f, simplified, OF assms(3)]
  have "r \<noteq> Err e" for e using res [of e] assms(5) p by blast
  then show ?thesis using f res
    by (cases r) (auto dest!: list_all2_lengthD)
qed

text \<open>Sixteen responses that each carry a handle fit; with seventeen the flush panics.\<close>

definition demo_response :: "serializable_handle client_message" where
  "demo_response = StreamInitialized (Owned 7 (Some 3))"

abbreviation demo_wire :: "(int client_message, int client_message) bincode" where
  "demo_wire \<equiv> table_bincode [StreamInitialized (-1)]"

lemma demo_response_ops:
  "cm_sendable demo_response" "handle_of_msg client_message_handles demo_response = [7]"
  "snd (detach_handle client_message_handles demo_response) = StreamInitialized Empty"
  by (simp_all add: demo_response_def cm_sendable_def valid_handle_def handle_of_msg_def
      detach_handle_def client_message_handles_def cm_handle_simps handle_defs)

lemma demo_response_encodes:
  "fst (encode (client_message_tx demo_wire) e (StreamInitialized Empty) buf) \<noteq> Err err"
  by (simp add: encode_def client_message_tx_def table_bincode_def handle_panics_def Let_def
      get_serializable_value_def i64_of_handle_def INVALID_HANDLE_VALUE_def)

lemma demo_response_handles:
  "handles_of client_message_handles (replicate n demo_response) = replicate n 7"
  by (induction n) (simp_all add: demo_response_ops)

theorem flush_responses_witness:
  "(\<exists>d' b'. flush_outbound (encode (client_message_tx demo_wire)) client_message_handles server_produce
      \<lparr>codec = lcodec_default, handler = \<lparr>server = (), responses = replicate 16 demo_response\<rparr>\<rparr> conn_buf_new
      = Some (Ok (), d', b') \<and> responses (handler d') = [] \<and> length (cb_handles b') = 16) \<and>
   (\<exists>d' b'. flush_outbound (encode (client_message_tx demo_wire)) client_message_handles server_produce
      \<lparr>codec = lcodec_default, handler = \<lparr>server = (), responses = replicate 17 demo_response\<rparr>\<rparr> conn_buf_new
      = Some (Panic, d', b'))"
proof -
  define sh :: "nat \<Rightarrow> (unit, serializable_handle client_message) server_handler" where
    "sh = (\<lambda>n. \<lparr>server = (), responses = replicate n demo_response\<rparr>)"
  have *: "\<exists>r d' b'. flush_outbound (encode (client_message_tx demo_wire)) client_message_handles server_produce
      \<lparr>codec = lcodec_default, handler = sh n\<rparr> conn_buf_new = Some (r, d', b') \<and>
      (if length (cb_handles conn_buf_new) + length (handles_of client_message_handles (responses (sh n))) \<le> HANDLE_QUEUE_LIMIT
       then r = Ok () \<and> responses (handler d') = [] \<and>
         cb_handles b' = cb_handles conn_buf_new @ handles_of client_message_handles (responses (sh n)) \<and>
         (\<exists>frs. cb_buf b' = cb_buf conn_buf_new @ concat frs \<and> length frs = length (responses (sh n)))
       else r = Panic)" for n
    by (rule flush_responses [OF table_bincode_contract table_bincode_safe])
      (simp_all add: sh_def list_all_iff demo_response_ops demo_response_encodes conn_buf_new_def)
  from * [of 16] * [of 17] show ?thesis
    by (simp add: sh_def demo_response_handles conn_buf_new_def HANDLE_QUEUE_LIMIT_def) (metis length_replicate)
qed

end
