(* ===== verification/Connection.thy ===== *)
theory Connection
  imports Driver
begin

text \<open>
  \<open>Connection\<close> of \<open>audioipc/src/ipccore.rs\<close>: it owns a pipe, the inbound and outbound buffers and a
  driver, and keeps its readiness registration in step with the outbound buffer.

  The environment of a connection is a script: the outcomes of its receives and sends in order (with
  each send the spare memory behind the pipe's control data), and the outcomes of the calls to the
  \<open>mio\<close> registry.  The control data and bytes the kernel accepts, and the successful registry calls, are logged.
  A function whose script ends before it returns has no result.
\<close>

section \<open>Readiness interests\<close>

text \<open>\<open>mio::Interest\<close>, a nonempty set of the two readiness kinds.\<close>

datatype interest = READABLE | WRITABLE | READ_WRITE

fun interest_add :: "interest \<Rightarrow> interest \<Rightarrow> interest" where
  "interest_add i j = (if i = j then i else READ_WRITE)"

fun interest_remove :: "interest \<Rightarrow> interest \<Rightarrow> interest option" where
  "interest_remove READ_WRITE READABLE = Some WRITABLE"
| "interest_remove READ_WRITE WRITABLE = Some READABLE"
| "interest_remove i READ_WRITE = None"
| "interest_remove i j = (if i = j then None else Some i)"

datatype registry_call = RegRegister nat interest | RegReregister nat interest | RegDeregister nat

record registry =
  reg_outcomes :: "io_error option list"
  reg_log :: "registry_call list"

text \<open>A call the script says nothing about succeeds; the calls that succeed are logged.\<close>

definition registry_do :: "registry_call \<Rightarrow> registry \<Rightarrow> (io_error, unit) res \<times> registry" where
  "registry_do call rg = (case reg_outcomes rg of
     [] \<Rightarrow> (Ok (), rg\<lparr>reg_log := reg_log rg @ [call]\<rparr>)
   | None # os \<Rightarrow> (Ok (), \<lparr>reg_outcomes = os, reg_log = reg_log rg @ [call]\<rparr>)
   | Some e # os \<Rightarrow> (Err e, \<lparr>reg_outcomes = os, reg_log = reg_log rg\<rparr>))"

section \<open>The connection and its environment\<close>

text \<open>\<open>dyn Driver\<close>: the two methods, behind which the framed driver's types are hidden.\<close>

record 'd driver_ops =
  drv_process_inbound :: "'d \<Rightarrow> conn_buf \<Rightarrow> ((io_error, bool) res \<times> 'd \<times> conn_buf) option"
  drv_flush_outbound :: "'d \<Rightarrow> conn_buf \<Rightarrow> ((io_error, unit) res \<times> 'd \<times> conn_buf) option"

definition framed_driver_ops ::
  "('i, 'm) bincode \<Rightarrow> 'm handle_ops \<Rightarrow> ('m \<Rightarrow> 'h \<Rightarrow> (io_error, unit) res \<times> 'h) \<Rightarrow>
   ('n, 'o) bincode \<Rightarrow> 'n handle_ops \<Rightarrow> ('h \<Rightarrow> (io_error, 'n option) res \<times> 'h) \<Rightarrow>
   (lcodec, 'h) framed_driver driver_ops" where
  "framed_driver_ops rx rx_ops consume tx tx_ops produce = \<lparr>
     drv_process_inbound = process_inbound (decode rx) rx_ops consume,
     drv_flush_outbound = flush_outbound (encode tx) tx_ops produce \<rparr>"

record 'd connection =
  io :: pipe
  ctoken :: nat
  interest :: "interest option"
  inbound :: conn_buf
  outbound :: conn_buf
  driver :: 'd

record 'd conn_st =
  cn :: "'d connection"
  rg :: registry
  rx :: "(byte list \<times> byte list) sys_result list"
  tx :: "(byte list \<times> nat sys_result) list"
  accepted :: "(byte list \<times> byte list) list"

definition connection_new ::
  "pipe \<Rightarrow> nat \<Rightarrow> 'd \<Rightarrow> registry \<Rightarrow> (io_error, 'd connection) res \<times> registry" where
  "connection_new p t d reg = (case registry_do (RegRegister t READABLE) reg of
     (Ok _, reg') \<Rightarrow> (Ok \<lparr>io = p, ctoken = t, interest = Some READABLE, inbound = conn_buf_new,
        outbound = conn_buf_new, driver = d\<rparr>, reg')
   | (Err e, reg') \<Rightarrow> (Err e, reg')
   | (Panic, reg') \<Rightarrow> (Panic, reg'))"

text \<open>Shutting the socket down has no modelled effect, and its result is ignored.\<close>

definition connection_shutdown ::
  "'d connection \<Rightarrow> registry \<Rightarrow> (io_error, unit) res \<times> 'd connection \<times> registry" where
  "connection_shutdown c reg = (case registry_do (RegDeregister (ctoken c)) reg of
     (r, reg') \<Rightarrow> (r, c\<lparr>interest := None\<rparr>, reg'))"

section \<open>Registration\<close>

definition update_registration ::
  "interest option \<Rightarrow> 'd conn_st \<Rightarrow> ((io_error, unit) res \<times> 'd conn_st) option" where
  "update_registration new s =
     (if new \<noteq> interest (cn s) then
        let s' = s\<lparr>cn := (cn s)\<lparr>interest := new\<rparr>\<rparr>;
            call = (case new of Some i \<Rightarrow> RegReregister (ctoken (cn s)) i | None \<Rightarrow> RegDeregister (ctoken (cn s)))
        in case registry_do call (rg s) of (r, reg') \<Rightarrow> Some (r, s'\<lparr>rg := reg'\<rparr>)
      else Some (Ok (), s))"

definition clear_readable :: "'d conn_st \<Rightarrow> ((io_error, unit) res \<times> 'd conn_st) option" where
  "clear_readable s =
     update_registration (Option.bind (interest (cn s)) (\<lambda>i. interest_remove i READABLE)) s"

definition set_writable :: "'d conn_st \<Rightarrow> ((io_error, unit) res \<times> 'd conn_st) option" where
  "set_writable s = update_registration
     (Some (case interest (cn s) of None \<Rightarrow> WRITABLE | Some i \<Rightarrow> interest_add i WRITABLE)) s"

definition clear_writable :: "'d conn_st \<Rightarrow> ((io_error, unit) res \<times> 'd conn_st) option" where
  "clear_writable s =
     update_registration (Option.bind (interest (cn s)) (\<lambda>i. interest_remove i WRITABLE)) s"

section \<open>Receiving and sending\<close>

definition would_block :: "io_error \<Rightarrow> bool" where
  "would_block e \<longleftrightarrow> kind e = WouldBlock"

definition io_interrupted :: "io_error \<Rightarrow> bool" where
  "io_interrupted e \<longleftrightarrow> kind e = Interrupted"

text \<open>The loop of \<open>recv_inbound\<close>, over the outcomes of its receives.\<close>

fun recv_loop ::
  "cmsg_abi \<Rightarrow> 'd driver_ops \<Rightarrow> (byte list \<times> byte list) sys_result list \<Rightarrow> 'd connection \<Rightarrow>
   ((io_error, bool) res \<times> 'd connection \<times> (byte list \<times> byte list) sys_result list) option" where
  "recv_loop C D [] c = None"
| "recv_loop C D (o1 # os) c =
     (case recv_msg C o1 (io c) (inbound c) of (r, p, b) \<Rightarrow>
        let c1 = c\<lparr>io := p, inbound := b\<rparr> in
        (case r of
           Ok n \<Rightarrow>
             if n = 0 then Some (Ok True, c1, os)
             else (case drv_process_inbound D (driver c1) (inbound c1) of
                 None \<Rightarrow> None
               | Some (r2, d, b2) \<Rightarrow>
                   let c2 = c1\<lparr>driver := d, inbound := b2\<rparr> in
                   (case r2 of
                      Ok done \<Rightarrow> if done then Some (Ok True, c2, os) else recv_loop C D os c2
                    | Err e \<Rightarrow> Some (Err e, c2, os)
                    | Panic \<Rightarrow> Some (Panic, c2, os)))
         | Err e \<Rightarrow>
             if would_block e then Some (Ok False, c1, os)
             else if io_interrupted e then recv_loop C D os c1
             else Some (Err e, c1, os)
         | Panic \<Rightarrow> Some (Panic, c1, os)))"

definition recv_inbound ::
  "cmsg_abi \<Rightarrow> 'd driver_ops \<Rightarrow> 'd conn_st \<Rightarrow> ((io_error, bool) res \<times> 'd conn_st) option" where
  "recv_inbound C D s =
     map_option (\<lambda>(r, c, os). (r, s\<lparr>cn := c, rx := os\<rparr>)) (recv_loop C D (rx s) (cn s))"

definition conn_flush_outbound ::
  "'d driver_ops \<Rightarrow> 'd conn_st \<Rightarrow> ((io_error, unit) res \<times> 'd conn_st) option" where
  "conn_flush_outbound D s =
     map_option (\<lambda>(r, d, b). (r, s\<lparr>cn := (cn s)\<lparr>driver := d, outbound := b\<rparr>\<rparr>))
       (drv_flush_outbound D (driver (cn s)) (outbound (cn s)))"

text \<open>The loop of \<open>send_outbound\<close>: how it ends, when it does not fail.\<close>

datatype send_end = Eof | Blocked | Drained

fun send_loop ::
  "cmsg_abi \<Rightarrow> (byte list \<times> nat sys_result) list \<Rightarrow> 'd conn_st \<Rightarrow>
   ((io_error, send_end) res \<times> 'd conn_st) option" where
  "send_loop C os s =
     (if conn_buf_is_empty (outbound (cn s)) then Some (Ok Drained, s\<lparr>tx := os\<rparr>)
      else case os of
        [] \<Rightarrow> None
      | (mem, o1) # os' \<Rightarrow>
          (case send_msg C mem o1 (io (cn s)) (outbound (cn s)) of (r, p, b, call) \<Rightarrow>
             let s1 = s\<lparr>cn := (cn s)\<lparr>io := p, outbound := b\<rparr>\<rparr> in
             (case r of
                Ok n \<Rightarrow>
                  if n = 0 then Some (Ok Eof, s1\<lparr>tx := os'\<rparr>)
                  else send_loop C os' (s1\<lparr>accepted := accepted s @
                         (case call of Some (bs, ctl) \<Rightarrow> [(take n bs, ctl)] | None \<Rightarrow> [])\<rparr>)
              | Err e \<Rightarrow>
                  if would_block e then Some (Ok Blocked, s1\<lparr>tx := os'\<rparr>)
                  else if io_interrupted e then send_loop C os' s1
                  else Some (Err e, s1\<lparr>tx := os'\<rparr>)
              | Panic \<Rightarrow> Some (Panic, s1\<lparr>tx := os'\<rparr>))))"

declare send_loop.simps [simp del]

definition send_outbound ::
  "cmsg_abi \<Rightarrow> 'd conn_st \<Rightarrow> ((io_error, bool) res \<times> 'd conn_st) option" where
  "send_outbound C s =
     try_do (send_loop C (tx s) s) (\<lambda>e s.
       if e = Eof then Some (Ok True, s)
       else try_do (if e = Blocked then set_writable s else Some (Ok (), s)) (\<lambda>_ s.
         try_do (if conn_buf_is_empty (outbound (cn s)) then clear_writable s else Some (Ok (), s)) (\<lambda>_ s.
           Some (Ok False, s))))"

section \<open>Events\<close>

definition handle_event ::
  "cmsg_abi \<Rightarrow> 'd driver_ops \<Rightarrow> nat \<Rightarrow> bool \<Rightarrow> 'd conn_st \<Rightarrow> ((io_error, bool) res \<times> 'd conn_st) option" where
  "handle_event C D ev_token is_readable s =
     (if ctoken (cn s) \<noteq> ev_token then Some (Panic, s)
      else
        try_do (if is_readable then recv_inbound C D s else Some (Ok False, s)) (\<lambda>done s.
          try_do (conn_flush_outbound D s) (\<lambda>_ s.
            try_do (send_outbound C s) (\<lambda>eof s.
              if eof then Some (Ok True, s)
              else
                let done = (done \<and> conn_buf_is_empty (outbound (cn s))) in
                try_do (if done then clear_readable s else Some (Ok (), s)) (\<lambda>_ s.
                  Some (Ok done, s))))))"

definition handle_wake ::
  "cmsg_abi \<Rightarrow> 'd driver_ops \<Rightarrow> 'd conn_st \<Rightarrow> ((io_error, bool) res \<times> 'd conn_st) option" where
  "handle_wake C D s =
     try_do (conn_flush_outbound D s) (\<lambda>_ s.
       try_do (send_outbound C s) (\<lambda>eof s.
         if eof then Some (Ok True, s) else Some (Ok False, s)))"

section \<open>The registration follows the outbound buffer\<close>

text \<open>What the registry holds for a token after the logged calls.\<close>

fun registered :: "registry_call list \<Rightarrow> nat \<Rightarrow> interest option" where
  "registered [] t = None"
| "registered (call # cs) t = (case registered cs t of i \<Rightarrow>
     (case call of RegRegister t' j \<Rightarrow> if t' = t then Some j else i
      | RegReregister t' j \<Rightarrow> if t' = t then Some j else i
      | RegDeregister t' \<Rightarrow> if t' = t then None else i))"

text \<open>The log is read from its end.\<close>

definition in_step :: "'d conn_st \<Rightarrow> bool" where
  "in_step s \<longleftrightarrow> registered (rev (reg_log (rg s))) (ctoken (cn s)) = interest (cn s)"

lemma update_registration_Ok:
  assumes "update_registration new s = Some (Ok (), s')" and "in_step s"
  shows "in_step s'" and "interest (cn s') = new" and "outbound (cn s') = outbound (cn s)"
    and "ctoken (cn s') = ctoken (cn s)"
  using assms
  by (auto simp: update_registration_def registry_do_def in_step_def Let_def
      split: if_splits list.splits option.splits)

lemma recv_loop_frame:
  "recv_loop C D os c = Some (r, c', os') \<Longrightarrow>
   interest c' = interest c \<and> outbound c' = outbound c \<and> ctoken c' = ctoken c"
  by (induction C D os c rule: recv_loop.induct)
    (fastforce simp: Let_def split: prod.splits res.splits if_splits option.splits)+

lemma recv_inbound_frame:
  "recv_inbound C D s = Some (r, s') \<Longrightarrow> interest (cn s') = interest (cn s) \<and>
   outbound (cn s') = outbound (cn s) \<and> ctoken (cn s') = ctoken (cn s) \<and> rg s' = rg s \<and> tx s' = tx s"
  by (auto simp: recv_inbound_def dest: recv_loop_frame)

lemma send_msg_Err_buf: "send_msg C mem o1 p b = (Err e, p', b', call) \<Longrightarrow> b' = b"
  by (auto simp: send_msg_def Let_def split: if_splits res.splits sys_result.splits)

lemma send_loop_frame:
  "send_loop C os s = Some (r, s') \<Longrightarrow> interest (cn s') = interest (cn s) \<and> ctoken (cn s') = ctoken (cn s) \<and>
   rg s' = rg s \<and> (r = Ok Drained \<longrightarrow> conn_buf_is_empty (outbound (cn s'))) \<and>
   (r = Ok Blocked \<longrightarrow> \<not> conn_buf_is_empty (outbound (cn s')))"
proof (induction os arbitrary: s)
  case Nil
  then show ?case by (subst (asm) send_loop.simps) (auto split: if_splits)
next
  case (Cons o1 os)
  obtain mem out where o1: "o1 = (mem, out)" by (cases o1)
  obtain q p b call where m: "send_msg C mem out (io (cn s)) (outbound (cn s)) = (q, p, b, call)"
    by (metis prod.exhaust)
  show ?case
  proof (cases "conn_buf_is_empty (outbound (cn s))")
    case True
    with Cons.prems show ?thesis by (subst (asm) send_loop.simps) auto
  next
    case False
    show ?thesis
    proof (cases q)
      case (Ok n)
      with Cons.prems False o1 m show ?thesis
        by (subst (asm) send_loop.simps) (auto simp: Let_def dest!: Cons.IH split: if_splits)
    next
      case (Err e)
      with m have "b = outbound (cn s)" by (auto dest: send_msg_Err_buf)
      with Err Cons.prems False o1 m show ?thesis
        by (subst (asm) send_loop.simps) (auto simp: Let_def dest!: Cons.IH split: if_splits)
    next
      case Panic
      with Cons.prems False o1 m show ?thesis by (subst (asm) send_loop.simps) auto
    qed
  qed
qed

lemma interest_writable:
  assumes "interest (cn s) \<in> {Some READABLE, Some READ_WRITE}"
  shows "set_writable s = update_registration (Some READ_WRITE) s"
    and "clear_writable s = update_registration (Some READABLE) s"
  using assms by (auto simp: set_writable_def clear_writable_def)

text \<open>After a send that is not at the end of the stream, \<open>WRITABLE\<close> is registered exactly if data is
  left to send.\<close>

lemma send_outbound_interest:
  assumes s: "interest (cn s) \<in> {Some READABLE, Some READ_WRITE}" and st: "in_step s"
    and r: "send_outbound C s = Some (Ok False, s')"
  shows "in_step s'" and "ctoken (cn s') = ctoken (cn s)"
    and "interest (cn s') = Some (if conn_buf_is_empty (outbound (cn s')) then READABLE else READ_WRITE)"
proof -
  from r obtain e s1 where l: "send_loop C (tx s) s = Some (Ok e, s1)" "e \<noteq> Eof"
    and r1: "try_do (if e = Blocked then set_writable s1 else Some (Ok (), s1)) (\<lambda>_ s.
         try_do (if conn_buf_is_empty (outbound (cn s)) then clear_writable s else Some (Ok (), s)) (\<lambda>_ s.
           Some (Ok False, s))) = Some (Ok False, s')"
    by (auto simp: send_outbound_def try_do_Ok_iff split: if_splits)
  note f = send_loop_frame [OF l(1)]
  have s1: "in_step s1" "interest (cn s1) \<in> {Some READABLE, Some READ_WRITE}"
    using f s st by (simp_all add: in_step_def)
  have "in_step s' \<and> ctoken (cn s') = ctoken (cn s) \<and>
    interest (cn s') = Some (if conn_buf_is_empty (outbound (cn s')) then READABLE else READ_WRITE)"
  proof (cases e)
    case Blocked
    with r1 obtain s2 where u: "update_registration (Some READ_WRITE) s1 = Some (Ok (), s2)"
      and r2: "try_do (if conn_buf_is_empty (outbound (cn s2)) then clear_writable s2 else Some (Ok (), s2))
         (\<lambda>_ s. Some (Ok False, s)) = Some (Ok False, s')"
      by (auto simp: try_do_Ok_iff interest_writable [OF s1(2)])
    from update_registration_Ok [OF u s1(1)] Blocked f r2 show ?thesis by (auto split: if_splits)
  next
    case Drained
    with r1 f obtain u: "update_registration (Some READABLE) s1 = Some (Ok (), s')"
      by (auto simp: try_do_Ok_iff interest_writable [OF s1(2)])
    from update_registration_Ok [OF u s1(1)] Drained f show ?thesis by simp
  qed (use l in simp)
  then show "in_step s'" "ctoken (cn s') = ctoken (cn s)"
    "interest (cn s') = Some (if conn_buf_is_empty (outbound (cn s')) then READABLE else READ_WRITE)"
    by auto
qed

lemma conn_flush_frame:
  "conn_flush_outbound D s = Some (r, s') \<Longrightarrow> interest (cn s') = interest (cn s) \<and>
   ctoken (cn s') = ctoken (cn s) \<and> rg s' = rg s"
  by (auto simp: conn_flush_outbound_def)

text \<open>
  As long as a connection stays open, it is registered for \<open>READABLE\<close>, and for \<open>WRITABLE\<close> exactly
  while outbound data waits: an event or wake that leaves it open restores this, so data the kernel
  refused is sent when the socket becomes writable, and an idle connection is not woken for nothing.
\<close>

lemma interest_follows_outbound:
  assumes "interest (cn s) \<in> {Some READABLE, Some READ_WRITE}" and "in_step s"
    and "handle_event C D t readable s = Some (Ok False, s') \<or> handle_wake C D s = Some (Ok False, s')"
  shows "interest (cn s') = Some (if conn_buf_is_empty (outbound (cn s')) then READABLE else READ_WRITE) \<and>
    registered (rev (reg_log (rg s'))) (ctoken (cn s)) = interest (cn s')"
proof -
  have sent: "?thesis" if "conn_flush_outbound D s1 = Some (Ok (), s2)" "send_outbound C s2 = Some (Ok False, s')"
    and "interest (cn s1) = interest (cn s)" "ctoken (cn s1) = ctoken (cn s)" "rg s1 = rg s" for s1 s2
  proof -
    from conn_flush_frame [OF that(1)] that assms(1,2) have
      "interest (cn s2) \<in> {Some READABLE, Some READ_WRITE}" "in_step s2" "ctoken (cn s2) = ctoken (cn s)"
      by (auto simp: in_step_def)
    from send_outbound_interest [OF this(1,2) that(2)] this(3) show ?thesis by (simp add: in_step_def)
  qed
  from assms(3) show ?thesis
  proof
    assume "handle_wake C D s = Some (Ok False, s')"
    then obtain s2 where "conn_flush_outbound D s = Some (Ok (), s2)" "send_outbound C s2 = Some (Ok False, s')"
      by (auto simp: handle_wake_def try_do_Ok_iff split: if_splits)
    then show ?thesis using sent [of s s2] by simp
  next
    assume "handle_event C D t readable s = Some (Ok False, s')"
    then obtain d s1 s2 where "(if readable then recv_inbound C D s else Some (Ok False, s)) = Some (Ok d, s1)"
      "conn_flush_outbound D s1 = Some (Ok (), s2)" "send_outbound C s2 = Some (Ok False, s')"
      by (fastforce simp: handle_event_def try_do_Ok_iff Let_def split: if_splits)
    then show ?thesis using sent [of s1 s2] recv_inbound_frame [of C D s "Ok d" s1]
      by (auto split: if_splits)
  qed
qed

text \<open>Three bytes wait, of which the kernel takes one and then refuses more.\<close>

definition demo_conn :: "unit conn_st" where
  "demo_conn = \<lparr>
     cn = \<lparr>io = pipe_new, ctoken = 4, interest = Some READABLE, inbound = conn_buf_new,
       outbound = \<lparr>cb_buf = [1, 2, 3], cb_handles = []\<rparr>, driver = ()\<rparr>,
     rg = \<lparr>reg_outcomes = [], reg_log = [RegRegister 4 READABLE]\<rparr>, rx = [],
     tx = [([], SysRet 1), ([], SysErr (IoError WouldBlock ''''))], accepted = []\<rparr>"

definition demo_driver :: "unit driver_ops" where
  "demo_driver = \<lparr>drv_process_inbound = (\<lambda>d b. Some (Ok False, d, b)),
     drv_flush_outbound = (\<lambda>d b. Some (Ok (), d, b))\<rparr>"

lemma demo_conn_wake:
  "\<exists>s'. handle_wake linux_cmsg demo_driver demo_conn = Some (Ok False, s') \<and>
     outbound (cn s') = \<lparr>cb_buf = [2, 3], cb_handles = []\<rparr>"
  by (simp add: handle_wake_def demo_conn_def demo_driver_def conn_flush_outbound_def
      send_outbound_def send_loop.simps conn_buf_is_empty_def send_msg_def Let_def would_block_def
      pipe_new_def set_writable_def update_registration_def registry_do_def)

text \<open>What a handler of a connection may change of the registry: its own token's entry.\<close>

definition only_own :: "'d conn_st \<Rightarrow> 'd conn_st \<Rightarrow> bool" where
  "only_own s s' \<longleftrightarrow> ctoken (cn s') = ctoken (cn s) \<and>
     (\<forall>t. t \<noteq> ctoken (cn s) \<longrightarrow> registered (rev (reg_log (rg s'))) t = registered (rev (reg_log (rg s))) t)"

lemma only_own_refl: "only_own s s"
  by (simp add: only_own_def)

lemma only_own_trans: "only_own s t \<Longrightarrow> only_own t u \<Longrightarrow> only_own s u"
  by (simp add: only_own_def)

lemma try_do_only_own:
  assumes "try_do m k = Some (r, u)" and "\<And>a t. m = Some (a, t) \<Longrightarrow> only_own s t"
    and "\<And>a t r u. k a t = Some (r, u) \<Longrightarrow> only_own t u"
  shows "only_own s u"
proof (cases m)
  case (Some mt)
  obtain a t where m: "m = Some (a, t)" using Some by (cases mt) auto
  with assms(2) have "only_own s t" by blast
  with assms(1,3) m show ?thesis by (cases a) (auto intro: only_own_trans)
qed (use assms(1) in simp)

lemma update_registration_own: "update_registration new s = Some (r, s') \<Longrightarrow> only_own s s'"
  by (auto simp: update_registration_def registry_do_def only_own_def Let_def
      split: if_splits list.splits option.splits)

lemma recv_inbound_own: "recv_inbound C D s = Some (r, s') \<Longrightarrow> only_own s s'"
  using recv_inbound_frame [of C D s r s'] by (simp add: only_own_def)

lemma conn_flush_own: "conn_flush_outbound D s = Some (r, s') \<Longrightarrow> only_own s s'"
  using conn_flush_frame [of D s r s'] by (simp add: only_own_def)

lemma send_loop_own: "send_loop C os s = Some (r, s') \<Longrightarrow> only_own s s'"
  using send_loop_frame [of C os s r s'] by (simp add: only_own_def)

lemma if_Some_own: "(if b then f s else Some (r0, s)) = Some (r, s') \<Longrightarrow>
   (\<And>r s'. f s = Some (r, s') \<Longrightarrow> only_own s s') \<Longrightarrow> only_own s s'"
  by (auto simp: only_own_refl split: if_splits)

lemmas own_rules = update_registration_own recv_inbound_own conn_flush_own send_loop_own

lemma send_outbound_own: "send_outbound C s = Some (r, s') \<Longrightarrow> only_own s s'"
  unfolding send_outbound_def set_writable_def clear_writable_def
  by (erule try_do_only_own, erule send_loop_own)
    (auto simp: only_own_refl split: if_splits elim!: try_do_only_own dest: own_rules)

lemma handle_wake_own: "handle_wake C D s = Some (r, s') \<Longrightarrow> only_own s s'"
  unfolding handle_wake_def
  by (erule try_do_only_own, erule conn_flush_own, erule try_do_only_own, erule send_outbound_own)
    (auto simp: only_own_refl split: if_splits)

lemma handle_event_own: "handle_event C D t readable s = Some (r, s') \<Longrightarrow> only_own s s'"
proof -
  assume h: "handle_event C D t readable s = Some (r, s')"
  show ?thesis
  proof (cases "ctoken (cn s) \<noteq> t")
    case False
    with h show ?thesis unfolding handle_event_def if_not_P [OF False]
      by (elim try_do_only_own)
        (auto simp: only_own_refl Let_def clear_readable_def split: if_splits elim!: try_do_only_own
          dest: own_rules send_outbound_own)
  qed (use h in \<open>simp add: handle_event_def only_own_refl\<close>)
qed

section \<open>Receiving a stream\<close>

text \<open>The pieces that arrive in a script of successful and interrupted receives.\<close>

fun pieces :: "cmsg_abi \<Rightarrow> (byte list \<times> byte list) sys_result list \<Rightarrow> (byte list \<times> handle list) list option" where
  "pieces C [] = Some []"
| "pieces C (SysErr e # os) = (if io_interrupted e then pieces C os else None)"
| "pieces C (SysRet (bs, ctl) # os) = (case decode_handles C ctl of
     Ok hs \<Rightarrow> if bs = [] then None else map_option (Cons (bs, hs)) (pieces C os)
   | _ \<Rightarrow> None)"

lemma pop_handle_length: "length (cb_handles (snd (pop_handle b))) \<le> length (cb_handles b)"
  by (simp add: pop_handle_def split: list.split)

lemma attach_handle_length:
  "attach_handle ops m b = (r, b') \<Longrightarrow> length (cb_handles b') \<le> length (cb_handles b)"
  by (auto simp: attach_handle_def pop_handle_def split: if_splits list.splits prod.splits res.splits)

lemma process_inbound_handles:
  assumes "process_inbound dec ops consume d b = Some y"
  shows "length (cb_handles (snd (snd y))) \<le> length (cb_handles b)"
proof (rule process_inbound.raw_induct [OF _ assms], goal_cases)
  case (1 f dec ops consume d b y)
  obtain q c buf where dec: "dec (codec d) (cb_buf b) = (q, c, buf)" by (metis prod.exhaust)
  show ?case
  proof (cases "\<exists>m. q = Ok (Some m)")
    case True
    then obtain m where q: "q = Ok (Some m)" by blast
    obtain ra b1 where a: "attach_handle ops m (b\<lparr>cb_buf := buf\<rparr>) = (ra, b1)" by (metis prod.exhaust)
    from attach_handle_length [OF a] have "length (cb_handles b1) \<le> length (cb_handles b)" by simp
    with 1(2) q a dec show ?thesis
      by (auto split: res.splits prod.splits dest!: 1(1) elim: le_trans)
  next
    case False
    with 1(2) dec show ?thesis by (auto split: res.splits option.splits)
  qed
qed

text \<open>
  \<open>recv_inbound\<close> up to the receive that would block is \<open>receive_chunks\<close> of the pieces.
\<close>

lemma recv_loop_pieces:
  assumes "pieces C os = Some cs" and "cmsg (io c) = []" and "would_block e"
    and "length (cb_handles (inbound c)) + length (concat (map snd cs)) \<le> HANDLE_QUEUE_LIMIT"
    and "drv_process_inbound D = process_inbound dec ops consume"
    and "receive_chunks dec ops consume cs (driver c) (inbound c) = Some (Ok False, d', b')"
  shows "recv_loop C D (os @ SysErr e # os') c = Some (Ok False, c\<lparr>driver := d', inbound := b'\<rparr>, os')"
  using assms(1,2,4,6)
proof (induction C os arbitrary: c cs rule: pieces.induct)
  case (1 C)
  with assms(3) show ?case by (simp add: recv_msg_def)
next
  case (2 C e' os)
  then have "io_interrupted e'" "pieces C os = Some cs" by (auto split: if_splits)
  moreover from this have "\<not> would_block e'" by (simp add: io_interrupted_def would_block_def)
  ultimately show ?case using 2 by (simp add: recv_msg_def)
next
  case (3 C bs ctl os)
  from 3(2) obtain hs cs' where h: "decode_handles C ctl = Ok hs" "bs \<noteq> []"
    and cs: "pieces C os = Some cs'" "cs = (bs, hs) # cs'"
    by (auto split: res.splits if_splits)
  let ?b = "\<lparr>cb_buf = cb_buf (inbound c) @ bs, cb_handles = cb_handles (inbound c) @ hs\<rparr>"
  have "length (cb_handles (inbound c)) + length hs \<le> HANDLE_QUEUE_LIMIT" using 3(4) cs by simp
  then have m: "recv_msg C (SysRet (bs, ctl)) (io c) (inbound c) = (Ok (length bs), io c, ?b)"
    using 3(3) h by (cases "inbound c") (simp add: recv_msg_def Let_def push_handles_room)
  from 3(5) cs obtain d1 b1 where p: "process_inbound dec ops consume (driver c) ?b = Some (Ok False, d1, b1)"
    and r: "receive_chunks dec ops consume cs' d1 b1 = Some (Ok False, d', b')"
    by (auto split: option.splits prod.splits res.splits bool.splits)
  have "length (cb_handles b1) + length (concat (map snd cs')) \<le> HANDLE_QUEUE_LIMIT"
    using process_inbound_handles [OF p] 3(4) cs by simp
  with 3(1) [OF h(1) h(2) cs(1), of "c\<lparr>driver := d1, inbound := b1\<rparr>"] 3(3) r
  have "recv_loop C D (os @ SysErr e # os') (c\<lparr>driver := d1, inbound := b1\<rparr>)
      = Some (Ok False, c\<lparr>driver := d', inbound := b'\<rparr>, os')" by simp
  then show ?case using m p h assms(5) by (simp add: Let_def)
qed

lemma receive_first_handles:
  "receive_chunks dec ops consume ((bs, hs) # cs) d b =
   receive_chunks dec ops consume ((bs, []) # cs) d (b\<lparr>cb_handles := cb_handles b @ hs\<rparr>)"
  by simp

text \<open>
  \<open>recv_inbound\<close> of a framed driver, on a stream of whole frames and the beginning of another cut
  into pieces at arbitrary places (with interrupted receives between them): every message is
  consumed, in order and with its own handle, when the handles have come with the first piece; the
  call ends when the kernel has no more, with the beginning of the next frame kept.
\<close>

lemma connection_receives_stream':
  assumes frames: "list_all2 (wire_frame bi) ms frs"
    and tail: "tail = [] \<or> (\<exists>m suf. wire_frame bi m (tail @ suf) \<and> suf \<noteq> [])"
    and d: "driver (cn s) = \<lparr>codec = c0, handler = h\<rparr>" "codec_inv c0" "cmsg (io (cn s)) = []"
    and script: "rx s = os @ SysErr e # os'" "pieces C os = Some cs" "cs \<noteq> []" "would_block e"
    and stream: "unread c0 (cb_buf (inbound (cn s))) @ concat (map fst cs) = concat frs @ tail"
    and limit: "length (cb_handles (inbound (cn s))) + length (concat (map snd cs)) \<le> HANDLE_QUEUE_LIMIT"
    and attach: "attach_all ops ms (cb_handles (inbound (cn s)) @ snd (hd cs)) = Some (ms', hs')"
    and consumed: "consume_all consume ms' h = (Ok (), h')"
  shows "\<exists>c'. recv_inbound C (framed_driver_ops bi ops consume bo ops' produce) s
      = Some (Ok False, s\<lparr>cn := c', rx := os'\<rparr>) \<and>
    handler (driver c') = h' \<and> cb_handles (inbound c') = hs' @ concat (map snd (tl cs)) \<and>
    unread (codec (driver c')) (cb_buf (inbound c')) = tail"
proof -
  obtain bs hs cs' where cs: "cs = (bs, hs) # cs'" using script(3) by (metis list.exhaust prod.exhaust)
  let ?b = "inbound (cn s)" and ?D = "framed_driver_ops bi ops consume bo ops' produce"
  have t: "message_codec.incomplete (wire_frame bi) tail"
    unfolding lc.incomplete_def using tail by auto
  from lc.receive_chunks_frames [OF frames, of "driver (cn s)" tail "(bs, []) # cs'"
      "?b\<lparr>cb_handles := cb_handles ?b @ hs\<rparr>" ops ms' hs' consume h'] t d stream attach consumed cs
  obtain c1 buf1 where r: "receive_chunks (decode bi) ops consume cs (driver (cn s)) ?b = Some (Ok False,
      \<lparr>codec = c1, handler = h'\<rparr>, \<lparr>cb_buf = buf1, cb_handles = hs' @ concat (map snd cs')\<rparr>)"
    and u: "unread c1 buf1 = tail"
    by (auto simp del: receive_chunks.simps simp: receive_first_handles [of _ _ _ bs hs])
  have "recv_loop C ?D (os @ SysErr e # os') (cn s) = Some (Ok False,
      (cn s)\<lparr>driver := \<lparr>codec = c1, handler = h'\<rparr>,
        inbound := \<lparr>cb_buf = buf1, cb_handles = hs' @ concat (map snd cs')\<rparr>\<rparr>, os')"
    by (rule recv_loop_pieces [OF script(2) d(3) script(4) limit _ r]) (simp add: framed_driver_ops_def)
  with u cs script(1) show ?thesis
    by (intro exI [of _ "(cn s)\<lparr>driver := \<lparr>codec = c1, handler = h'\<rparr>,
        inbound := \<lparr>cb_buf = buf1, cb_handles = hs' @ concat (map snd cs')\<rparr>\<rparr>"]) (simp add: recv_inbound_def)
qed

section \<open>Sending to the peer\<close>

text \<open>
  Sends that the kernel accepts, in parts of its choosing: everything leaves, and all handles go with
  the first part.
\<close>

lemma send_loop_accepts:
  assumes "send_loop C os s = Some (Ok en, s')" and "list_all (\<lambda>(_, r). \<exists>n. r = SysRet (Suc n)) os"
    and "cb_handles (outbound (cn s)) = []" and "cmsg (io (cn s)) = []"
  shows "\<exists>log. accepted s' = accepted s @ map (\<lambda>bs. (bs, [])) log \<and> concat log = cb_buf (outbound (cn s)) \<and>
    outbound (cn s') = conn_buf_new \<and> driver (cn s') = driver (cn s)"
  using assms
proof (induction os arbitrary: s)
  case Nil
  then show ?case
    by (subst (asm) send_loop.simps, cases "outbound (cn s)")
      (auto simp: conn_buf_is_empty_def conn_buf_new_def split: if_splits)
next
  case (Cons o1 os)
  from Cons.prems(2) obtain mem n where o1: "o1 = (mem, SysRet (Suc n))" by (cases o1) auto
  show ?case
  proof (cases "cb_buf (outbound (cn s)) = []")
    case True
    with Cons.prems show ?thesis
      by (subst (asm) send_loop.simps, cases "outbound (cn s)")
        (auto simp: conn_buf_is_empty_def conn_buf_new_def)
  next
    case False
    let ?b = "cb_buf (outbound (cn s))"
    let ?s1 = "s\<lparr>cn := (cn s)\<lparr>outbound := \<lparr>cb_buf = drop (Suc n) ?b, cb_handles = []\<rparr>\<rparr>,
        accepted := accepted s @ [(take (Suc n) ?b, [])]\<rparr>"
    have p: "(cn s)\<lparr>io := (io (cn s))\<lparr>cmsg := []\<rparr>\<rparr> = cn s" using Cons.prems(4)
      by (cases "cn s"; cases "io (cn s)") simp
    have "Suc n \<le> length ?b" and r: "send_loop C os ?s1 = Some (Ok en, s')"
      using Cons.prems False o1
      by (auto simp: p send_loop.simps [of C "(mem, SysRet (Suc n)) # os"] conn_buf_is_empty_def send_msg_def Let_def split: if_splits)
    from Cons.IH [OF r] Cons.prems obtain log where
      "accepted s' = accepted ?s1 @ map (\<lambda>bs. (bs, [])) log" "concat log = drop (Suc n) ?b"
      "outbound (cn s') = conn_buf_new" "driver (cn s') = driver (cn s)" by auto
    then show ?thesis by (intro exI [of _ "take (Suc n) ?b # log"]) simp
  qed
qed

lemma update_registration_accepted: "update_registration new s = Some (r, s') \<Longrightarrow> accepted s' = accepted s"
  by (auto simp: update_registration_def Let_def split: if_splits prod.splits option.splits)

lemma send_outbound_loop:
  assumes "send_outbound C s = Some (Ok False, s')"
  shows "\<exists>en s2. send_loop C (tx s) s = Some (Ok en, s2) \<and> accepted s' = accepted s2"
  using assms
  by (auto simp: send_outbound_def try_do_Ok_iff set_writable_def clear_writable_def
      split: if_splits dest!: update_registration_accepted)

text \<open>A wake of a server's connection whose sends the kernel accepts, on a clean pipe.\<close>

lemma wake_sends_responses:
  assumes C: "cmsg_abi_contract C" and bc: "bincode_contract id btx brx" "never_panics btx"
    and d: "driver (cn s) = \<lparr>codec = e0, handler = sh\<rparr>" "list_all cm_sendable (responses sh)"
    and clean: "outbound (cn s) = conn_buf_new" "cmsg (io (cn s)) = []" "accepted s = []"
    and fds: "fds_ok (handles_of client_message_handles (responses sh))"
    and tx: "tx s = (mem, SysRet (Suc n)) # os" "list_all (\<lambda>(_, r). \<exists>n. r = SysRet (Suc n)) os"
      "CMSG_SPACE C (4 * length (handles_of client_message_handles (responses sh))) \<le> length mem"
    and wake: "handle_wake C (framed_driver_ops bi ops consume (client_message_tx btx) client_message_handles
        server_produce) s = Some (Ok False, s1)"
    and ne: "responses sh \<noteq> []"
  shows "\<exists>frs b0 ctl log.
    list_all2 (wire_frame (client_message_rx brx)) (map (on_wire client_message_handles cm_seen) (responses sh)) frs \<and>
    accepted s1 = (b0, ctl) # map (\<lambda>bs. (bs, [])) log \<and> b0 @ concat log = concat frs \<and>
    decode_handles C ctl = Ok (handles_of client_message_handles (responses sh))"
proof -
  let ?hs = "handles_of client_message_handles (responses sh)"
  from wake obtain s0 where fl: "conn_flush_outbound (framed_driver_ops bi ops consume (client_message_tx btx)
      client_message_handles server_produce) s = Some (Ok (), s0)"
    and so: "send_outbound C s0 = Some (Ok False, s1)"
    by (auto simp: handle_wake_def try_do_Ok_iff split: if_splits)
  then obtain d' b' where f: "flush_outbound (encode (client_message_tx btx)) client_message_handles server_produce
      \<lparr>codec = e0, handler = sh\<rparr> conn_buf_new = Some (Ok (), d', b')"
    and s0: "s0 = s\<lparr>cn := (cn s)\<lparr>driver := d', outbound := b'\<rparr>\<rparr>"
    using d(1) clean(1) by (auto simp: conn_flush_outbound_def framed_driver_ops_def)
  note link = client_message_link [OF bc sh.rpc_handler_axioms, of undefined]
  from framed_link.flush_outbound_result [OF link _ _ _ f] d(2) obtain frs where
    fr: "cb_buf b' = concat frs" "cb_handles b' = ?hs"
      "list_all2 (wire_frame (client_message_rx brx)) (map (on_wire client_message_handles cm_seen) (responses sh)) frs"
    by (auto simp: conn_buf_new_def)
  have b': "cb_buf b' \<noteq> []"
    using fr(1,3) ne by (cases "responses sh"; cases frs) (auto dest!: wire_frame_nonempty simp: HEADER_LEN_def)
  from send_control [OF C, of b' mem "io (cn s)"] fds tx(3) b' fr(2) obtain enc where
    ctl: "control_for C ?hs enc"
    and snd: "\<And>n. n \<le> length (cb_buf b') \<Longrightarrow> send_msg C mem (SysRet n) (io (cn s)) b' =
        (Ok n, (io (cn s))\<lparr>cmsg := []\<rparr>, \<lparr>cb_buf = drop n (cb_buf b'), cb_handles = []\<rparr>, Some (cb_buf b', enc))"
    using clean(2) by (metis append_Nil)
  let ?s2 = "\<lambda>k. s0\<lparr>cn := (cn s0)\<lparr>io := (io (cn s))\<lparr>cmsg := []\<rparr>,
      outbound := \<lparr>cb_buf = drop k (cb_buf b'), cb_handles = []\<rparr>\<rparr>, accepted := [(take k (cb_buf b'), enc)]\<rparr>"
  from send_outbound_loop [OF so] obtain en s2 where
    l: "send_loop C ((mem, SysRet (Suc n)) # os) s0 = Some (Ok en, s2)" and acc: "accepted s1 = accepted s2"
    using s0 tx(1) by auto
  have n: "Suc n \<le> length (cb_buf b')"
  proof (rule ccontr)
    assume "\<not> Suc n \<le> length (cb_buf b')"
    then obtain p b k where "send_msg C mem (SysRet (Suc n)) (io (cn s)) b' = (Panic, p, b, k)"
      using snd [of 0] by (auto simp: send_msg_def Let_def split: res.splits if_splits)
    then show False using l s0 b'
      by (simp add: send_loop.simps [of C "(mem, SysRet (Suc n)) # os"] conn_buf_is_empty_def Let_def)
  qed
  then have "send_loop C os (?s2 (Suc n)) = Some (Ok en, s2)"
    using l snd [OF n] s0 b' clean(3)
    by (simp add: send_loop.simps [of C "(mem, SysRet (Suc n)) # os"] conn_buf_is_empty_def Let_def)
  from send_loop_accepts [OF this tx(2)] have "\<exists>log. accepted s2 =
      (take (Suc n) (cb_buf b'), enc) # map (\<lambda>bs. (bs, [])) log \<and> concat log = drop (Suc n) (cb_buf b')"
    by (simp, blast)
  then obtain log where log: "accepted s2 = (take (Suc n) (cb_buf b'), enc) # map (\<lambda>bs. (bs, [])) log"
    and "concat log = drop (Suc n) (cb_buf b')" by blast
  then have "take (Suc n) (cb_buf b') @ concat log = concat frs" using fr(1) by simp
  with acc log fr(3) control_for_decode [OF C ctl] show ?thesis by metis
qed

lemma drained: "cb_handles b = [] \<Longrightarrow> unread c (cb_buf b) = [] \<Longrightarrow> b = conn_buf_new"
  by (cases b) (auto simp: conn_buf_new_def unread_def header_def split: codec_state.splits)

text \<open>
  What the kernel does with the accepted sends: the byte stream arrives cut into other pieces, and
  the descriptors of the first control data arrive, renamed, with the first piece.
\<close>

definition kernel_delivers :: "cmsg_abi \<Rightarrow> (byte list \<times> byte list) list \<Rightarrow> (byte list \<times> handle list) list \<Rightarrow> bool" where
  "kernel_delivers C log cs \<longleftrightarrow> log \<noteq> [] \<and> cs \<noteq> [] \<and> concat (map fst cs) = concat (map fst log) \<and>
     (case decode_handles C (snd (hd log)) of Ok hs \<Rightarrow> length (snd (hd cs)) = length hs | _ \<Rightarrow> False) \<and>
     list_all valid_handle (snd (hd cs)) \<and> list_all (\<lambda>(_, hs). hs = []) (tl cs)"

text \<open>
  C6: the responses a server's handler has ready when its connection is woken are, when the kernel
  accepts them and delivers the stream in whatever pieces, consumed by the client's handler: all of
  them, once, in order, each with the descriptor that belongs to it.
\<close>

theorem responses_reach_client:
  assumes "cmsg_abi_contract C" and "bincode_contract id btx brx" and "never_panics btx"
    and "driver (cn s) = \<lparr>codec = e0, handler = sh\<rparr>" and "list_all cm_sendable (responses sh)"
    and "outbound (cn s) = conn_buf_new" and "cmsg (io (cn s)) = []" and "accepted s = []"
    and fds: "fds_ok (handles_of client_message_handles (responses sh))"
    and "tx s = (mem, SysRet (Suc n)) # os" and "list_all (\<lambda>(_, r). \<exists>n. r = SysRet (Suc n)) os"
    and "CMSG_SPACE C (4 * length (handles_of client_message_handles (responses sh))) \<le> length mem"
    and "handle_wake C (framed_driver_ops bi ops consume (client_message_tx btx) client_message_handles
        server_produce) s = Some (Ok False, s1)"
    and "responses sh \<noteq> []"
    and c: "driver (cn c) = \<lparr>codec = c0, handler = h\<rparr>" "codec_inv c0" "cmsg (io (cn c)) = []"
      "unread c0 (cb_buf (inbound (cn c))) = []" "cb_handles (inbound (cn c)) = []"
    and script: "rx c = rs @ SysErr e # rs'" "pieces C rs = Some cs" "would_block e"
    and kernel: "kernel_delivers C (accepted s1) cs"
    and consumed: "consume_all consume' (received_all client_message_handles cm_received (responses sh)
        (snd (hd cs))) h = (Ok (), h')"
  shows "\<exists>c'. recv_inbound C (framed_driver_ops (client_message_rx brx) client_message_handles consume'
        bo ops' produce') c = Some (Ok False, c\<lparr>cn := c', rx := rs'\<rparr>) \<and>
      handler (driver c') = h' \<and> inbound c' = conn_buf_new"
proof -
  from wake_sends_responses [OF assms(1-14)] obtain frs b0 ctl log where
    frs: "list_all2 (wire_frame (client_message_rx brx)) (map (on_wire client_message_handles cm_seen) (responses sh)) frs"
    and acc: "accepted s1 = (b0, ctl) # map (\<lambda>bs. (bs, [])) log" "b0 @ concat log = concat frs"
    and ctl: "decode_handles C ctl = Ok (handles_of client_message_handles (responses sh))"
    by metis
  let ?hs' = "snd (hd cs)"
  from kernel acc ctl have k: "cs \<noteq> []" "concat (map fst cs) = concat frs"
    "length ?hs' = length (handles_of client_message_handles (responses sh))"
    "list_all valid_handle ?hs'" "list_all (\<lambda>(_, hs). hs = []) (tl cs)"
    by (auto simp: kernel_delivers_def comp_def)
  from k(5) have "concat (map snd (tl cs)) = []" by (induction "tl cs") (auto simp: list_all_iff)
  with k(1) have all: "concat (map snd cs) = ?hs'" "concat (map snd (tl cs)) = []" by (cases cs; simp)+
  note link = client_message_link [OF assms(2,3) sh.rpc_handler_axioms, of undefined]
  have attach: "attach_all client_message_handles (map (on_wire client_message_handles cm_seen) (responses sh))
      (cb_handles (inbound (cn c)) @ ?hs') = Some (received_all client_message_handles cm_received (responses sh) ?hs', [])"
    using framed_link.attach_on_wire [OF link assms(5) k(3,4)] c(5) by simp
  have "\<exists>c'. recv_inbound C (framed_driver_ops (client_message_rx brx) client_message_handles consume'
        bo ops' produce') c = Some (Ok False, c\<lparr>cn := c', rx := rs'\<rparr>) \<and>
      handler (driver c') = h' \<and> cb_handles (inbound c') = [] @ concat (map snd (tl cs)) \<and>
      unread (codec (driver c')) (cb_buf (inbound c')) = []"
    by (rule connection_receives_stream' [OF frs _ c(1-3) script(1,2) k(1) script(3) _ _ attach consumed])
      (use c all k fds in \<open>simp_all add: fds_ok_def\<close>)
  then show ?thesis unfolding all(2) append_Nil using drained by metis
qed

text \<open>
  One response with a handle: the server's connection is woken, its 13 bytes are accepted at once and
  received in two pieces, and the client's handler collects what it gets.
\<close>

definition demo_server :: "(lcodec, (unit, serializable_handle client_message) server_handler) framed_driver conn_st" where
  "demo_server = \<lparr>
     cn = \<lparr>io = pipe_new, ctoken = 0, interest = Some READABLE, inbound = conn_buf_new,
       outbound = conn_buf_new,
       driver = \<lparr>codec = lcodec_default, handler = \<lparr>server = (), responses = [demo_response]\<rparr>\<rparr>\<rparr>,
     rg = \<lparr>reg_outcomes = [], reg_log = []\<rparr>, rx = [],
     tx = [(replicate 24 0, SysRet (Suc 12))], accepted = []\<rparr>"

abbreviation demo_server_ops ::
  "(lcodec, (unit, serializable_handle client_message) server_handler) framed_driver driver_ops" where
  "demo_server_ops \<equiv> framed_driver_ops raw_bincode default_handle_ops (\<lambda>_ h. (Ok (), h))
     (client_message_tx demo_wire) client_message_handles server_produce"

definition demo_client_conn ::
  "(byte list \<times> byte list) sys_result list \<Rightarrow> (lcodec, serializable_handle client_message list) framed_driver conn_st" where
  "demo_client_conn script = \<lparr>
     cn = \<lparr>io = pipe_new, ctoken = 0, interest = Some READABLE, inbound = conn_buf_new,
       outbound = conn_buf_new, driver = \<lparr>codec = lcodec_default, handler = []\<rparr>\<rparr>,
     rg = \<lparr>reg_outcomes = [], reg_log = []\<rparr>, rx = script, tx = [], accepted = []\<rparr>"

lemma demo_server_flush:
  "\<exists>d'. flush_outbound (encode (client_message_tx demo_wire)) client_message_handles server_produce
     \<lparr>codec = lcodec_default, handler = \<lparr>server = (), responses = [demo_response]\<rparr>\<rparr> conn_buf_new
   = Some (Ok (), d', \<lparr>cb_buf = frame [0], cb_handles = [7]\<rparr>)"
  by (subst flush_outbound.simps)
    (subst flush_outbound.simps, simp add: server_produce_def demo_response_def conn_buf_new_def
      detach_handle_def client_message_handles_def cm_has_associated_handle_def cm_take_handle_def
      take_handle_for_send_def push_handle_def HANDLE_QUEUE_LIMIT_def encode_def client_message_tx_def
      handle_panics_def get_serializable_value_def i64_of_handle_def INVALID_HANDLE_VALUE_def
      table_bincode_def Let_def frame_def header_def)

lemma demo_server_wake:
  "\<exists>s1 enc. handle_wake linux_cmsg demo_server_ops demo_server = Some (Ok False, s1) \<and>
     accepted s1 = [(frame [0], enc)] \<and> decode_handles linux_cmsg enc = Ok [7]"
proof -
  obtain d' where f: "flush_outbound (encode (client_message_tx demo_wire)) client_message_handles server_produce
     \<lparr>codec = lcodec_default, handler = \<lparr>server = (), responses = [demo_response]\<rparr>\<rparr> conn_buf_new
     = Some (Ok (), d', \<lparr>cb_buf = frame [0], cb_handles = [7]\<rparr>)" using demo_server_flush by blast
  have l: "length (frame [0::byte]) = 13" by (simp add: HEADER_LEN_def)
  then have ne: "frame [0] \<noteq> []" by (metis list.size(3) zero_neq_numeral)
  have fds: "fds_ok [7]" by (simp add: fds_ok_def HANDLE_QUEUE_LIMIT_def c_int_range_def)
  have "CMSG_SPACE linux_cmsg (4 * length [7::handle]) \<le> length (replicate 24 (0::byte))"
    by (simp add: linux_space)
  from encode_decode_handles [OF linux_cmsg_contract fds this] obtain enc where
    enc: "encode_handles linux_cmsg (replicate 24 0) [] [7] = Ok enc"
    and dec: "decode_handles linux_cmsg enc = Ok [7]" by (metis append_Nil append_Nil2)
  have "send_msg linux_cmsg (replicate 24 0) (SysRet 13) pipe_new \<lparr>cb_buf = frame [0], cb_handles = [7]\<rparr>
      = (Ok 13, pipe_new, \<lparr>cb_buf = [], cb_handles = []\<rparr>, Some (frame [0], enc))"
    using enc ne l by (simp add: send_msg_def pipe_new_def Let_def del: replicate.simps)
  with f ne dec show ?thesis
    by (simp add: handle_wake_def conn_flush_outbound_def demo_server_def framed_driver_ops_def
        send_outbound_def send_loop.simps conn_buf_is_empty_def clear_writable_def
        update_registration_def Let_def HEADER_LEN_def)
qed

theorem responses_reach_client_witness:
  "\<exists>s1 rs. handle_wake linux_cmsg demo_server_ops demo_server = Some (Ok False, s1) \<and>
     (\<exists>c' os. recv_inbound linux_cmsg (framed_driver_ops (client_message_rx demo_wire) client_message_handles
        (\<lambda>m h. (Ok (), h @ [m])) raw_bincode default_handle_ops (\<lambda>h. (Ok None, h))) (demo_client_conn rs)
        = Some (Ok False, os) \<and> handler (driver c') = [StreamInitialized (Owned 9 None)] \<and>
        cn os = c' \<and> inbound c' = conn_buf_new)"
proof -
  obtain s1 enc where w: "handle_wake linux_cmsg demo_server_ops demo_server = Some (Ok False, s1)"
    and log: "accepted s1 = [(frame [0], enc)]" "decode_handles linux_cmsg enc = Ok [7]"
    using demo_server_wake by blast
  have ok: "fds_ok [9]" by (simp add: fds_ok_def HANDLE_QUEUE_LIMIT_def c_int_range_def)
  have "CMSG_SPACE linux_cmsg (4 * length [9::handle]) \<le> length (replicate 24 (0::byte))"
    by (simp add: linux_space)
  from encode_decode_handles [OF linux_cmsg_contract ok this] obtain ctl where
    ctl: "decode_handles linux_cmsg ctl = Ok [9]" by (metis append_Nil2)
  let ?cs = "[(take 5 (frame [0]), [9]), (drop 5 (frame [0]), [])]"
  let ?rs = "[SysRet (take 5 (frame [0]), ctl), SysErr (IoError Interrupted ''''), SysRet (drop 5 (frame [0]), [])]"
  let ?c = "demo_client_conn (?rs @ [SysErr (IoError WouldBlock '''')])"
  have l: "length (frame [0::byte]) = 13" by (simp add: HEADER_LEN_def)
  then have "frame [0] \<noteq> []" by (metis list.size(3) zero_neq_numeral)
  with l have ne: "take 5 (frame [0]) \<noteq> []" "drop 5 (frame [0]) \<noteq> []" by simp_all
  have pieces: "pieces linux_cmsg ?rs = Some ?cs"
    using ne ctl decode_no_handles [OF linux_cmsg_contract] by (simp add: io_interrupted_def)
  have kernel: "kernel_delivers linux_cmsg (accepted s1) ?cs"
    by (simp add: kernel_delivers_def log valid_handle_def)
  have h: "handles_of client_message_handles [demo_response] = [7]" by (simp add: demo_response_ops)
  have recv: "has_associated_handle client_message_handles demo_response"
    "cm_received demo_response 9 = StreamInitialized (Owned 9 None)"
    by (simp_all add: demo_response_def client_message_handles_def cm_handle_simps)
  have "\<exists>c'. recv_inbound linux_cmsg (framed_driver_ops (client_message_rx demo_wire) client_message_handles
        (\<lambda>m h. (Ok (), h @ [m])) raw_bincode default_handle_ops (\<lambda>h. (Ok None, h))) ?c
      = Some (Ok False, ?c\<lparr>cn := c', rx := []\<rparr>) \<and>
      handler (driver c') = [StreamInitialized (Owned 9 None)] \<and> inbound c' = conn_buf_new"
    by (rule responses_reach_client [where s = demo_server and ?e0.0 = lcodec_default and ?c0.0 = lcodec_default
          and sh = "\<lparr>server = (), responses = [demo_response]\<rparr>" and mem = "replicate 24 0" and n = 12
          and os = "[]" and c = ?c and h = "[]" and e = "IoError WouldBlock ''''",
          OF linux_cmsg_contract table_bincode_contract table_bincode_safe
          _ _ _ _ _ _ _ _ _ w _ _ _ _ _ _ _ pieces _ kernel])
      (simp_all add: demo_server_def demo_client_conn_def demo_response_ops h recv conn_buf_new_def
        pipe_new_def linux_space lcodec_default_def codec_inv_def would_block_def fds_ok_def
        HANDLE_QUEUE_LIMIT_def c_int_range_def del: replicate.simps)
  with w show ?thesis by force
qed

end
