(* ===== verification/EventLoop.thy ===== *)
theory EventLoop
  imports Connection
begin

text \<open>
  \<open>EventLoop\<close>, \<open>EventLoopHandle\<close> and \<open>EventLoopThread\<close> of \<open>audioipc/src/ipccore.rs\<close>.  The loop owns
  the connections in a slab, whose keys are their tokens; other threads reach it through a bounded
  request queue.  One call of \<open>poll\<close> handles the readiness events it is given, then the queued
  requests.  What the kernel does to a connection while it is handled is the script that comes with
  the event (or, for a wake, the next of \<open>wakes\<close>); a channel of \<open>mpsc\<close> is a number, the results sent
  over channels are logged, and \<open>hung_up\<close> holds the channels whose receiver is gone.
\<close>

section \<open>State\<close>

datatype 'd request = AddConnection pipe 'd "nat option" | Shutdown | WakeConnection nat

record ('s, 'q) event_loop =
  connections :: 's
  loop_requests :: "'q request_queue"
  loop_registry :: registry
  sent_results :: "(nat \<times> (io_error, nat) res) list"
  hung_up :: "nat set"

definition WAKE_TOKEN :: nat where
  "WAKE_TOKEN = 2 ^ 64 - 1"

definition EVENT_LOOP_INITIAL_CLIENTS :: nat where
  "EVENT_LOOP_INITIAL_CLIENTS = 64"

text \<open>\<open>EventLoop::new\<close>; the two results are those of creating the poll and the waker.\<close>

definition event_loop_new ::
  "('s, 'd connection) slab \<Rightarrow> ('q, 'd request) array_queue \<Rightarrow> io_error option \<Rightarrow> io_error option \<Rightarrow>
   (io_error, ('s, 'q) event_loop) res" where
  "event_loop_new S Q poll_new waker_new = (case poll_new of Some e \<Rightarrow> Err e | None \<Rightarrow>
     (case waker_new of Some e \<Rightarrow> Err e | None \<Rightarrow>
        Ok \<lparr>connections = sl_new S, loop_requests = rq_new Q EVENT_LOOP_INITIAL_CLIENTS,
          loop_registry = \<lparr>reg_outcomes = [], reg_log = []\<rparr>, sent_results = [], hung_up = {}\<rparr>))"

definition event_loop_handle :: "('s, 'q) event_loop \<Rightarrow> ('s, 'q) event_loop" where
  "event_loop_handle el = el\<lparr>loop_requests := new_sender (loop_requests el)\<rparr>"

section \<open>Connections of the loop\<close>

definition add_connection ::
  "('s, 'd connection) slab \<Rightarrow> pipe \<Rightarrow> 'd \<Rightarrow> ('s, 'q) event_loop \<Rightarrow> (io_error, nat) res \<times> ('s, 'q) event_loop" where
  "add_connection S p d el =
     (let tok = sl_vacant_key S (connections el) in
      if tok = WAKE_TOKEN then (Panic, el)
      else case connection_new p tok d (loop_registry el) of
        (Ok c, reg) \<Rightarrow> (Ok tok, el\<lparr>connections := sl_insert S (connections el) c, loop_registry := reg\<rparr>)
      | (Err e, reg) \<Rightarrow> (Err e, el\<lparr>loop_registry := reg\<rparr>)
      | (Panic, reg) \<Rightarrow> (Panic, el\<lparr>loop_registry := reg\<rparr>))"

definition remove_connection ::
  "('s, 'd connection) slab \<Rightarrow> nat \<Rightarrow> ('s, 'q) event_loop \<Rightarrow> ('s, 'q) event_loop" where
  "remove_connection S tok el = (case sl_get S (connections el) tok of
     None \<Rightarrow> el
   | Some c \<Rightarrow> (case connection_shutdown c (loop_registry el) of
       (_, _, reg) \<Rightarrow> el\<lparr>connections := sl_remove S (connections el) tok, loop_registry := reg\<rparr>))"

text \<open>
  What \<open>poll\<close> does for the connection of an event or a wake: nothing if the token is unknown,
  otherwise run its handler, and remove it when it is done or has failed.
\<close>

definition run_connection ::
  "('s, 'd connection) slab \<Rightarrow> nat \<Rightarrow> ('d conn_st \<Rightarrow> ((io_error, bool) res \<times> 'd conn_st) option) \<Rightarrow>
   (byte list \<times> byte list) sys_result list \<times> (byte list \<times> nat sys_result) list \<Rightarrow>
   ('s, 'q) event_loop \<Rightarrow> ((io_error, unit) res \<times> ('s, 'q) event_loop) option" where
  "run_connection S tok run script el = (case sl_get S (connections el) tok of
     None \<Rightarrow> Some (Ok (), el)
   | Some c \<Rightarrow>
       (case run \<lparr>cn = c, rg = loop_registry el, rx = fst script, tx = snd script, accepted = []\<rparr> of
          None \<Rightarrow> None
        | Some (r, s) \<Rightarrow>
            let el' = el\<lparr>connections := sl_set S (connections el) tok (cn s), loop_registry := rg s\<rparr> in
            (case r of
               Panic \<Rightarrow> Some (Panic, el')
             | Ok done \<Rightarrow> Some (Ok (), if done then remove_connection S tok el' else el')
             | Err _ \<Rightarrow> Some (Ok (), remove_connection S tok el'))))"

section \<open>One step of the loop\<close>

text \<open>Waiting for events: interrupted waits are repeated (\<open>None\<close>: no wait has ended yet).\<close>

fun poll_wait :: "io_error option list \<Rightarrow> (io_error, unit) res option" where
  "poll_wait [] = None"
| "poll_wait (None # rs) = Some (Ok ())"
| "poll_wait (Some e # rs) = (if io_interrupted e then poll_wait rs else Some (Err e))"

record event =
  ev_token :: nat
  ev_readable :: bool
  ev_script :: "(byte list \<times> byte list) sys_result list \<times> (byte list \<times> nat sys_result) list"

fun process_events ::
  "cmsg_abi \<Rightarrow> 'd driver_ops \<Rightarrow> ('s, 'd connection) slab \<Rightarrow> event list \<Rightarrow> ('s, 'q) event_loop \<Rightarrow>
   ((io_error, unit) res \<times> ('s, 'q) event_loop) option" where
  "process_events C D S [] el = Some (Ok (), el)"
| "process_events C D S (ev # evs) el =
     (if ev_token ev = WAKE_TOKEN then process_events C D S evs el
      else try_do (run_connection S (ev_token ev) (handle_event C D (ev_token ev) (ev_readable ev))
             (ev_script ev) el) (\<lambda>_ el. process_events C D S evs el))"

definition send_result ::
  "nat option \<Rightarrow> (io_error, nat) res \<Rightarrow> ('s, 'q) event_loop \<Rightarrow> (io_error, unit) res \<times> ('s, 'q) event_loop" where
  "send_result ch r el = (case ch of
     None \<Rightarrow> (Ok (), el)
   | Some c \<Rightarrow> if c \<in> hung_up el then (Panic, el)
               else (Ok (), el\<lparr>sent_results := sent_results el @ [(c, r)]\<rparr>))"

text \<open>The queued requests, up to the first \<open>Shutdown\<close>: the result says whether to go on.\<close>

partial_function (option) process_requests ::
  "cmsg_abi \<Rightarrow> 'd driver_ops \<Rightarrow> ('s, 'd connection) slab \<Rightarrow> ('q, 'd request) array_queue \<Rightarrow>
   ((byte list \<times> byte list) sys_result list \<times> (byte list \<times> nat sys_result) list) list \<Rightarrow>
   ('s, 'q) event_loop \<Rightarrow> ((io_error, bool) res \<times> ('s, 'q) event_loop) option" where
  "process_requests C D S Q wakes el = (case rq_pop Q (loop_requests el) of
     (None, rq) \<Rightarrow> Some (Ok True, el\<lparr>loop_requests := rq\<rparr>)
   | (Some req, rq) \<Rightarrow>
       let el = el\<lparr>loop_requests := rq\<rparr> in
       (case req of
          AddConnection p d ch \<Rightarrow>
            (case add_connection S p d el of (r, el) \<Rightarrow>
               if r = Panic then Some (Panic, el)
               else case send_result ch r el of
                 (Ok _, el) \<Rightarrow> process_requests C D S Q wakes el
               | (Err e, el) \<Rightarrow> Some (Err e, el)
               | (Panic, el) \<Rightarrow> Some (Panic, el))
        | Shutdown \<Rightarrow> Some (Ok False, el)
        | WakeConnection tok \<Rightarrow>
            (case run_connection S tok (handle_wake C D) (if wakes = [] then ([], []) else hd wakes) el of
               None \<Rightarrow> None
             | Some (r, el) \<Rightarrow> (case r of
                 Ok _ \<Rightarrow> process_requests C D S Q (tl wakes) el
               | Err e \<Rightarrow> Some (Err e, el)
               | Panic \<Rightarrow> Some (Panic, el)))))"

definition poll ::
  "cmsg_abi \<Rightarrow> 'd driver_ops \<Rightarrow> ('s, 'd connection) slab \<Rightarrow> ('q, 'd request) array_queue \<Rightarrow>
   io_error option list \<Rightarrow> event list \<Rightarrow>
   ((byte list \<times> byte list) sys_result list \<times> (byte list \<times> nat sys_result) list) list \<Rightarrow>
   ('s, 'q) event_loop \<Rightarrow> ((io_error, bool) res \<times> ('s, 'q) event_loop) option" where
  "poll C D S Q waits events wakes el = (case poll_wait waits of
     None \<Rightarrow> None
   | Some r \<Rightarrow> try_do (Some (r, el)) (\<lambda>_ el.
       try_do (process_events C D S events el) (\<lambda>_ el. process_requests C D S Q wakes el)))"

text \<open>\<open>Drop for EventLoop\<close> shuts every connection down; the queue goes with it.\<close>

definition event_loop_drop ::
  "('s, 'd connection) slab \<Rightarrow> ('q, 'd request) array_queue \<Rightarrow> ('s, 'q) event_loop \<Rightarrow> ('s, 'q) event_loop" where
  "event_loop_drop S Q el =
     (let el' = fold (\<lambda>tok el. case sl_get S (connections el) tok of
           None \<Rightarrow> el
         | Some c \<Rightarrow> (case connection_shutdown c (loop_registry el) of (_, c', reg) \<Rightarrow>
             el\<lparr>connections := sl_set S (connections el) tok c', loop_registry := reg\<rparr>)) (sl_keys S (connections el)) el
      in el'\<lparr>connections := sl_new S,
           loop_requests := (loop_requests el')\<lparr>live := False, queue := aq_new Q 0\<rparr>\<rparr>)"

section \<open>Handles and threads\<close>

text \<open>
  The other threads' side.  A call that pushes a request and wakes the loop takes the result of
  waking (\<open>None\<close>: it succeeded); \<open>io_aborted\<close> is the error of a refused push.
\<close>

definition push_request ::
  "('q, 'd request) array_queue \<Rightarrow> 'd request \<Rightarrow> io_error option \<Rightarrow> ('s, 'q) event_loop \<Rightarrow>
   (io_error, unit) res \<times> ('s, 'q) event_loop" where
  "push_request Q req waker el = (case sender_push Q (loop_requests el) req of
     (Ok _, rq) \<Rightarrow> (case waker of None \<Rightarrow> Ok () | Some e \<Rightarrow> Err e, el\<lparr>loop_requests := rq\<rparr>)
   | (Err _, rq) \<Rightarrow> (Err io_aborted, el\<lparr>loop_requests := rq\<rparr>)
   | (Panic, rq) \<Rightarrow> (Panic, el\<lparr>loop_requests := rq\<rparr>))"

definition handle_shutdown ::
  "('q, 'd request) array_queue \<Rightarrow> io_error option \<Rightarrow> ('s, 'q) event_loop \<Rightarrow>
   (io_error, unit) res \<times> ('s, 'q) event_loop" where
  "handle_shutdown Q waker el = push_request Q Shutdown waker el"

text \<open>Errors of \<open>wake_connection\<close> are ignored.\<close>

definition handle_wake_connection ::
  "('q, 'd request) array_queue \<Rightarrow> nat \<Rightarrow> io_error option \<Rightarrow> ('s, 'q) event_loop \<Rightarrow> ('s, 'q) event_loop" where
  "handle_wake_connection Q tok waker el = snd (push_request Q (WakeConnection tok) waker el)"

definition assert_not_in_event_loop_thread :: "nat option \<Rightarrow> nat \<Rightarrow> bool" where
  "assert_not_in_event_loop_thread in_eventloop current \<longleftrightarrow> in_eventloop \<noteq> Some current"

definition handle_add_connection_async ::
  "('q, 'd request) array_queue \<Rightarrow> nat option \<Rightarrow> nat \<Rightarrow> pipe \<Rightarrow> 'd \<Rightarrow> io_error option \<Rightarrow>
   ('s, 'q) event_loop \<Rightarrow> (io_error, unit) res \<times> ('s, 'q) event_loop" where
  "handle_add_connection_async Q in_eventloop current p d waker el =
     (if \<not> assert_not_in_event_loop_thread in_eventloop current then (Panic, el)
      else push_request Q (AddConnection p d None) waker el)"

text \<open>
  The blocking variant up to the wait on its channel; a failure drops the channel's receiver.  The
  wait ends with the result sent, or when the loop is gone.
\<close>

definition handle_add_connection ::
  "('q, 'd request) array_queue \<Rightarrow> nat option \<Rightarrow> nat \<Rightarrow> nat \<Rightarrow> pipe \<Rightarrow> 'd \<Rightarrow> io_error option \<Rightarrow>
   ('s, 'q) event_loop \<Rightarrow> (io_error, unit) res \<times> ('s, 'q) event_loop" where
  "handle_add_connection Q in_eventloop current ch p d waker el =
     (if \<not> assert_not_in_event_loop_thread in_eventloop current then (Panic, el)
      else case push_request Q (AddConnection p d (Some ch)) waker el of
        (Ok _, el') \<Rightarrow> (Ok (), el')
      | (Err e, el') \<Rightarrow> (Err e, el'\<lparr>hung_up := insert ch (hung_up el')\<rparr>)
      | (Panic, el') \<Rightarrow> (Panic, el'))"

definition await_result :: "nat \<Rightarrow> ('s, 'q) event_loop \<Rightarrow> (io_error, nat) res option" where
  "await_result ch el = (case map_of (sent_results el) ch of
     Some r \<Rightarrow> Some r
   | None \<Rightarrow> if live (loop_requests el) then None else Some (Err io_aborted))"

text \<open>
  Binding a client or a server: the driver of a new handler (boxed, so that it becomes one of the
  loop's drivers) is registered; a client's proxy is then connected to the token.
\<close>

definition bind_client ::
  "('q, 'd request) array_queue \<Rightarrow> ('p, 'm \<times> addr) array_queue \<Rightarrow> 'r store \<Rightarrow>
   ((lcodec, ('p, 'r) client_end) framed_driver \<Rightarrow> 'd) \<Rightarrow> nat option \<Rightarrow> nat \<Rightarrow> nat \<Rightarrow> pipe \<Rightarrow> io_error option \<Rightarrow>
   ('s, 'q) event_loop \<Rightarrow> (io_error, unit) res \<times> ('s, 'q) event_loop" where
  "bind_client Q P st boxed in_eventloop current ch p waker el =
     handle_add_connection Q in_eventloop current ch p (boxed (framed_driver_new (make_client P st))) waker el"

definition bind_client_proxy :: "(io_error, nat) res \<Rightarrow> (io_error, nat option) res" where
  "bind_client_proxy r = map_ok Some r"

definition bind_server ::
  "('q, 'd request) array_queue \<Rightarrow> 'v \<Rightarrow> ((lcodec, ('v, 'r) server_handler) framed_driver \<Rightarrow> 'd) \<Rightarrow>
   nat option \<Rightarrow> nat \<Rightarrow> nat \<Rightarrow> pipe \<Rightarrow> io_error option \<Rightarrow>
   ('s, 'q) event_loop \<Rightarrow> (io_error, unit) res \<times> ('s, 'q) event_loop" where
  "bind_server Q srv boxed in_eventloop current ch p waker el =
     handle_add_connection Q in_eventloop current ch p (boxed (framed_driver_new (make_server srv))) waker el"

definition bind_server_async ::
  "('q, 'd request) array_queue \<Rightarrow> 'v \<Rightarrow> ((lcodec, ('v, 'r) server_handler) framed_driver \<Rightarrow> 'd) \<Rightarrow>
   nat option \<Rightarrow> nat \<Rightarrow> pipe \<Rightarrow> io_error option \<Rightarrow>
   ('s, 'q) event_loop \<Rightarrow> (io_error, unit) res \<times> ('s, 'q) event_loop" where
  "bind_server_async Q srv boxed in_eventloop current p waker el =
     handle_add_connection_async Q in_eventloop current p (boxed (framed_driver_new (make_server srv))) waker el"

text \<open>The thread of a loop polls until a poll fails or reports a shutdown (one entry per poll).\<close>

fun thread_loop ::
  "cmsg_abi \<Rightarrow> 'd driver_ops \<Rightarrow> ('s, 'd connection) slab \<Rightarrow> ('q, 'd request) array_queue \<Rightarrow>
   (io_error option list \<times> event list \<times>
    ((byte list \<times> byte list) sys_result list \<times> (byte list \<times> nat sys_result) list) list) list \<Rightarrow>
   ('s, 'q) event_loop \<Rightarrow> ((io_error, unit) res \<times> ('s, 'q) event_loop) option" where
  "thread_loop C D S Q [] el = None"
| "thread_loop C D S Q ((waits, events, wakes) # rounds) el =
     (case poll C D S Q waits events wakes el of
        None \<Rightarrow> None
      | Some (r, el) \<Rightarrow> (case r of
          Ok True \<Rightarrow> thread_loop C D S Q rounds el
        | Ok False \<Rightarrow> Some (Ok (), el)
        | Err e \<Rightarrow> Some (Err e, el)
        | Panic \<Rightarrow> Some (Panic, el)))"

text \<open>
  \<open>Drop for EventLoopThread\<close>: ask for the shutdown, whatever comes of it, then wait for the thread
  (the rest of its rounds).
\<close>

definition event_loop_thread_drop ::
  "cmsg_abi \<Rightarrow> 'd driver_ops \<Rightarrow> ('s, 'd connection) slab \<Rightarrow> ('q, 'd request) array_queue \<Rightarrow> io_error option \<Rightarrow>
   (io_error option list \<times> event list \<times>
    ((byte list \<times> byte list) sys_result list \<times> (byte list \<times> nat sys_result) list) list) list \<Rightarrow>
   ('s, 'q) event_loop \<Rightarrow> ((io_error, unit) res \<times> ('s, 'q) event_loop) option" where
  "event_loop_thread_drop C D S Q waker rounds el =
     thread_loop C D S Q rounds (snd (handle_shutdown Q waker el))"

section \<open>The invariant of the loop\<close>

text \<open>
  Every connection sits in the slot of its token, and is registered for \<open>READABLE\<close> and, exactly while
  it has data to send, for \<open>WRITABLE\<close>.
\<close>

definition well_registered :: "registry \<Rightarrow> nat \<Rightarrow> 'd connection \<Rightarrow> bool" where
  "well_registered reg tok c \<longleftrightarrow> ctoken c = tok \<and>
     interest c = Some (if conn_buf_is_empty (outbound c) then READABLE else READ_WRITE) \<and>
     registered (rev (reg_log reg)) tok = interest c"

definition loop_inv :: "('s, 'd connection) slab \<Rightarrow> ('s, 'q) event_loop \<Rightarrow> bool" where
  "loop_inv S el \<longleftrightarrow> slab_contract S \<and>
     (\<forall>tok c. sl_get S (connections el) tok = Some c \<longrightarrow> well_registered (loop_registry el) tok c)"

lemma loop_invD:
  "loop_inv S el \<Longrightarrow> sl_get S (connections el) tok = Some c \<Longrightarrow> well_registered (loop_registry el) tok c"
  by (simp add: loop_inv_def)

lemma remove_connection_inv:
  assumes S: "slab_contract S"
    and others: "\<And>t c. t \<noteq> tok \<Longrightarrow> sl_get S (connections el) t = Some c \<Longrightarrow> well_registered (loop_registry el) t c"
    and own: "\<And>c. sl_get S (connections el) tok = Some c \<Longrightarrow> ctoken c = tok"
  shows "loop_inv S (remove_connection S tok el)"
proof (cases "sl_get S (connections el) tok")
  case None
  with others have "well_registered (loop_registry el) t c" if "sl_get S (connections el) t = Some c" for t c
    using that by (cases "t = tok") auto
  with S None show ?thesis by (simp add: remove_connection_def loop_inv_def)
next
  case (Some c)
  from own [OF Some] others S Some show ?thesis
    by (auto simp: remove_connection_def connection_shutdown_def registry_do_def loop_inv_def
        well_registered_def slab_laws split: list.splits option.splits)
qed

lemma run_connection_inv:
  assumes inv: "loop_inv S el"
    and own: "\<And>s r s'. run s = Some (r, s') \<Longrightarrow> only_own s s'"
    and keep: "\<And>s s'. run s = Some (Ok False, s') \<Longrightarrow> well_registered (rg s) (ctoken (cn s)) (cn s) \<Longrightarrow>
       well_registered (rg s') (ctoken (cn s)) (cn s')"
    and run: "run_connection S tok run script el = Some (Ok u, el')"
  shows "loop_inv S el' \<and> loop_requests el' = loop_requests el"
proof (cases "sl_get S (connections el) tok")
  case None
  with run inv show ?thesis by (simp add: run_connection_def)
next
  case (Some c)
  define s where "s = \<lparr>cn = c, rg = loop_registry el, rx = fst script, tx = snd script, accepted = []\<rparr>"
  from run Some obtain r s' where r: "run s = Some (r, s')" "r \<noteq> Panic"
    by (auto simp: run_connection_def s_def Let_def split: option.splits res.splits)
  define el1 where "el1 = el\<lparr>connections := sl_set S (connections el) tok (cn s'), loop_registry := rg s'\<rparr>"
  have S: "slab_contract S" using inv by (simp add: loop_inv_def)
  have c: "well_registered (loop_registry el) tok c" using loop_invD [OF inv Some] .
  have o: "only_own s s'" using own [OF r(1)] .
  have get: "sl_get S (connections el1) = (sl_get S (connections el))(tok \<mapsto> cn s')"
    using S Some by (simp add: el1_def slab_laws)
  have others: "well_registered (loop_registry el1) t d"
    if "t \<noteq> tok" "sl_get S (connections el1) t = Some d" for t d
    using that get loop_invD [OF inv, of t d] o c by (simp add: el1_def s_def only_own_def well_registered_def)
  have tok: "ctoken (cn s') = tok" using o c by (simp add: only_own_def s_def well_registered_def)
  have removed: "loop_inv S (remove_connection S tok el1)"
    using remove_connection_inv [OF S, of tok el1] others tok get by simp
  have frame: "loop_requests (remove_connection S tok el1) = loop_requests el" "loop_requests el1 = loop_requests el"
    by (simp_all add: el1_def remove_connection_def split: option.splits prod.splits)
  have "(case r of Panic \<Rightarrow> Some (Panic, el1)
      | Ok done \<Rightarrow> Some (Ok (), if done then remove_connection S tok el1 else el1)
      | Err _ \<Rightarrow> Some (Ok (), remove_connection S tok el1))
      = (Some (Ok u, el') :: ((io_error, unit) res \<times> _) option)"
    using run Some r(1) unfolding run_connection_def el1_def s_def by (simp add: Let_def)
  with r(2) consider "el' = remove_connection S tok el1" | "r = Ok False" "el' = el1"
    by (cases r) (auto split: if_splits)
  then show ?thesis
  proof cases
    case 1
    with removed frame show ?thesis by simp
  next
    case 2
    have t: "ctoken (cn s) = tok" and w: "well_registered (rg s) (ctoken (cn s)) (cn s)"
      using c by (simp_all add: s_def well_registered_def)
    from keep [OF r(1) [unfolded 2(1)] w] have "well_registered (rg s') tok (cn s')" unfolding t .
    then have "well_registered (loop_registry el1) tok (cn s')" by (simp add: el1_def)
    then have "well_registered (loop_registry el1) t d" if "sl_get S (connections el1) t = Some d" for t d
      using that others [of t d] get by (cases "t = tok") simp_all
    with 2(2) S frame(2) show ?thesis unfolding loop_inv_def by blast
  qed
qed

lemma handler_keeps:
  assumes "handle_event C D t readable s = Some (Ok False, s') \<or> handle_wake C D s = Some (Ok False, s')"
    and "well_registered (rg s) (ctoken (cn s)) (cn s)"
  shows "well_registered (rg s') (ctoken (cn s)) (cn s')"
proof -
  from assms(2) have "interest (cn s) \<in> {Some READABLE, Some READ_WRITE}" "in_step s"
    by (auto simp: well_registered_def in_step_def)
  from interest_follows_outbound [OF this assms(1)] assms(1) show ?thesis
    by (auto simp: well_registered_def only_own_def dest!: handle_event_own handle_wake_own)
qed

lemma process_events_inv:
  "loop_inv S el \<Longrightarrow> process_events C D S evs el = Some (Ok u, el') \<Longrightarrow>
   loop_inv S el' \<and> loop_requests el' = loop_requests el"
proof (induction evs arbitrary: el)
  case (Cons ev evs)
  show ?case
  proof (cases "ev_token ev = WAKE_TOKEN")
    case False
    with Cons.prems(2) obtain u1 el1 where
      r: "run_connection S (ev_token ev) (handle_event C D (ev_token ev) (ev_readable ev)) (ev_script ev) el
        = Some (Ok u1, el1)" and rest: "process_events C D S evs el1 = Some (Ok u, el')"
      by (auto simp: try_do_Ok_iff)
    from run_connection_inv [OF Cons.prems(1) _ _ r] handler_keeps handle_event_own
    have "loop_inv S el1 \<and> loop_requests el1 = loop_requests el" by blast
    with Cons.IH [OF _ rest] show ?thesis by simp
  qed (use Cons in simp)
qed simp

lemma connection_new_cases:
  assumes "connection_new p t d reg = (r, reg')"
  obtains (fails) e where "r = Err e" and "reg_log reg' = reg_log reg"
    | (ok) c where "r = Ok c" and "well_registered reg' t c"
      and "\<And>t'. t' \<noteq> t \<Longrightarrow> registered (rev (reg_log reg')) t' = registered (rev (reg_log reg)) t'"
proof -
  let ?c = "\<lparr>io = p, ctoken = t, interest = Some READABLE, inbound = conn_buf_new,
        outbound = conn_buf_new, driver = d\<rparr>"
  obtain q where q: "registry_do (RegRegister t READABLE) reg = (q, reg')" "q \<noteq> Panic"
    and r: "r = map_ok (\<lambda>_. ?c) q"
    using assms by (cases "registry_do (RegRegister t READABLE) reg")
      (auto simp: connection_new_def registry_do_def split: list.splits option.splits)
  show thesis
  proof (cases q)
    case (Ok u)
    with q(1) have "reg_log reg' = reg_log reg @ [RegRegister t READABLE]"
      by (auto simp: registry_do_def split: list.splits option.splits)
    with r Ok show thesis
      by (intro ok [of ?c]) (simp_all add: well_registered_def conn_buf_new_def conn_buf_is_empty_def)
  next
    case (Err e)
    with q(1) have "reg_log reg' = reg_log reg"
      by (auto simp: registry_do_def split: list.splits option.splits)
    with r Err show thesis by (intro fails) simp_all
  qed (use q(2) in simp)
qed

lemma add_connection_inv:
  assumes inv: "loop_inv S el" and a: "add_connection S p d el = (r, el')" and "r \<noteq> Panic"
  shows "loop_inv S el' \<and> loop_requests el' = loop_requests el"
proof -
  define tok where "tok = sl_vacant_key S (connections el)"
  have S: "slab_contract S" using inv by (simp add: loop_inv_def)
  obtain q reg where q: "connection_new p tok d (loop_registry el) = (q, reg)" by (metis prod.exhaust)
  from a \<open>r \<noteq> Panic\<close> have ne: "tok \<noteq> WAKE_TOKEN" by (auto simp: add_connection_def tok_def Let_def)
  from q show ?thesis
  proof (cases rule: connection_new_cases)
    case (fails e)
    with a ne q have "el' = el\<lparr>loop_registry := reg\<rparr>" by (simp add: add_connection_def tok_def Let_def)
    with inv fails(2) show ?thesis by (simp add: loop_inv_def well_registered_def)
  next
    case (ok c)
    with a ne q have el': "el' = el\<lparr>connections := sl_insert S (connections el) c, loop_registry := reg\<rparr>"
      by (simp add: add_connection_def tok_def Let_def)
    have "sl_get S (connections el') = (sl_get S (connections el))(tok \<mapsto> c)"
      using S by (simp add: el' slab_laws tok_def)
    moreover have "well_registered reg t d" if "t \<noteq> tok" "sl_get S (connections el) t = Some d" for t d
      using loop_invD [OF inv that(2)] ok(3) that(1) by (simp add: well_registered_def)
    ultimately show ?thesis using S ok(2) by (simp add: loop_inv_def el')
  qed
qed

lemma send_result_frame:
  "send_result ch r el = (Ok u, el') \<Longrightarrow> loop_inv S el \<Longrightarrow> loop_inv S el' \<and> loop_requests el' = loop_requests el"
  by (auto simp: send_result_def loop_inv_def split: option.splits if_splits)

lemma send_result_not_Err: "send_result ch r el \<noteq> (Err e, el')"
  by (auto simp: send_result_def split: option.splits)

lemma run_connection_not_Err: "run_connection S tok run script el \<noteq> Some (Err e, el')"
  by (auto simp: run_connection_def Let_def split: option.splits res.splits)

abbreviation pending_requests :: "('q, 'd request) array_queue \<Rightarrow> ('s, 'q) event_loop \<Rightarrow> 'd request list" where
  "pending_requests Q el \<equiv> aq_items Q (queue (loop_requests el))"

text \<open>Serving the queue keeps the invariant, and stops at the first \<open>Shutdown\<close>.\<close>

lemma process_requests_spec:
  assumes Q: "array_queue_contract Q" and "loop_inv S el"
    and "process_requests C D S Q wakes el = Some (Ok b, el')"
  shows "loop_inv S el' \<and> (b \<longleftrightarrow> Shutdown \<notin> set (pending_requests Q el)) \<and>
    pending_requests Q el' = tl (dropWhile (\<lambda>r. r \<noteq> Shutdown) (pending_requests Q el))"
  using assms(2,3)
proof (induction "pending_requests Q el" arbitrary: el wakes)
  case Nil
  from aq_pop_empty [OF Q] have "rq_pop Q (loop_requests el) = (None, loop_requests el)"
    using Nil.hyps by (simp add: rq_pop_def)
  with Nil.prems have "b" "el' = el"
    by (subst (asm) process_requests.simps, simp)+
  with Nil.prems(1) Nil.hyps show ?case by (metis dropWhile.simps(1) empty_iff list.sel(2) list.set(1))
next
  case (Cons req reqs)
  from aq_pop_cons [OF Q, of "queue (loop_requests el)" req reqs] Cons.hyps(2) obtain q where
    pop: "aq_pop Q (queue (loop_requests el)) = Some (req, q)" and items: "aq_items Q q = reqs" by metis
  define el1 where "el1 = el\<lparr>loop_requests := (loop_requests el)\<lparr>queue := q\<rparr>\<rparr>"
  have rq: "rq_pop Q (loop_requests el) = (Some req, loop_requests el1)"
    using pop by (simp add: rq_pop_def el1_def)
  have inv1: "loop_inv S el1" using Cons.prems(1) by (simp add: loop_inv_def el1_def)
  have same: "el\<lparr>loop_requests := loop_requests el1\<rparr> = el1" by (simp add: el1_def)
  have reqs: "pending_requests Q el1 = reqs" using items by (simp add: el1_def)
  have next': ?case if "req \<noteq> Shutdown" "loop_inv S el2" "loop_requests el2 = loop_requests el1"
    "process_requests C D S Q wakes' el2 = Some (Ok b, el')" for el2 wakes'
    using Cons.hyps(1) [of el2 wakes'] that reqs by (simp flip: Cons.hyps(2))
  show ?case
  proof (cases req)
    case Shutdown
    with Cons.prems(2) rq same have "\<not> b" "el' = el1"
      by (subst (asm) process_requests.simps, simp)+
    with inv1 reqs Shutdown show ?thesis by (simp flip: Cons.hyps(2))
  next
    case (WakeConnection tok)
    with Cons.prems(2) rq same obtain u el2 where
      r: "run_connection S tok (handle_wake C D) (if wakes = [] then ([], []) else hd wakes) el1 = Some (Ok u, el2)"
      and rest: "process_requests C D S Q (tl wakes) el2 = Some (Ok b, el')"
      by (subst (asm) process_requests.simps) (auto simp: Let_def split: option.splits res.splits)
    from run_connection_inv [OF inv1 _ _ r] handler_keeps handle_wake_own
    have "loop_inv S el2 \<and> loop_requests el2 = loop_requests el1" by blast
    then show ?thesis using WakeConnection rest by (intro next') simp_all
  next
    case (AddConnection p d ch)
    obtain q2 el2 where a: "add_connection S p d el1 = (q2, el2)" by (metis prod.exhaust)
    with AddConnection Cons.prems(2) rq same obtain u el3 where ne: "q2 \<noteq> Panic"
      and s: "send_result ch q2 el2 = (Ok u, el3)"
      and rest: "process_requests C D S Q wakes el3 = Some (Ok b, el')"
      by (subst (asm) process_requests.simps) (auto simp: Let_def split: if_splits prod.splits res.splits)
    from add_connection_inv [OF inv1 a ne] have i: "loop_inv S el2" "loop_requests el2 = loop_requests el1"
      by simp_all
    from send_result_frame [OF s i(1)] i(2) have "loop_inv S el3 \<and> loop_requests el3 = loop_requests el1" by simp
    then show ?thesis using AddConnection rest by (intro next') simp_all
  qed
qed

lemma poll_spec:
  assumes Q: "array_queue_contract Q" and inv: "loop_inv S el"
    and p: "poll C D S Q waits events wakes el = Some (Ok b, el')"
  shows "loop_inv S el'" and "b \<longleftrightarrow> Shutdown \<notin> set (pending_requests Q el)"
    and "pending_requests Q el' = tl (dropWhile (\<lambda>r. r \<noteq> Shutdown) (pending_requests Q el))"
proof -
  from p obtain u el1 where "process_events C D S events el = Some (Ok u, el1)"
    and r: "process_requests C D S Q wakes el1 = Some (Ok b, el')"
    by (auto simp: poll_def try_do_Ok_iff split: option.splits)
  with process_events_inv [OF inv] have i: "loop_inv S el1" and e: "loop_requests el1 = loop_requests el"
    by blast+
  note spec = process_requests_spec [OF Q i r, unfolded e]
  from spec show "loop_inv S el'" by (rule conjunct1)
  from spec show "b \<longleftrightarrow> Shutdown \<notin> set (pending_requests Q el)"
    by (rule conjunct2 [THEN conjunct1])
  from spec show "pending_requests Q el' = tl (dropWhile (\<lambda>r. r \<noteq> Shutdown) (pending_requests Q el))"
    by (rule conjunct2 [THEN conjunct2])
qed

text \<open>
  C11: a poll that succeeds keeps the loop's invariant, whatever its events, the kernel and the drivers
  did: every connection is in the slot of its token (the assertion in \<open>handle_event\<close> holds) and registered for
  \<open>READABLE\<close> and, exactly while it has data to send, for \<open>WRITABLE\<close>.
\<close>

theorem poll_keeps_registrations:
  assumes "array_queue_contract Q" and "loop_inv S el"
    and "poll C D S Q waits events wakes el = Some (Ok b, el')"
  shows "loop_inv S el'"
  by (rule poll_spec(1) [OF assms])



text \<open>
  Dropping the loop releases every caller still waiting for its connection to be added, and makes
  every later request of a handle fail.
\<close>

theorem loop_drop_releases_waiters:
  "(case map_of (sent_results el) ch of
      None \<Rightarrow> await_result ch (event_loop_drop S Q el) = Some (Err io_aborted)
    | Some r \<Rightarrow> await_result ch (event_loop_drop S Q el) = Some r) \<and>
   fst (push_request Q req waker (event_loop_drop S Q el)) = Err io_aborted"
proof -
  let ?f = "\<lambda>tok (el :: ('a, 'b) event_loop). case sl_get S (connections el) tok of
           None \<Rightarrow> el
         | Some c \<Rightarrow> (case connection_shutdown c (loop_registry el) of (_, c', reg) \<Rightarrow>
             el\<lparr>connections := sl_set S (connections el) tok c', loop_registry := reg\<rparr>)"
  have "sent_results (fold ?f toks el) = sent_results el" for toks
    by (induction toks arbitrary: el) (auto split: option.splits prod.splits)
  then show ?thesis
    by (simp add: event_loop_drop_def await_result_def push_request_def sender_push_def Let_def split: option.split)
qed

text \<open>A loop with one connection that has three bytes to send, of which the kernel takes one.\<close>

definition demo_loop :: "unit request list \<Rightarrow> ((nat \<times> unit connection) list, nat \<times> unit request list) event_loop" where
  "demo_loop reqs = \<lparr>
     connections = [(0, \<lparr>io = pipe_new, ctoken = 0, interest = Some READ_WRITE, inbound = conn_buf_new,
       outbound = \<lparr>cb_buf = [1, 2, 3], cb_handles = []\<rparr>, driver = ()\<rparr>)],
     loop_requests = \<lparr>queue = (2, reqs), live = True, weak = 1\<rparr>,
     loop_registry = \<lparr>reg_outcomes = [], reg_log = [RegRegister 0 READABLE, RegReregister 0 READ_WRITE]\<rparr>,
     sent_results = [], hung_up = {}\<rparr>"

definition demo_wakes :: "((byte list \<times> byte list) sys_result list \<times> (byte list \<times> nat sys_result) list) list" where
  "demo_wakes = [([], [([], SysRet 1), ([], SysRet 2)])]"

lemma demo_loop_inv: "loop_inv list_slab (demo_loop reqs)"
  using list_slab_contract
  by (auto simp: loop_inv_def demo_loop_def well_registered_def list_slab_def conn_buf_is_empty_def
      split: if_splits)

lemma demo_loop_poll:
  "\<exists>el. poll linux_cmsg demo_driver list_slab list_queue [None] [] demo_wakes
      (demo_loop [WakeConnection 0, Shutdown]) = Some (Ok False, el) \<and>
    reg_log (loop_registry el) = [RegRegister 0 READABLE, RegReregister 0 READ_WRITE, RegReregister 0 READABLE]"
  by (simp add: poll_def demo_loop_def demo_wakes_def process_requests.simps rq_pop_def list_queue_def
      run_connection_def list_slab_def handle_wake_def demo_driver_def conn_flush_outbound_def
      send_outbound_def send_loop.simps conn_buf_is_empty_def send_msg_def Let_def
      pipe_new_def clear_writable_def update_registration_def registry_do_def)

theorem poll_keeps_registrations_witness:
  "\<exists>el. poll linux_cmsg demo_driver list_slab list_queue [None] [] demo_wakes
      (demo_loop [WakeConnection 0, Shutdown]) = Some (Ok False, el) \<and> loop_inv list_slab el"
  using demo_loop_poll poll_keeps_registrations [OF list_queue_contract demo_loop_inv] by metis



section \<open>The trait Driver\<close>

text \<open>
  What a connection relies on of its driver: both methods return, and a success keeps what they need
  to.
\<close>

definition returns :: "'a option \<Rightarrow> bool" where
  "returns m \<longleftrightarrow> m \<noteq> None"

lemma returns_Some [simp]: "returns (Some x)" and returns_None [simp]: "\<not> returns None"
  by (simp_all add: returns_def)

locale conn_driver =
  fixes D :: "'d driver_ops" and dinv :: "'d \<Rightarrow> bool"
  assumes inbound_returns: "dinv d \<Longrightarrow> \<exists>r d' b'. drv_process_inbound D d b = Some (r, d', b') \<and>
      (case r of Ok _ \<Rightarrow> dinv d' | _ \<Rightarrow> True)"
    and flush_returns: "dinv d \<Longrightarrow> \<exists>r d' b'. drv_flush_outbound D d b = Some (r, d', b') \<and>
      (case r of Ok _ \<Rightarrow> dinv d' | _ \<Rightarrow> True)"
begin

lemma encode_handles_not_Err [simp]: "encode_handles C mem c hs \<noteq> Err e"
  by (simp add: encode_handles_def Let_def)

lemma try_do_returns:
  "returns m \<Longrightarrow> (\<And>a s. m = Some (Ok a, s) \<Longrightarrow> returns (k a s)) \<Longrightarrow> returns (try_do m k)"
  by (auto simp: returns_def try_do_def split: option.splits res.splits)

lemma update_registration_returns: "returns (update_registration i s)"
  by (auto simp: update_registration_def Let_def split: prod.splits)

lemma recv_loop_returns:
  assumes "list_ex (\<lambda>r. \<exists>e. r = SysErr e \<and> would_block e) os" and "dinv (driver c)"
  shows "\<exists>r c' os'. recv_loop C D os c = Some (r, c', os') \<and> (case r of Ok _ \<Rightarrow> dinv (driver c') | _ \<Rightarrow> True)"
  using assms
proof (induction os arbitrary: c)
  case (Cons o1 os)
  obtain q p b where m: "recv_msg C o1 (io c) (inbound c) = (q, p, b)" by (metis prod.exhaust)
  show ?case
  proof (cases q)
    case (Ok n)
    then have o1: "\<not> (\<exists>e. o1 = SysErr e \<and> would_block e)" using m by (auto simp: recv_msg_def)
    obtain r d b' where d: "drv_process_inbound D (driver c) b = Some (r, d, b')"
      "case r of Ok _ \<Rightarrow> dinv d | _ \<Rightarrow> True"
      using inbound_returns [OF Cons.prems(2)] by blast
    show ?thesis
    proof (cases "n \<noteq> 0 \<and> r = res.Ok False")
      case True
      with Cons.IH [of "c\<lparr>io := p, driver := d, inbound := b'\<rparr>"] Cons.prems o1 d m Ok show ?thesis
        by (simp add: Let_def)
    next
      case False
      with d m Ok Cons.prems(2) show ?thesis by (cases r) (auto simp: Let_def)
    qed
  next
    case (Err e)
    show ?thesis
    proof (cases "would_block e \<or> \<not> io_interrupted e")
      case True
      with m Err Cons.prems(2) show ?thesis by (auto simp: Let_def)
    next
      case False
      with m Err Cons.prems have "list_ex (\<lambda>r. \<exists>e. r = SysErr e \<and> would_block e) os"
        by (auto simp: recv_msg_def Let_def would_block_def io_interrupted_def split: sys_result.splits res.splits
            prod.splits)
      with False m Err Cons.IH [of "c\<lparr>io := p, inbound := b\<rparr>"] Cons.prems(2) show ?thesis
        by (simp add: Let_def)
    qed
  qed (use m in simp)
qed simp

lemma send_loop_returns:
  assumes "list_ex (\<lambda>(_, r). \<exists>e. r = SysErr e \<and> would_block e) os"
  shows "returns (send_loop C os s)"
  using assms
proof (induction os arbitrary: s)
  case (Cons o1 os)
  obtain mem out where o1: "o1 = (mem, out)" by (cases o1)
  obtain q p b call where m: "send_msg C mem out (io (cn s)) (outbound (cn s)) = (q, p, b, call)"
    by (metis prod.exhaust)
  show ?case
  proof (cases "conn_buf_is_empty (outbound (cn s)) \<or> (\<exists>e. out = SysErr e \<and> would_block e)")
    case True
    with m show ?thesis unfolding o1
      by (subst send_loop.simps)
        (auto simp: send_msg_def Let_def split: res.splits if_splits)
  next
    case False
    with Cons.prems o1 have os: "list_ex (\<lambda>(_, r). \<exists>e. r = SysErr e \<and> would_block e) os" by auto
    show ?thesis unfolding o1 using False m
      by (subst send_loop.simps) (auto simp: Let_def Cons.IH [OF os] split: res.splits)
  qed
qed simp

lemma send_outbound_returns:
  assumes "list_ex (\<lambda>(_, r). \<exists>e. r = SysErr e \<and> would_block e) (tx s)"
  shows "returns (send_outbound C s)"
proof -
  show ?thesis unfolding send_outbound_def
    by (rule try_do_returns [OF send_loop_returns [OF assms]])
      (auto intro!: try_do_returns simp: set_writable_def clear_writable_def update_registration_returns split: if_splits)
qed

text \<open>An event is handled in finitely many steps once the kernel has no more data and no more room.\<close>

lemma handle_event_returns:
  assumes "list_ex (\<lambda>r. \<exists>e. r = SysErr e \<and> would_block e) (rx s)"
    and "list_ex (\<lambda>(_, r). \<exists>e. r = SysErr e \<and> would_block e) (tx s)" and "dinv (driver (cn s))"
  shows "returns (handle_event C D t readable s)"
proof -
  obtain r c' os' where l: "recv_loop C D (rx s) (cn s) = Some (r, c', os')"
    and inv: "case r of Ok _ \<Rightarrow> dinv (driver c') | _ \<Rightarrow> True"
    using recv_loop_returns [OF assms(1,3)] by blast
  have recv: "returns (if readable then recv_inbound C D s else Some (Ok False, s))"
    using l by (simp add: recv_inbound_def)
  have flush: "returns (conn_flush_outbound D s1)" "\<And>a s2. conn_flush_outbound D s1 = Some (a, s2) \<Longrightarrow> tx s2 = tx s"
    if "(if readable then recv_inbound C D s else Some (Ok False, s)) = Some (Ok a1, s1)" for a1 s1
  proof -
    have "dinv (driver (cn s1))" "tx s1 = tx s"
      using that l inv assms(3) by (auto simp: recv_inbound_def split: if_splits)
    with flush_returns [of "driver (cn s1)" "outbound (cn s1)"]
    show "returns (conn_flush_outbound D s1)" "\<And>a s2. conn_flush_outbound D s1 = Some (a, s2) \<Longrightarrow> tx s2 = tx s"
      by (auto simp: conn_flush_outbound_def)
  qed
  show ?thesis
  proof (cases "ctoken (cn s) \<noteq> t")
    case True
    then show ?thesis by (simp add: handle_event_def)
  next
    case False
    show ?thesis unfolding handle_event_def if_not_P [OF False]
    proof (rule try_do_returns [OF recv])
      fix a1 s1 assume a1: "(if readable then recv_inbound C D s else Some (Ok False, s)) = Some (Ok a1, s1)"
      show "returns (try_do (conn_flush_outbound D s1) (\<lambda>_ s. try_do (send_outbound C s) (\<lambda>eof s.
          if eof then Some (Ok True, s)
          else let done = a1 \<and> conn_buf_is_empty (outbound (cn s)) in
            try_do (if done then clear_readable s else Some (Ok (), s)) (\<lambda>_ s. Some (Ok done, s)))))"
      proof (rule try_do_returns [OF flush(1) [OF a1]])
        fix u s2 assume "conn_flush_outbound D s1 = Some (Ok u, s2)"
        from flush(2) [OF a1 this] assms(2) have "returns (send_outbound C s2)"
          by (intro send_outbound_returns) simp
        then show "returns (try_do (send_outbound C s2) (\<lambda>eof s. if eof then Some (Ok True, s)
          else let done = a1 \<and> conn_buf_is_empty (outbound (cn s)) in
            try_do (if done then clear_readable s else Some (Ok (), s)) (\<lambda>_ s. Some (Ok done, s))))"
          by (rule try_do_returns)
            (auto intro!: try_do_returns simp: Let_def clear_readable_def update_registration_returns)
      qed
    qed
  qed
qed

end

section \<open>The framed drivers\<close>

context rpc_handler
begin

lemma process_inbound_hinv:
  assumes "process_inbound dec ops consume d b = Some y" and "hinv (handler d)"
  shows "case fst y of Ok _ \<Rightarrow> hinv (handler (fst (snd y))) | _ \<Rightarrow> True"
proof -
  have "cons = consume \<longrightarrow> hinv (handler d) \<longrightarrow> (case fst y of Ok _ \<Rightarrow> hinv (handler (fst (snd y))) | _ \<Rightarrow> True)"
    if "process_inbound dec ops cons d b = Some y" for cons
  proof (rule process_inbound.raw_induct [OF _ that], goal_cases)
    case (1 f dec ops cons d b y)
    obtain q c buf where dec: "dec (codec d) (cb_buf b) = (q, c, buf)" by (metis prod.exhaust)
    show ?case
    proof (cases "\<exists>m. q = Ok (Some m)")
      case True
      then obtain m where q: "q = Ok (Some m)" by blast
      obtain ra b1 where a: "attach_handle ops m (b\<lparr>cb_buf := buf\<rparr>) = (ra, b1)" by (metis prod.exhaust)
      from 1(2) q a dec show ?thesis
        by (auto split: res.splits prod.splits dest!: 1(1) dest: consume_inv)
    next
      case False
      with 1(2) dec show ?thesis by (auto split: res.splits option.splits)
    qed
  qed
  with assms show ?thesis by blast
qed

lemma flush_outbound_hinv:
  assumes "flush_outbound enc ops produce d b = Some y" and "hinv (handler d)"
  shows "case fst y of Ok _ \<Rightarrow> hinv (handler (fst (snd y))) | _ \<Rightarrow> True"
proof -
  have "prod = produce \<longrightarrow> hinv (handler d) \<longrightarrow> (case fst y of Ok _ \<Rightarrow> hinv (handler (fst (snd y))) | _ \<Rightarrow> True)"
    if "flush_outbound enc ops prod d b = Some y" for prod
  proof (rule flush_outbound.raw_induct [OF _ that], goal_cases)
    case (1 f enc ops prod d b y)
    show ?case
    proof (intro impI)
      assume p: "prod = produce" and h: "hinv (handler d)"
      obtain q h1 where q: "produce (handler d) = (q, h1)" by (metis prod.exhaust)
      show "case fst y of Ok _ \<Rightarrow> hinv (handler (fst (snd y))) | _ \<Rightarrow> True"
      proof (cases "\<exists>m. q = Ok (Some m)")
        case True
        then obtain m where m: "q = Ok (Some m)" by blast
        from produce_some [OF h] q m have h1: "hinv h1" by blast
        from 1(2) p q m h1 show ?thesis
          by (auto split: res.splits prod.splits option.splits dest!: 1(1))
      next
        case False
        with 1(2) p q produce_none [OF h] show ?thesis by (auto split: res.splits option.splits)
      qed
    qed
  qed
  with assms show ?thesis by blast
qed

lemma framed_conn_driver:
  "conn_driver (framed_driver_ops bi ops consume bo ops' produce) (\<lambda>d. hinv (handler d))"
proof
  fix d :: "(lcodec, 'h) framed_driver" and b
  assume h: "hinv (handler d)"
  obtain r d' b' where "process_inbound (decode bi) ops consume d b = Some (r, d', b')"
    using lc.process_inbound_drained by blast
  with process_inbound_hinv [OF this h] show "\<exists>r d' b'. drv_process_inbound
      (framed_driver_ops bi ops consume bo ops' produce) d b = Some (r, d', b') \<and>
      (case r of Ok _ \<Rightarrow> hinv (handler d') | _ \<Rightarrow> True)"
    by (cases r) (auto simp: framed_driver_ops_def)
next
  fix d :: "(lcodec, 'h) framed_driver" and b
  assume h: "hinv (handler d)"
  obtain r d' b' where "flush_outbound (encode bo) ops' produce d b = Some (r, d', b')"
    using flush_outbound_total [OF h] by (metis prod.exhaust)
  with flush_outbound_hinv [OF this h] show "\<exists>r d' b'. drv_flush_outbound
      (framed_driver_ops bi ops consume bo ops' produce) d b = Some (r, d', b') \<and>
      (case r of Ok _ \<Rightarrow> hinv (handler d') | _ \<Rightarrow> True)"
    by (cases r) (auto simp: framed_driver_ops_def)
qed

end

interpretation server_conn: conn_driver
  "framed_driver_ops bi ops (server_consume process) bo ops' server_produce" "\<lambda>_. True"
  for bi ops process bo ops'
  by (rule sh.framed_conn_driver)

interpretation client_conn: conn_driver
  "framed_driver_ops bi ops client_consume bo ops' (client_produce Q)" "\<lambda>d. client_inv Q (handler d)"
  for bi ops bo ops' Q
  by (rule ch.framed_conn_driver)

text \<open>
  C35: whatever bytes and handles arrive and whatever the server answers, the handling of an event by
  a server's or a client's connection comes to an end, once the kernel reports that it has no more
  data and no more room.
\<close>

theorem framed_events_return:
  assumes "list_ex (\<lambda>r. \<exists>e. r = SysErr e \<and> would_block e) (rx s)"
    and "list_ex (\<lambda>(_, r). \<exists>e. r = SysErr e \<and> would_block e) (tx s)"
    and "list_ex (\<lambda>r. \<exists>e. r = SysErr e \<and> would_block e) (rx s')"
    and "list_ex (\<lambda>(_, r). \<exists>e. r = SysErr e \<and> would_block e) (tx s')"
    and "client_inv Q (handler (driver (cn s')))"
  shows "returns (handle_event C (framed_driver_ops bi ops (server_consume process) bo ops' server_produce)
      t readable s) \<and>
    returns (handle_event C (framed_driver_ops bi' ops client_consume bo' ops' (client_produce Q)) t readable s')"
  using server_conn.handle_event_returns [OF assms(1,2)] client_conn.handle_event_returns [OF assms(3-5)]
  by blast

definition demo_quiet :: "'h \<Rightarrow> (lcodec, 'h) framed_driver conn_st" where
  "demo_quiet h = \<lparr>
     cn = \<lparr>io = pipe_new, ctoken = 0, interest = Some READABLE, inbound = conn_buf_new,
       outbound = conn_buf_new, driver = framed_driver_new h\<rparr>,
     rg = \<lparr>reg_outcomes = [], reg_log = []\<rparr>, rx = [SysErr (IoError WouldBlock '''')],
     tx = [([], SysErr (IoError WouldBlock ''''))], accepted = []\<rparr>"

theorem framed_events_return_witness:
  "returns (handle_event linux_cmsg (framed_driver_ops raw_bincode default_handle_ops (server_consume
        (\<lambda>m s. (Ok m, s))) raw_bincode default_handle_ops server_produce) 0 True
      (demo_quiet (make_server ()))) \<and>
   returns (handle_event linux_cmsg (framed_driver_ops raw_bincode default_handle_ops client_consume
        raw_bincode default_handle_ops (client_produce list_queue)) 0 True
      (demo_quiet (make_client list_queue (\<lambda>_. completion_new))))"
  by (rule framed_events_return)
    (simp_all add: demo_quiet_def would_block_def framed_driver_new_def client_inv_def make_client_def
      writers_def queued_def rq_new_def new_sender_def list_queue_contract aq_new_items [OF list_queue_contract])

end
