(* ===== verification/RpcSystem.thy ===== *)
theory RpcSystem
  imports Rpccore
begin

text \<open>
  The two ends of one RPC connection running together: threads calling through proxies, the client
  handler, the two directions of the connection (each a list of messages in transit; that they are
  delivered whole and in order is what the framed driver's theory shows), and the server handler.
  Then the proxies' life cycle, where the last drop has to wake the client handler.
\<close>

section \<open>The system and its steps\<close>

record ('q, 'm, 's, 'r) rpc =
  cl :: "('q, 'r) client_end"
  to_server :: "'m list"
  sv :: "('s, 'r) server_handler"
  to_client :: "'r list"
  calls :: "(addr \<times> 'm) list"
  processed :: "('m \<times> 'r) list"
  replies :: "(addr \<times> 'r) list"

text \<open>
  The last three fields are histories no step reads: the calls whose request was queued, the requests
  the server has processed, and the responses handed to a completion.  A step is one call of a
  handler's or proxy's operation.
\<close>

inductive rpc_step ::
  "('q, 'm \<times> addr) array_queue \<Rightarrow> ('m \<Rightarrow> 's \<Rightarrow> (io_error, 'r) res \<times> 's) \<Rightarrow>
   ('q, 'm, 's, 'r) rpc \<Rightarrow> ('q, 'm, 's, 'r) rpc \<Rightarrow> bool"
  for Q process where
  call: "a \<notin> set (writers Q (cl s)) \<Longrightarrow> proxy_call_send Q (cl s) a m = (Ok (), c') \<Longrightarrow>
    rpc_step Q process s (s\<lparr>cl := c', calls := calls s @ [(a, m)]\<rparr>)"
| call_fails: "a \<notin> set (writers Q (cl s)) \<Longrightarrow> proxy_call_send Q (cl s) a m = (Err e, c') \<Longrightarrow>
    rpc_step Q process s (s\<lparr>cl := c'\<rparr>)"
| produce: "client_produce Q (cl s) = (Ok (Some m), c') \<Longrightarrow>
    rpc_step Q process s (s\<lparr>cl := c', to_server := to_server s @ [m]\<rparr>)"
| serve: "to_server s = m # ms \<Longrightarrow> process m (server (sv s)) = (Ok r, s') \<Longrightarrow>
    server_consume process m (sv s) = (Ok (), sv') \<Longrightarrow>
    rpc_step Q process s (s\<lparr>to_server := ms, sv := sv', processed := processed s @ [(m, r)]\<rparr>)"
| respond: "server_produce (sv s) = (Ok (Some r), sv') \<Longrightarrow>
    rpc_step Q process s (s\<lparr>sv := sv', to_client := to_client s @ [r]\<rparr>)"
| deliver: "to_client s = r # rs \<Longrightarrow> in_flight (cl s) = w # ws \<Longrightarrow>
    client_consume r (cl s) = (Ok (), c') \<Longrightarrow>
    rpc_step Q process s (s\<lparr>cl := c', to_client := rs, replies := replies s @ [(w, r)]\<rparr>)"
| return: "proxy_call_wait (cl s) a = Some (res, c') \<Longrightarrow>
    rpc_step Q process s (s\<lparr>cl := c'\<rparr>)"

definition rpc_init :: "('q, 'm \<times> addr) array_queue \<Rightarrow> 's \<Rightarrow> 'r store \<Rightarrow> ('q, 'm, 's, 'r) rpc" where
  "rpc_init Q s0 st = \<lparr>cl = make_client Q st, to_server = [], sv = make_server s0, to_client = [],
     calls = [], processed = [], replies = []\<rparr>"

inductive rpc_reachable ::
  "('q, 'm \<times> addr) array_queue \<Rightarrow> ('m \<Rightarrow> 's \<Rightarrow> (io_error, 'r) res \<times> 's) \<Rightarrow> 's \<Rightarrow>
   ('q, 'm, 's, 'r) rpc \<Rightarrow> bool"
  for Q process s0 where
  init: "rpc_reachable Q process s0 (rpc_init Q s0 st)"
| step: "rpc_reachable Q process s0 s \<Longrightarrow> rpc_step Q process s t \<Longrightarrow> rpc_reachable Q process s0 t"

text \<open>The reference: one server working through the requests in sequence.\<close>

fun serve_all :: "('m \<Rightarrow> 's \<Rightarrow> (io_error, 'r) res \<times> 's) \<Rightarrow> 's \<Rightarrow> 'm list \<Rightarrow> ('r list \<times> 's) option" where
  "serve_all process s [] = Some ([], s)"
| "serve_all process s (m # ms) = (case process m s of
     (Ok r, s') \<Rightarrow> map_option (\<lambda>(rs, s''). (r # rs, s'')) (serve_all process s' ms)
   | _ \<Rightarrow> None)"

lemma serve_all_snoc:
  "serve_all process s (ms @ [m]) = (case serve_all process s ms of
     None \<Rightarrow> None
   | Some (rs, s') \<Rightarrow> (case process m s' of (Ok r, s'') \<Rightarrow> Some (rs @ [r], s'') | _ \<Rightarrow> None))"
proof (induction ms arbitrary: s)
  case (Cons x xs)
  show ?case
  proof (cases "process x s")
    case (Pair r s1)
    then show ?thesis using Cons.IH [of s1]
      by (cases r) (auto split: option.splits res.splits prod.splits)
  qed
qed (simp split: prod.splits res.splits)

section \<open>The invariant\<close>

definition rpc_inv ::
  "('q, 'm \<times> addr) array_queue \<Rightarrow> ('m \<Rightarrow> 's \<Rightarrow> (io_error, 'r) res \<times> 's) \<Rightarrow> 's \<Rightarrow>
   ('q, 'm, 's, 'r) rpc \<Rightarrow> bool" where
  "rpc_inv Q process s0 s \<longleftrightarrow>
     client_inv Q (cl s) \<and>
     map fst (calls s) = map fst (replies s) @ writers Q (cl s) \<and>
     map snd (calls s) = map fst (processed s) @ to_server s @ map fst (queued Q (cl s)) \<and>
     map snd (processed s) = map snd (replies s) @ to_client s @ responses (sv s) \<and>
     length (in_flight (cl s)) = length (to_server s) + length (responses (sv s)) + length (to_client s) \<and>
     serve_all process s0 (map fst (processed s)) = Some (map snd (processed s), server (sv s))"

lemma rpc_inv_init:
  assumes "array_queue_contract Q"
  shows "rpc_inv Q process s0 (rpc_init Q s0 st)"
  using aq_new_items [OF assms, of RPC_CLIENT_INITIAL_PROXIES] assms
  by (simp add: rpc_inv_def rpc_init_def make_client_def make_server_def client_inv_def writers_def
      queued_def new_sender_def rq_new_def)

lemma server_produce_Some:
  "server_produce sh = (Ok (Some r), sh') \<Longrightarrow> responses sh = r # responses sh' \<and> server sh' = server sh"
  by (auto simp: server_produce_def split: list.splits)

lemma server_consume_Ok:
  "process m (server sh) = (Ok r, s') \<Longrightarrow> server_consume process m sh = (Ok (), sh') \<Longrightarrow>
   sh' = sh\<lparr>server := s', responses := responses sh @ [r]\<rparr>"
  by (simp add: server_consume_def)

lemma call_wait_inv:
  assumes "client_inv Q ch" and "proxy_call_wait ch a = Some (res, ch')"
  shows "client_inv Q ch'" and "writers Q ch' = writers Q ch" and "in_flight ch' = in_flight ch"
    and "queued Q ch' = queued Q ch"
proof -
  from assms(2) have "\<not> writer (completions ch a)"
    and ch': "ch' = ch\<lparr>completions := (completions ch)(a := (completions ch a)\<lparr>item := None\<rparr>)\<rparr>"
    by (auto simp: proxy_call_wait_def completion_wait_def split: if_splits option.splits)
  then show w: "writers Q ch' = writers Q ch" and "in_flight ch' = in_flight ch"
    and "queued Q ch' = queued Q ch" by (simp_all add: writers_def queued_def)
  show "client_inv Q ch'"
    unfolding client_inv_def w using assms(1) ch' by (auto simp: client_inv_def waiting_def)
qed

lemma rpc_step_inv:
  assumes "rpc_step Q process s t" and inv: "rpc_inv Q process s0 s"
  shows "rpc_inv Q process s0 t"
  using assms(1)
proof cases
  case (call a m c')
  from inv have ci: "client_inv Q (cl s)" by (simp add: rpc_inv_def)
  then have Q: "array_queue_contract Q" by (simp add: client_inv_def)
  from call call_send_Ok [OF Q call(3)] call_send_inv [OF ci call(2,3)] inv
  show ?thesis by (simp add: rpc_inv_def writers_def)
next
  case (call_fails a m e c')
  from call_send_Err [OF call_fails(3)] have c: "writers Q c' = writers Q (cl s)"
    "queued Q c' = queued Q (cl s)" "in_flight c' = in_flight (cl s)"
    "completions c' = (completions (cl s))(a := completion_new)"
    by (simp_all add: writers_def queued_def)
  from inv call_fails(2) c have "client_inv Q c'"
    by (auto simp: rpc_inv_def client_inv_def waiting_def)
  with inv c call_fails(1) show ?thesis by (simp add: rpc_inv_def)
next
  case (produce m c')
  from inv have ci: "client_inv Q (cl s)" by (simp add: rpc_inv_def)
  then have Q: "array_queue_contract Q" by (simp add: client_inv_def)
  from client_produce_inv [OF ci produce(2)] have "client_inv Q c'" .
  with client_produce_cases [OF Q, of "cl s"] produce inv show ?thesis
    by (cases rule: client_produce_cases [OF Q, of "cl s"])
      (auto simp: rpc_inv_def writers_def queued_def)
next
  case (serve m ms r s' sv')
  with inv server_consume_Ok [OF serve(3,4)] show ?thesis
    by (simp add: rpc_inv_def serve_all_snoc)
next
  case (respond r sv')
  with inv server_produce_Some [OF respond(2)] show ?thesis
    by (simp add: rpc_inv_def)
next
  case (deliver r rs w ws c')
  from inv have ci: "client_inv Q (cl s)" by (simp add: rpc_inv_def)
  from client_consume_inv [OF ci deliver(4)] client_consume_Cons [OF ci deliver(3), of r] deliver inv
  show ?thesis by (auto simp: rpc_inv_def writers_def queued_def)
next
  case (return a res c')
  from inv have ci: "client_inv Q (cl s)" by (simp add: rpc_inv_def)
  from call_wait_inv [OF ci return(2)] return(1) inv show ?thesis by (simp add: rpc_inv_def)
qed

lemma rpc_reachable_inv:
  "rpc_reachable Q process s0 s \<Longrightarrow> array_queue_contract Q \<Longrightarrow> rpc_inv Q process s0 s"
  by (induction rule: rpc_reachable.induct) (auto intro: rpc_inv_init rpc_step_inv)

section \<open>Matching and progress\<close>


text \<open>The work left for the requests accepted so far: four hand-overs for each of them.\<close>

definition rpc_work :: "('q, 'm \<times> addr) array_queue \<Rightarrow> ('q, 'm, 's, 'r) rpc \<Rightarrow> nat" where
  "rpc_work Q s = 4 * length (queued Q (cl s)) + 3 * length (to_server s) +
     2 * length (responses (sv s)) + length (to_client s)"

definition no_panic :: "('m \<Rightarrow> 's \<Rightarrow> (io_error, 'r) res \<times> 's) \<Rightarrow> bool" where
  "no_panic process \<longleftrightarrow> (\<forall>m s. \<exists>r s'. process m s = (Ok r, s'))"

lemma rpc_progress:
  assumes inv: "rpc_inv Q process s0 s" and "no_panic process"
    and live: "weak (requests (cl s)) \<noteq> 0" and work: "rpc_work Q s \<noteq> 0"
  obtains t where "rpc_step Q process s t" and "rpc_work Q t < rpc_work Q s"
    and "weak (requests (cl t)) = weak (requests (cl s))" and "calls t = calls s"
proof -
  from inv have ci: "client_inv Q (cl s)" by (simp add: rpc_inv_def)
  then have Q: "array_queue_contract Q" by (simp add: client_inv_def)
  consider (q) "queued Q (cl s) \<noteq> []" | (ts) m ms where "to_server s = m # ms"
    | (rs) r rs where "responses (sv s) = r # rs" | (tc) r rs where "to_client s = r # rs"
    using work unfolding rpc_work_def by (metis add_is_0 length_0_conv mult_0_right neq_Nil_conv)
  then show thesis
  proof cases
    case q
    from Q show thesis
    proof (cases rule: client_produce_cases [where ch = "cl s"])
      case (some m w rq')
      from that [OF rpc_step.produce [OF some(2)]] some show thesis
        by (simp add: rpc_work_def queued_def)
    qed (use live q in auto)
  next
    case ts
    from assms(2) obtain r s' where p: "process m (server (sv s)) = (Ok r, s')"
      unfolding no_panic_def by blast
    then have "server_consume process m (sv s)
        = (Ok (), (sv s)\<lparr>server := s', responses := responses (sv s) @ [r]\<rparr>)"
      by (simp add: server_consume_def)
    from that [OF rpc_step.serve [OF ts p this]] ts show thesis by (simp add: rpc_work_def)
  next
    case rs
    then have "server_produce (sv s) = (Ok (Some r), (sv s)\<lparr>responses := rs\<rparr>)"
      by (simp add: server_produce_def)
    from that [OF rpc_step.respond [OF this]] rs show thesis by (simp add: rpc_work_def)
  next
    case tc
    from inv tc have "in_flight (cl s) \<noteq> []" by (auto simp: rpc_inv_def)
    then obtain w ws where w: "in_flight (cl s) = w # ws" by (meson neq_Nil_conv)
    from that [OF rpc_step.deliver [OF tc w client_consume_Cons [OF ci w]]] tc show thesis
      by (simp add: rpc_work_def queued_def)
  qed
qed


section \<open>A run\<close>

text \<open>One call, answered: the state the closed examples look at.\<close>

definition demo_process :: "nat \<Rightarrow> nat \<Rightarrow> (io_error, nat) res \<times> nat" where
  "demo_process m s = (Ok (m + s), Suc s)"

definition demo_client :: "addr list \<Rightarrow> (nat \<times> addr) list \<Rightarrow> nat completion \<Rightarrow>
    (nat \<times> (nat \<times> addr) list, nat) client_end" where
  "demo_client infl q c = \<lparr>in_flight = infl,
     requests = \<lparr>queue = (RPC_CLIENT_INITIAL_PROXIES, q), live = True, weak = 1\<rparr>,
     completions = (\<lambda>_. completion_new)(5 := c)\<rparr>"

definition demo_sent :: "(nat \<times> (nat \<times> addr) list, nat, nat, nat) rpc" where
  "demo_sent = \<lparr>cl = demo_client [] [(7, 5)] \<lparr>item = None, writer = True\<rparr>, to_server = [],
     sv = make_server 10, to_client = [], calls = [(5, 7)], processed = [], replies = []\<rparr>"

definition demo_answered :: "(nat \<times> (nat \<times> addr) list, nat, nat, nat) rpc" where
  "demo_answered = \<lparr>cl = demo_client [] [] \<lparr>item = Some 17, writer = False\<rparr>, to_server = [],
     sv = make_server 11, to_client = [], calls = [(5, 7)], processed = [(7, 17)], replies = [(5, 17)]\<rparr>"

lemmas demo_defs = demo_client_def demo_process_def make_server_def list_queue_def queued_def
  writers_def proxy_call_send_def completion_writer_def completion_new_def sender_push_def
  client_produce_def check_live_proxies_def rq_pop_def server_consume_def server_produce_def
  client_consume_def writer_set_def writer_drop_def

lemma demo_sent_reachable: "rpc_reachable list_queue demo_process 10 demo_sent"
proof -
  let ?i = "rpc_init list_queue 10 (\<lambda>_. completion_new) :: (nat \<times> (nat \<times> addr) list, nat, nat, nat) rpc"
  have "rpc_reachable list_queue demo_process 10 ?i" by (rule rpc_reachable.init)
  moreover have "rpc_step list_queue demo_process ?i
      (?i\<lparr>cl := cl demo_sent, calls := calls ?i @ [(5, 7)]\<rparr>)"
    by (rule rpc_step.call)
      (simp_all add: rpc_init_def make_client_def new_sender_def rq_new_def demo_sent_def
        RPC_CLIENT_INITIAL_PROXIES_def demo_defs)
  ultimately have "rpc_reachable list_queue demo_process 10
      (?i\<lparr>cl := cl demo_sent, calls := calls ?i @ [(5, 7)]\<rparr>)" by (rule rpc_reachable.step)
  then show ?thesis by (simp add: rpc_init_def demo_sent_def)
qed

lemma demo_answered_reachable: "rpc_reachable list_queue demo_process 10 demo_answered"
proof -
  let ?w = "\<lparr>item = None, writer = True\<rparr> :: nat completion"
  let ?s1 = "demo_sent\<lparr>cl := demo_client [5] [] ?w, to_server := [7]\<rparr>"
  let ?s2 = "?s1\<lparr>to_server := [], sv := \<lparr>server = 11, responses = [17]\<rparr>, processed := [(7, 17)]\<rparr>"
  let ?s3 = "?s2\<lparr>sv := make_server 11, to_client := [17]\<rparr>"
  have "rpc_step list_queue demo_process demo_sent ?s1"
    using rpc_step.produce [of list_queue demo_sent 7 "demo_client [5] [] ?w" demo_process]
    by (simp add: demo_sent_def demo_defs)
  with demo_sent_reachable have s1: "rpc_reachable list_queue demo_process 10 ?s1"
    by (rule rpc_reachable.step)
  have "rpc_step list_queue demo_process ?s1 ?s2"
    using rpc_step.serve [of ?s1 7 "[]" demo_process 17 11 "\<lparr>server = 11, responses = [17]\<rparr>" list_queue]
    by (simp add: demo_sent_def demo_defs)
  with s1 have s2: "rpc_reachable list_queue demo_process 10 ?s2" by (rule rpc_reachable.step)
  have "rpc_step list_queue demo_process ?s2 ?s3"
    using rpc_step.respond [of ?s2 17 "make_server 11" list_queue demo_process]
    by (simp add: demo_sent_def demo_defs)
  with s2 have s3: "rpc_reachable list_queue demo_process 10 ?s3" by (rule rpc_reachable.step)
  have "rpc_step list_queue demo_process ?s3 demo_answered"
    using rpc_step.deliver [of ?s3 17 "[]" 5 "[]" "cl demo_answered" list_queue demo_process]
    by (simp add: demo_sent_def demo_answered_def demo_defs)
  with s3 show ?thesis by (rule rpc_reachable.step)
qed



section \<open>Failure and shutdown\<close>

text \<open>
  C27: a dying connection releases its callers.  When the handler is dropped, every caller still
  waiting (its request queued, or sent and not answered) returns with an error, and so does every
  later call.
\<close>

theorem handler_drop_releases_callers:
  assumes "client_inv Q ch"
  shows "(\<forall>a \<in> set (writers Q ch). map_option fst (proxy_call_wait (client_handler_drop Q ch) a)
           = Some (Err (io_other ''proxy recv error''))) \<and>
     (\<forall>a m. fst (proxy_call_send Q (client_handler_drop Q ch) a m) = Err (io_other ''proxy send error''))"
proof -
  have "proxy_call_wait (client_handler_drop Q ch) a \<noteq> None \<and>
      map_option fst (proxy_call_wait (client_handler_drop Q ch) a)
        = Some (Err (io_other ''proxy recv error''))" if "a \<in> set (writers Q ch)" for a
  proof -
    from that assms have "item (completions ch a) = None" by (simp add: client_inv_def waiting_def)
    moreover have "completions (client_handler_drop Q ch) a = (completions ch a)\<lparr>writer := False\<rparr>"
      using that by (simp add: client_handler_drop_def Let_def fold_writer_drop writers_def queued_def
          del: fold_append)
    ultimately show ?thesis by (simp add: proxy_call_wait_def completion_wait_def)
  qed
  then show ?thesis
    by (simp add: client_handler_drop_def Let_def proxy_call_send_def completion_writer_def
        completion_new_def sender_push_def)
qed

theorem handler_drop_releases_callers_witness:
  "5 \<in> set (writers list_queue (cl demo_sent)) \<and>
   map_option fst (proxy_call_wait (client_handler_drop list_queue (cl demo_sent)) 5)
     = Some (Err (io_other ''proxy recv error''))"
proof -
  have inv: "client_inv list_queue (cl demo_sent)"
    using rpc_reachable_inv [OF demo_sent_reachable list_queue_contract] by (simp add: rpc_inv_def)
  have w: "5 \<in> set (writers list_queue (cl demo_sent))" by (simp add: demo_sent_def demo_defs)
  with handler_drop_releases_callers [OF inv] show ?thesis by blast
qed

text \<open>
  A call is refused, and never queued, exactly when the handler is gone or its queue holds as
  many requests as it was made for; a refused call leaves no writer behind, so its caller cannot
  block.
\<close>

theorem call_refused_iff:
  assumes "array_queue_contract Q"
  shows "fst (proxy_call_send Q ch a m) =
      (if \<not> live (requests ch) then Err (io_other ''proxy send error'')
       else if aq_capacity Q (queue (requests ch)) \<le> length (queued Q ch) then Err io_aborted
       else Ok ()) \<and>
     (fst (proxy_call_send Q ch a m) \<noteq> Ok () \<longrightarrow>
       \<not> writer (completions (snd (proxy_call_send Q ch a m)) a) \<and>
       queued Q (snd (proxy_call_send Q ch a m)) = queued Q ch)"
proof (cases "live (requests ch)")
  case True
  show ?thesis
  proof (cases "aq_push Q (queue (requests ch)) (m, a)")
    case None
    then have "aq_capacity Q (queue (requests ch)) \<le> length (queued Q ch)"
      using aq_push_room [OF assms, of "queue (requests ch)" "(m, a)"] unfolding queued_def
      by (metis linorder_not_less option.distinct(1))
    with None True show ?thesis
      by (simp add: proxy_call_send_def sender_push_def store_defs queued_def)
  next
    case (Some q')
    with aq_push_SomeD(1) [OF assms Some] True show ?thesis
      by (simp add: proxy_call_send_def sender_push_def store_defs queued_def)
  qed
qed (simp add: proxy_call_send_def sender_push_def store_defs queued_def)

theorem call_refused_iff_witness:
  "fst (proxy_call_send list_queue (cl demo_sent) 6 9) = Ok ()"
  using call_refused_iff [OF list_queue_contract, of "cl demo_sent" 6 9]
  by (simp add: demo_sent_def demo_defs RPC_CLIENT_INITIAL_PROXIES_def)

end
