(* ===== verification/Proxies.thy ===== *)
theory Proxies
  imports RpcSystem
begin

text \<open>
  The life cycle of a \<open>Proxy\<close> (\<open>audioipc/src/rpccore.rs\<close>): cloning, and the drop that has to wake the
  client handler's connection when it is the last one, since a handler without proxies only finds
  out (and is removed) when its connection is next processed.  A proxy is the event-loop token it is
  connected to, if it is; a wake is recorded as the token passed to \<open>wake_connection\<close>.
\<close>

section \<open>Operations\<close>

type_synonym token = nat
type_synonym proxy = "token option"

definition proxy_drop :: "proxy \<Rightarrow> 'q request_queue \<Rightarrow> token list \<times> 'q request_queue" where
  "proxy_drop p rq =
     (let last_proxy = live_proxies rq; rq' = sender_drop rq in
      if last_proxy = 1 then (case p of Some t \<Rightarrow> ([t], rq') | None \<Rightarrow> ([], rq')) else ([], rq'))"

text \<open>
  \<open>Clone\<close> takes the sender's clone first; without an event loop it panics, which drops the
  half-built proxy.
\<close>

definition proxy_clone :: "proxy \<Rightarrow> 'q request_queue \<Rightarrow> ('e, proxy) res \<times> 'q request_queue" where
  "proxy_clone p rq =
     (let rq' = sender_clone rq in
      case p of Some t \<Rightarrow> (Ok (Some t), rq') | None \<Rightarrow> (Panic, snd (proxy_drop None rq')))"

text \<open>Drops one after the other.\<close>

fun drop_all :: "proxy list \<Rightarrow> 'q request_queue \<Rightarrow> token list \<times> 'q request_queue" where
  "drop_all [] rq = ([], rq)"
| "drop_all (p # ps) rq = (case proxy_drop p rq of (ws, rq') \<Rightarrow>
     (case drop_all ps rq' of (ws', rq'') \<Rightarrow> (ws @ ws', rq'')))"

section \<open>Interleaved drops\<close>

text \<open>
  A drop reads the number of proxies, releases its reference, and wakes according to what it read: two
  atomic operations of its thread, between which other threads may run.
\<close>

datatype drop_event = ReadCount nat | Release nat

record 'q drop_state =
  shared :: "'q request_queue"
  last_seen :: "nat \<Rightarrow> nat"
  wakes :: "token list"

fun drop_step :: "(nat \<Rightarrow> proxy) \<Rightarrow> 'q drop_state \<Rightarrow> drop_event \<Rightarrow> 'q drop_state" where
  "drop_step ps s (ReadCount i) = s\<lparr>last_seen := (last_seen s)(i := live_proxies (shared s))\<rparr>"
| "drop_step ps s (Release i) = s\<lparr>shared := sender_drop (shared s),
     wakes := wakes s @ (if last_seen s i = 1 then (case ps i of Some t \<Rightarrow> [t] | None \<Rightarrow> []) else [])\<rparr>"

text \<open>A drop whose two operations are not separated is \<open>proxy_drop\<close>.\<close>

lemma drop_atomic:
  "let s' = drop_step ps (drop_step ps s (ReadCount i)) (Release i) in
   proxy_drop (ps i) (shared s) = (drop (length (wakes s)) (wakes s'), shared s')"
  by (auto simp: proxy_drop_def Let_def split: option.splits)

text \<open>
  When the proxies of a live handler are dropped one at a time, exactly one wake is sent, by the
  last of them, and it is sent after the count has reached zero, so that the woken handler sees that
  it has no proxies and ends with ConnectionAborted.
\<close>

theorem sequential_drop_wakes_once:
  assumes "live (requests ch)" and "weak (requests ch) = length ps" and "ps \<noteq> []"
    and "\<forall>p \<in> set ps. p = Some t"
  shows "fst (drop_all ps (requests ch)) = [t] \<and>
     client_produce Q (ch\<lparr>requests := snd (drop_all ps (requests ch))\<rparr>) =
       (Err io_aborted, ch\<lparr>requests := snd (drop_all ps (requests ch))\<rparr>)"
proof -
  have "fst (drop_all ps rq) = [t] \<and> weak (snd (drop_all ps rq)) = 0"
    if "live rq" and "weak rq = length ps" for rq :: "'a request_queue"
    using that assms(3,4)
  proof (induction ps arbitrary: rq)
    case (Cons p ps)
    show ?case
    proof (cases ps)
      case Nil
      with Cons.prems show ?thesis
        by (simp add: proxy_drop_def live_proxies_def sender_drop_def)
    next
      case (Cons q qs)
      have "proxy_drop p rq = ([], sender_drop rq)"
        using Cons.prems(1,2) Cons by (simp add: proxy_drop_def live_proxies_def)
      moreover have "fst (drop_all ps (sender_drop rq)) = [t] \<and> weak (snd (drop_all ps (sender_drop rq))) = 0"
        by (rule Cons.IH) (use Cons.prems Cons in \<open>auto simp: sender_drop_def\<close>)
      ultimately show ?thesis by (simp split: prod.splits)
    qed
  qed simp
  with assms(1,2) show ?thesis by (simp add: client_produce_def check_live_proxies_def)
qed

theorem sequential_drop_wakes_once_witness:
  "fst (drop_all [Some 3, Some 3] ((requests (cl demo_sent))\<lparr>weak := 2\<rparr>)) = [3]"
  using sequential_drop_wakes_once
    [of "(cl demo_sent)\<lparr>requests := (requests (cl demo_sent))\<lparr>weak := 2\<rparr>\<rparr>" "[Some 3, Some 3]" 3 list_queue]
  by (simp add: demo_sent_def demo_client_def)

text \<open>
  C32: drops in two threads can lose the wake.  Both threads read a count of two before either
  releases its reference: the count ends at zero, no wake is sent, and the handler, which would end
  at its next turn, is not given one.
\<close>

theorem concurrent_drop_loses_wake:
  fixes Q :: "('q, 'm \<times> addr) array_queue" and ch :: "('q, 'r) client_end"
  assumes "live (requests ch)" and "weak (requests ch) = 2" and "ps 0 = Some t" and "ps 1 = Some t"
  shows "let s = foldl (drop_step ps) \<lparr>shared = requests ch, last_seen = (\<lambda>_. 0), wakes = []\<rparr>
           [ReadCount 0, ReadCount 1, Release 0, Release 1] in
     wakes s = [] \<and> weak (shared s) = 0 \<and> fst (client_produce Q (ch\<lparr>requests := shared s\<rparr>)) = Err io_aborted"
  using assms
  by (simp add: Let_def live_proxies_def sender_drop_def client_produce_def check_live_proxies_def)

theorem concurrent_drop_loses_wake_witness:
  "wakes (foldl (drop_step (\<lambda>_. Some 3))
      \<lparr>shared = (requests (cl demo_sent))\<lparr>weak := 2\<rparr>, last_seen = (\<lambda>_. 0), wakes = []\<rparr>
      [ReadCount 0, ReadCount 1, Release 0, Release 1]) = []"
  using concurrent_drop_loses_wake
    [of "(cl demo_sent)\<lparr>requests := (requests (cl demo_sent))\<lparr>weak := 2\<rparr>\<rparr>" "\<lambda>_. Some 3" 3 list_queue]
  by (simp add: demo_sent_def demo_client_def)

end
