(* ===== verification/Teardown.thy ===== *)
theory Teardown
  imports EventLoop Proxies
begin

text \<open>
  How a connection ends: the last proxy of its client handler is dropped and wakes the loop, the woken
  handler finds that it has no proxies, the loop removes the connection, and the peer, which reads the end of the
  stream, removes its own, with the server behind it.  The server's end of a stream's callbacks goes this way
  when the stream is destroyed, which is what the drop of a client's stream waits for.
\<close>

text \<open>
  The loop's connections have drivers of several types behind \<open>dyn Driver\<close>: \<open>boxed\<close> injects the framed drivers of one
  type, and the loop's operations run on a boxed driver what the type's operations do.
\<close>

definition runs_boxed :: "'d driver_ops \<Rightarrow> ('f \<Rightarrow> 'd) \<Rightarrow> 'f driver_ops \<Rightarrow> bool" where
  "runs_boxed D boxed F \<longleftrightarrow>
     (\<forall>d b. drv_flush_outbound D (boxed d) b =
        map_option (\<lambda>(r, d', b'). (r, boxed d', b')) (drv_flush_outbound F d b)) \<and>
     (\<forall>d b. drv_process_inbound D (boxed d) b =
        map_option (\<lambda>(r, d', b'). (r, boxed d', b')) (drv_process_inbound F d b))"

lemma flush_without_proxies:
  assumes "runs_boxed D boxed (framed_driver_ops bi iops client_consume bo oops (client_produce Q))"
    and "weak (requests ch) = 0"
  shows "drv_flush_outbound D (boxed \<lparr>codec = e, handler = ch\<rparr>) b =
    Some (Err io_aborted, boxed \<lparr>codec = e, handler = ch\<rparr>, b)"
  using assms by (simp add: runs_boxed_def framed_driver_ops_def flush_outbound.simps client_produce_def
      check_live_proxies_def)

lemma flush_idle_server:
  assumes "runs_boxed D boxed (framed_driver_ops bi iops (server_consume process) bo oops server_produce)"
    and "responses sh = []"
  shows "drv_flush_outbound D (boxed \<lparr>codec = e, handler = sh\<rparr>) b = Some (Ok (), boxed \<lparr>codec = e, handler = sh\<rparr>, b)"
  using assms by (simp add: runs_boxed_def framed_driver_ops_def flush_outbound.simps server_produce_def)

text \<open>A poll whose only work is one wake, or one event, of a connection that is then removed.\<close>

lemma removed_connections:
  assumes "slab_contract S" and "sl_get S (connections el) t = Some c"
  shows "sl_get S (connections (remove_connection S t (el\<lparr>connections := sl_set S (connections el) t c', loop_registry := reg\<rparr>))) =
    (sl_get S (connections el))(t := None)"
  using assms by (simp add: remove_connection_def slab_laws split: prod.split)

lemma remove_connection_requests [simp]: "loop_requests (remove_connection S t el) = loop_requests el"
  by (simp add: remove_connection_def split: option.split prod.split)

lemma poll_wake_fails:
  assumes S: "slab_contract S" and LQ: "array_queue_contract LQ"
    and c: "sl_get S (connections el) t = Some c"
    and q: "aq_items LQ (queue (loop_requests el)) = [WakeConnection t]"
    and f: "drv_flush_outbound D (driver c) (outbound c) = Some (Err e, d', b')"
  shows "\<exists>el'. poll C D S LQ [None] [] ws el = Some (Ok True, el') \<and>
    sl_get S (connections el') = (sl_get S (connections el))(t := None)"
proof -
  obtain q' where pop: "aq_pop LQ (queue (loop_requests el)) = Some (WakeConnection t, q')"
    and q': "aq_items LQ q' = []"
    using aq_pop_cons [OF LQ q] by blast
  let ?rq = "(loop_requests el)\<lparr>queue := q'\<rparr>" and ?script = "if ws = [] then ([], []) else hd ws"
  have end_pop: "rq_pop LQ ?rq = (None, ?rq)"
    using aq_pop_empty [OF LQ q'] by (simp add: rq_pop_def)
  let ?el = "el\<lparr>loop_requests := ?rq\<rparr>" and ?c = "c\<lparr>driver := d', outbound := b'\<rparr>"
  let ?el' = "remove_connection S t (?el\<lparr>connections := sl_set S (connections ?el) t ?c, loop_registry := loop_registry el\<rparr>)"
  have "run_connection S t (handle_wake C D) ?script ?el = Some (Ok (), ?el')"
    using c f by (simp add: run_connection_def handle_wake_def conn_flush_outbound_def)
  then have "process_requests C D S LQ ws el = process_requests C D S LQ (tl ws) ?el'"
    by (subst process_requests.simps) (simp add: rq_pop_def pop Let_def)
  also have "\<dots> = Some (Ok True, ?el'\<lparr>loop_requests := ?rq\<rparr>)"
    by (subst process_requests.simps) (simp add: end_pop)
  finally show ?thesis
    using removed_connections [OF S, where el = ?el and t = t and c' = ?c and reg = "loop_registry el"] c by (simp add: poll_def)
qed

lemma update_registration_ends:
  "\<exists>r s'. update_registration new s = Some (r, s') \<and> r \<noteq> Panic \<and> outbound (cn s') = outbound (cn s)"
  by (auto simp: update_registration_def Let_def registry_do_def split: list.split option.split)

lemma poll_eof:
  assumes S: "slab_contract S" and LQ: "array_queue_contract LQ" and C: "cmsg_abi_contract C"
    and c: "sl_get S (connections el) t = Some c" "ctoken c = t" "t \<noteq> WAKE_TOKEN" "cmsg (io c) = []"
      "conn_buf_is_empty (outbound c)"
    and q: "aq_items LQ (queue (loop_requests el)) = []"
    and f: "drv_flush_outbound D (driver c) (outbound c) = Some (Ok (), d', outbound c)"
  shows "\<exists>el'. poll C D S LQ [None] [\<lparr>ev_token = t, ev_readable = True, ev_script = (SysRet ([], []) # os, txs)\<rparr>] ws el =
      Some (Ok True, el') \<and> sl_get S (connections el') = (sl_get S (connections el))(t := None)"
proof -
  let ?s = "\<lparr>cn = c, rg = loop_registry el, rx = SysRet ([], []) # os, tx = txs, accepted = []\<rparr>"
  let ?c = "c\<lparr>driver := d'\<rparr>"
  have recv: "recv_msg C (SysRet ([], [])) (io c) (inbound c) = (Ok 0, io c, inbound c)"
    using decode_no_handles [OF C] c(4) by (simp add: recv_msg_def)
  then have r: "recv_inbound C D ?s = Some (Ok True, ?s\<lparr>rx := os\<rparr>)"
    by (simp add: recv_inbound_def)
  let ?s1 = "?s\<lparr>cn := ?c, rx := os\<rparr>"
  have fl: "conn_flush_outbound D (?s\<lparr>rx := os\<rparr>) = Some (Ok (), ?s1)"
    using f by (simp add: conn_flush_outbound_def)
  have l: "send_loop C txs ?s1 = Some (Ok Drained, ?s1)"
    using c(5) by (subst send_loop.simps) simp
  obtain r1 s1 where cw: "clear_writable ?s1 = Some (r1, s1)" "r1 \<noteq> Panic" "conn_buf_is_empty (outbound (cn s1))"
    using update_registration_ends [of _ ?s1] c(5) unfolding clear_writable_def by fastforce
  obtain r2 s2 where cr: "clear_readable s1 = Some (r2, s2)" "r2 \<noteq> Panic"
    using update_registration_ends [of _ s1] unfolding clear_readable_def by blast
  obtain rr s' where h: "handle_event C D t True ?s = Some (rr, s')" "rr \<noteq> Panic" "rr \<noteq> Ok False"
  proof (cases r1)
    case (Ok u)
    with r fl l cw cr c(2,5) show ?thesis
      using that by (cases r2) (auto simp: handle_event_def send_outbound_def)
  next
    case (Err e)
    with r fl l cw c(2,5) show ?thesis
      using that by (simp add: handle_event_def send_outbound_def)
  qed (use cw(2) in simp)
  let ?el' = "remove_connection S t (el\<lparr>connections := sl_set S (connections el) t (cn s'), loop_registry := rg s'\<rparr>)"
  have run: "run_connection S t (handle_event C D t True) (SysRet ([], []) # os, txs) el = Some (Ok (), ?el')"
    using h c(1) by (cases rr) (auto simp: run_connection_def Let_def)
  have "rq_pop LQ (loop_requests el) = (None, loop_requests el)"
    using aq_pop_empty [OF LQ q] by (simp add: rq_pop_def)
  then have "process_requests C D S LQ ws ?el' = Some (Ok True, ?el'\<lparr>loop_requests := loop_requests el\<rparr>)"
    by (subst process_requests.simps) simp
  then show ?thesis using run c(3) removed_connections [OF S c(1), where c' = "cn s'" and reg = "rg s'"]
    by (simp add: poll_def)
qed

text \<open>
  C21: when the proxies of a connection have been dropped, one after the other, the wake that the last one
  sends makes the next poll remove the connection, and nothing else, from the loop.  The peer whose
  connection then reads the end of the stream, with nothing left to send, removes its own
  in its next poll, with the server behind it.
\<close>

theorem last_proxy_ends_connection:
  assumes S: "slab_contract S" "slab_contract S'" and LQ: "array_queue_contract LQ" "array_queue_contract LQ'"
    and C: "cmsg_abi_contract C"
    and D: "runs_boxed D boxed (framed_driver_ops bi iops client_consume bo oops (client_produce Q))"
    and D': "runs_boxed D' boxed' (framed_driver_ops bi' iops' (server_consume process) bo' oops' server_produce)"
    and c: "sl_get S (connections el) t = Some c" "driver c = boxed \<lparr>codec = e, handler = ch\<rparr>"
    and ps: "live (requests ch)" "weak (requests ch) = length ps" "ps \<noteq> []" "\<forall>p \<in> set ps. p = Some t"
    and el: "live (loop_requests el)" "aq_items LQ (queue (loop_requests el)) = []"
      "0 < aq_capacity LQ (queue (loop_requests el))"
    and peer: "sl_get S' (connections el') u = Some p" "driver p = boxed' \<lparr>codec = e', handler = sh\<rparr>"
      "responses sh = []" "ctoken p = u" "u \<noteq> WAKE_TOKEN" "cmsg (io p) = []" "conn_buf_is_empty (outbound p)"
      "aq_items LQ' (queue (loop_requests el')) = []"
  shows "\<exists>el1 el2.
    poll C D S LQ [None] [] [] (fold (\<lambda>tok. handle_wake_connection LQ tok None) (fst (drop_all ps (requests ch)))
      (el\<lparr>connections := sl_set S (connections el) t
        (c\<lparr>driver := boxed \<lparr>codec = e, handler = ch\<lparr>requests := snd (drop_all ps (requests ch))\<rparr>\<rparr>\<rparr>)\<rparr>)) =
      Some (Ok True, el1) \<and> sl_get S (connections el1) = (sl_get S (connections el))(t := None) \<and>
    poll C D' S' LQ' [None] [\<lparr>ev_token = u, ev_readable = True, ev_script = ([SysRet ([], [])], [])\<rparr>] [] el' =
      Some (Ok True, el2) \<and> sl_get S' (connections el2) = (sl_get S' (connections el'))(u := None)"
proof -
  let ?ch = "ch\<lparr>requests := snd (drop_all ps (requests ch))\<rparr>"
  let ?c = "c\<lparr>driver := boxed \<lparr>codec = e, handler = ?ch\<rparr>\<rparr>"
  let ?el = "el\<lparr>connections := sl_set S (connections el) t ?c\<rparr>"
  from sequential_drop_wakes_once [OF ps, of Q] have w: "fst (drop_all ps (requests ch)) = [t]"
    and z: "client_produce Q ?ch = (Err io_aborted, ?ch)" by simp_all
  from aq_push_room [OF LQ(1), of "queue (loop_requests el)" "WakeConnection t"] el(2,3) obtain q' where
    push: "aq_push LQ (queue (loop_requests el)) (WakeConnection t) = Some q'" "aq_items LQ q' = [WakeConnection t]"
    by auto
  let ?woken = "?el\<lparr>loop_requests := (loop_requests el)\<lparr>queue := q'\<rparr>\<rparr>"
  have wake: "handle_wake_connection LQ t None ?el = ?woken"
    using el(1) push(1) by (simp add: handle_wake_connection_def push_request_def sender_push_def)
  have "drv_flush_outbound D (driver ?c) (outbound ?c) = Some (Err io_aborted, boxed \<lparr>codec = e, handler = ?ch\<rparr>, outbound c)"
    using D z by (simp add: runs_boxed_def framed_driver_ops_def flush_outbound.simps)
  moreover have g: "sl_get S (connections ?woken) = (sl_get S (connections el))(t \<mapsto> ?c)"
    using S(1) c(1) by (simp add: slab_laws)
  ultimately obtain el1 where one: "poll C D S LQ [None] [] [] ?woken = Some (Ok True, el1)"
    "sl_get S (connections el1) = (sl_get S (connections ?woken))(t := None)"
    using poll_wake_fails [OF S(1) LQ(1), of ?woken t ?c D] push(2) by fastforce
  have "drv_flush_outbound D' (driver p) (outbound p) = Some (Ok (), boxed' \<lparr>codec = e', handler = sh\<rparr>, outbound p)"
    using flush_idle_server [OF D' peer(3)] peer(2) by simp
  from poll_eof [OF S(2) LQ(2) C peer(1,4-8) this] obtain el2 where
    two: "poll C D' S' LQ' [None] [\<lparr>ev_token = u, ev_readable = True, ev_script = ([SysRet ([], [])], [])\<rparr>] [] el' =
      Some (Ok True, el2)" "sl_get S' (connections el2) = (sl_get S' (connections el'))(u := None)" by blast
  from one g two show ?thesis by (simp add: w wake)
qed

text \<open>A client with two proxies and its peer, each alone in a loop.\<close>

definition demo_end :: "'h \<Rightarrow> ((nat \<times> (lcodec, 'h) framed_driver connection) list,
    nat \<times> (lcodec, 'h) framed_driver request list) event_loop" where
  "demo_end h = \<lparr>connections = [(0, cn (demo_quiet h))],
     loop_requests = \<lparr>queue = (64, []), live = True, weak = 1\<rparr>,
     loop_registry = \<lparr>reg_outcomes = [], reg_log = []\<rparr>, sent_results = [], hung_up = {}\<rparr>"

abbreviation demo_end_client :: "(nat \<times> (nat \<times> addr) list, byte list) client_end" where
  "demo_end_client \<equiv> (make_client list_queue (\<lambda>_. completion_new))\<lparr>requests := \<lparr>queue = (32, []), live = True, weak = 2\<rparr>\<rparr>"

lemma demo_end_facts:
  "sl_get list_slab (connections (demo_end h)) 0 = Some (cn (demo_quiet h))"
  "driver (cn (demo_quiet h)) = \<lparr>codec = lcodec_default, handler = h\<rparr>"
  "live (loop_requests (demo_end h))" "aq_items list_queue (queue (loop_requests (demo_end h))) = []"
  "0 < aq_capacity list_queue (queue (loop_requests (demo_end h)))"
  "ctoken (cn (demo_quiet h)) = 0" "0 \<noteq> WAKE_TOKEN" "cmsg (io (cn (demo_quiet h))) = []"
  "conn_buf_is_empty (outbound (cn (demo_quiet h)))"
  by (simp_all add: demo_end_def demo_quiet_def framed_driver_new_def list_slab_def list_queue_def WAKE_TOKEN_def
      pipe_new_def conn_buf_is_empty_def conn_buf_new_def)

lemma runs_unboxed: "runs_boxed D (\<lambda>d. d) D"
  by (simp add: runs_boxed_def option.map_id)

theorem last_proxy_ends_connection_witness:
  "\<exists>c el1 el2.
    poll linux_cmsg (framed_driver_ops raw_bincode default_handle_ops client_consume (table_bincode [1])
        default_handle_ops (client_produce list_queue)) list_slab list_queue [None] [] []
      (handle_wake_connection list_queue 0 None ((demo_end demo_end_client)\<lparr>connections := [(0, c)]\<rparr>)) = Some (Ok True, el1) \<and>
    connections el1 = [] \<and>
    poll linux_cmsg (framed_driver_ops raw_bincode default_handle_ops (server_consume (\<lambda>m s. (Ok m, s))) raw_bincode
        default_handle_ops server_produce) list_slab list_queue [None]
      [\<lparr>ev_token = 0, ev_readable = True, ev_script = ([SysRet ([], [])], [])\<rparr>] [] (demo_end (make_server ())) =
      Some (Ok True, el2) \<and> connections el2 = []"
proof -
  let ?D = "framed_driver_ops raw_bincode default_handle_ops client_consume (table_bincode [1])
    default_handle_ops (client_produce list_queue)"
  let ?D' = "framed_driver_ops raw_bincode default_handle_ops (server_consume (\<lambda>m s. (Ok m, s))) raw_bincode
    default_handle_ops server_produce"
  have client: "live (requests demo_end_client)" "weak (requests demo_end_client) = length [Some 0, Some 0]"
    "[Some 0, Some (0 :: nat)] \<noteq> []" "\<forall>p \<in> set [Some 0, Some 0]. p = Some (0 :: nat)" by simp_all
  have d: "fst (drop_all [Some 0, Some 0] (requests demo_end_client)) = [0]"
    by (simp add: proxy_drop_def live_proxies_def sender_drop_def Let_def)
  have upd: "sl_set list_slab (connections (demo_end demo_end_client)) 0 c = [(0, c)]" for c
    by (simp add: list_slab_def demo_end_def)
  have empty: "kvs = []" if "sl_get list_slab kvs = (sl_get list_slab (connections (demo_end h)))(0 := None)" for kvs h
    using that by (simp add: list_slab_def demo_end_def)
  have idle: "responses (make_server ()) = []" by (simp add: make_server_def)
  note ended = last_proxy_ends_connection [OF list_slab_contract list_slab_contract list_queue_contract
      list_queue_contract linux_cmsg_contract runs_unboxed [of ?D] runs_unboxed [of ?D'] demo_end_facts(1,2) client
      demo_end_facts(3-5) demo_end_facts(1,2) idle demo_end_facts(6-9,4)]
  show ?thesis using ended unfolding d upd fold_simps
    by (elim exE conjE, intro exI conjI) (assumption | erule empty)+
qed

end
