(* ===== verification/Shm.thy ===== *)
theory Shm
  imports Handles
begin

text \<open>
  \<open>audioipc/src/shm.rs\<close> on Linux: creating an unlinked file for shared memory, allocating its whole
  size before it is mapped, and the bounds-checked view of the mapping.  The system calls are
  parameters over a state \<open>'w\<close> of the system; \<open>os_errno\<close> is what \<open>last_os_error\<close> reads, which a call
  sets only when it reports its failure through \<open>errno\<close>.
\<close>

section \<open>The view\<close>

record shared_mem =
  shm_file :: handle
  shm_size :: usize
  shm_bytes :: "byte list"

definition get_slice :: "shared_mem \<Rightarrow> usize \<Rightarrow> ('b ipc_error, byte list) res" where
  "get_slice s n =
     (if n \<le> shm_size s then Ok (take (unat n) (shm_bytes s)) else Err (ErrOther ''mmap size''))"

text \<open>\<open>get_mut_slice\<close> is used to copy into the slice; \<open>copy_from_slice\<close> panics if the lengths differ.\<close>

definition get_mut_slice_copy ::
  "shared_mem \<Rightarrow> usize \<Rightarrow> byte list \<Rightarrow> ('b ipc_error, shared_mem) res" where
  "get_mut_slice_copy s n src =
     (if n \<le> shm_size s then
        (if length src = unat n then Ok (s\<lparr>shm_bytes := src @ drop (unat n) (shm_bytes s)\<rparr>) else Panic)
      else Err (ErrOther ''mmap size''))"

definition get_size :: "shared_mem \<Rightarrow> usize" where
  "get_size s = shm_size s"

section \<open>Creating the file\<close>

record 'w shm_os =
  os_memfd_create :: "byte list \<Rightarrow> 'w \<Rightarrow> int \<times> 'w"
  os_create_new :: "byte list \<Rightarrow> 'w \<Rightarrow> (io_error, handle) res \<times> 'w"
  os_remove_file :: "byte list \<Rightarrow> 'w \<Rightarrow> 'w"
  os_shm_open :: "byte list \<Rightarrow> 'w \<Rightarrow> int \<times> 'w"
  os_shm_unlink :: "byte list \<Rightarrow> 'w \<Rightarrow> 'w"
  os_temp_dir :: "byte list"
  os_dev_shm :: "byte list"
  os_join :: "byte list \<Rightarrow> byte list \<Rightarrow> byte list"
  os_set_len :: "handle \<Rightarrow> nat \<Rightarrow> 'w \<Rightarrow> (io_error, unit) res \<times> 'w"
  os_fallocate :: "handle \<Rightarrow> nat \<Rightarrow> 'w \<Rightarrow> int \<times> 'w"
  os_posix_fallocate :: "handle \<Rightarrow> nat \<Rightarrow> 'w \<Rightarrow> int \<times> 'w"
  os_errno :: "'w \<Rightarrow> int"
  os_mmap :: "handle \<Rightarrow> nat \<Rightarrow> 'w \<Rightarrow> (io_error, byte list) res \<times> 'w"
  os_dup :: "handle \<Rightarrow> 'w \<Rightarrow> handle \<times> 'w"

definition ENOSPC :: int where
  "ENOSPC = 28"

definition last_os_error :: "'w shm_os \<Rightarrow> 'w \<Rightarrow> io_error" where
  "last_os_error os w = IoError (OsKind (os_errno os w)) ''''"

text \<open>The ways to get a file, in order: \<open>memfd_create\<close>, \<open>/dev/shm\<close>, \<open>shm_open\<close>, the temporary directory.\<close>

definition open_shm_file_impl ::
  "'w shm_os \<Rightarrow> byte list \<Rightarrow> 'w \<Rightarrow> ('b ipc_error, handle) res \<times> 'w" where
  "open_shm_file_impl os ident w =
     (if 0 \<in> set ident then (Panic, w)
      else case os_memfd_create os ident w of (r, w1) \<Rightarrow>
        if 0 \<le> r then (Ok r, w1)
        else
          let path = os_join os (os_dev_shm os) ident in
          (case os_create_new os path w1 of
             (Ok file, w2) \<Rightarrow> (Ok file, os_remove_file os path w2)
           | (_, w2) \<Rightarrow>
               (case os_shm_open os ident w2 of (fd, w3) \<Rightarrow>
                  if 0 \<le> fd then (Ok fd, os_shm_unlink os ident w3)
                  else
                    let path = os_join os (os_temp_dir os) ident in
                    (case os_create_new os path w3 of
                       (Ok file, w4) \<Rightarrow> (Ok file, os_remove_file os path w4)
                     | (Err e, w4) \<Rightarrow> (Err (ErrIo e), w4)
                     | (Panic, w4) \<Rightarrow> (Panic, w4)))))"

text \<open>On Android a file of shared memory is created with its size, and executing it is forbidden.\<close>

definition open_shm_file_android ::
  "(usize \<Rightarrow> 'w \<Rightarrow> int \<times> 'w) \<Rightarrow> (int \<Rightarrow> 'w \<Rightarrow> int \<times> 'w) \<Rightarrow> 'w shm_os \<Rightarrow> usize \<Rightarrow> 'w \<Rightarrow>
   ('b ipc_error, handle) res \<times> 'w" where
  "open_shm_file_android create set_prot_read_write os n w = (case create n w of (fd, w1) \<Rightarrow>
     if 0 \<le> fd then
       (case set_prot_read_write fd w1 of (r, w2) \<Rightarrow> (if r = 0 then Ok fd else Panic, w2))
     else (Err (ErrIo (last_os_error os w1)), w1))"

definition handle_enospc :: "'w shm_os \<Rightarrow> 'w \<Rightarrow> ('b ipc_error, unit) res" where
  "handle_enospc os w =
     (let errno = os_errno os w in
      if errno = 0 then Panic
      else if errno = ENOSPC then Err (ErrIo (last_os_error os w)) else Ok ())"

definition allocate_file ::
  "'w shm_os \<Rightarrow> handle \<Rightarrow> usize \<Rightarrow> 'w \<Rightarrow> ('b ipc_error, unit) res \<times> 'w" where
  "allocate_file os file n w = (case os_set_len os file (unat n) w of
     (Err e, w1) \<Rightarrow> (Err (ErrIo e), w1)
   | (Panic, w1) \<Rightarrow> (Panic, w1)
   | (Ok _, w1) \<Rightarrow>
       if 2 ^ 63 \<le> unat n then (Panic, w1)
       else case os_fallocate os file (unat n) w1 of (r, w2) \<Rightarrow>
         if r = 0 then (Ok (), w2)
         else (case handle_enospc os w2 of
            Err e \<Rightarrow> (Err e, w2)
          | Panic \<Rightarrow> (Panic, w2)
          | Ok _ \<Rightarrow>
              (case os_posix_fallocate os file (unat n) w2 of (r, w3) \<Rightarrow>
                 if r = 0 then (Ok (), w3)
                 else (case handle_enospc os w3 of
                    Err e \<Rightarrow> (Err e, w3) | Panic \<Rightarrow> (Panic, w3) | Ok _ \<Rightarrow> (Ok (), w3)))))"

definition open_shm_file ::
  "'w shm_os \<Rightarrow> byte list \<Rightarrow> usize \<Rightarrow> 'w \<Rightarrow> ('b ipc_error, handle) res \<times> 'w" where
  "open_shm_file os ident n w = (case open_shm_file_impl os ident w of
     (Ok file, w1) \<Rightarrow> (case allocate_file os file n w1 of
        (Ok _, w2) \<Rightarrow> (Ok file, w2) | (Err e, w2) \<Rightarrow> (Err e, w2) | (Panic, w2) \<Rightarrow> (Panic, w2))
   | (Err e, w1) \<Rightarrow> (Err e, w1)
   | (Panic, w1) \<Rightarrow> (Panic, w1))"

section \<open>SharedMem\<close>

text \<open>Mapping a file: the assertion on the mapping's length is that of the code.\<close>

definition map_shm ::
  "'w shm_os \<Rightarrow> handle \<Rightarrow> usize \<Rightarrow> 'w \<Rightarrow> ('b ipc_error, shared_mem) res \<times> 'w" where
  "map_shm os file n w = (case os_mmap os file (unat n) w of
     (Ok bytes, w1) \<Rightarrow>
       if length bytes = unat n
       then (Ok \<lparr>shm_file = file, shm_size = n, shm_bytes = bytes\<rparr>, w1) else (Panic, w1)
   | (Err e, w1) \<Rightarrow> (Err (ErrIo e), w1)
   | (Panic, w1) \<Rightarrow> (Panic, w1))"

definition shared_mem_new ::
  "'w shm_os \<Rightarrow> byte list \<Rightarrow> usize \<Rightarrow> 'w \<Rightarrow> ('b ipc_error, shared_mem) res \<times> 'w" where
  "shared_mem_new os ident n w = (case open_shm_file os ident n w of
     (Ok file, w1) \<Rightarrow> map_shm os file n w1
   | (Err e, w1) \<Rightarrow> (Err e, w1)
   | (Panic, w1) \<Rightarrow> (Panic, w1))"

definition shm_make_handle ::
  "'w shm_os \<Rightarrow> shared_mem \<Rightarrow> 'w \<Rightarrow> ('b ipc_error, handle) res \<times> 'w" where
  "shm_make_handle os s w = (case os_dup os (shm_file s) w of (fd, w1) \<Rightarrow>
     (map_err ErrIo (platform_handle_duplicate (\<lambda>_. fd) (last_os_error os w1) (shm_file s)), w1))"

definition shared_mem_from ::
  "'w shm_os \<Rightarrow> handle \<Rightarrow> usize \<Rightarrow> 'w \<Rightarrow> ('b ipc_error, shared_mem) res \<times> 'w" where
  "shared_mem_from os h n w = map_shm os h n w"

section \<open>Properties\<close>

definition shm_inv :: "shared_mem \<Rightarrow> bool" where
  "shm_inv s \<longleftrightarrow> length (shm_bytes s) = unat (shm_size s)"

lemma map_shm_inv: "map_shm os file n w = (Ok s, w') \<Longrightarrow> shm_inv s \<and> shm_size s = n"
  by (auto simp: map_shm_def shm_inv_def split: prod.splits res.splits if_splits)

text \<open>
  What the program relies on of the system: a failed \<open>fallocate\<close> sets \<open>errno\<close>, which \<open>posix_fallocate\<close> does
  not clear, a mapping has the length asked for, and no call panics.
\<close>

definition shm_os_contract :: "'w shm_os \<Rightarrow> bool" where
  "shm_os_contract os \<longleftrightarrow>
     (\<forall>p w. fst (os_create_new os p w) \<noteq> Panic) \<and> (\<forall>h n w. fst (os_set_len os h n w) \<noteq> Panic) \<and>
     (\<forall>h n w. case os_fallocate os h n w of (r, w') \<Rightarrow> r \<noteq> 0 \<longrightarrow> os_errno os w' \<noteq> 0) \<and>
     (\<forall>h n w. os_errno os w \<noteq> 0 \<longrightarrow> os_errno os (snd (os_posix_fallocate os h n w)) \<noteq> 0) \<and>
     (\<forall>h n w. case fst (os_mmap os h n w) of Ok bytes \<Rightarrow> length bytes = n | Err _ \<Rightarrow> True | Panic \<Rightarrow> False)"

lemma shm_os_contractD:
  assumes "shm_os_contract os"
  shows "fst (os_create_new os p w) \<noteq> Panic" and "fst (os_set_len os h n w) \<noteq> Panic"
    and "os_fallocate os h n w = (r, w') \<Longrightarrow> r \<noteq> 0 \<Longrightarrow> os_errno os w' \<noteq> 0"
    and "os_posix_fallocate os h n w = (r, w') \<Longrightarrow> os_errno os w \<noteq> 0 \<Longrightarrow> os_errno os w' \<noteq> 0"
    and "os_mmap os h n w = (m, w') \<Longrightarrow> case m of Ok bytes \<Rightarrow> length bytes = n | Err _ \<Rightarrow> True | Panic \<Rightarrow> False"
proof -
  have "case os_fallocate os h n w of (r, w') \<Rightarrow> r \<noteq> 0 \<longrightarrow> os_errno os w' \<noteq> 0"
    and "os_errno os w \<noteq> 0 \<longrightarrow> os_errno os (snd (os_posix_fallocate os h n w)) \<noteq> 0"
    and "case fst (os_mmap os h n w) of Ok bytes \<Rightarrow> length bytes = n | Err _ \<Rightarrow> True | Panic \<Rightarrow> False"
    using assms by (simp_all add: shm_os_contract_def)
  then show "os_fallocate os h n w = (r, w') \<Longrightarrow> r \<noteq> 0 \<Longrightarrow> os_errno os w' \<noteq> 0"
    and "os_posix_fallocate os h n w = (r, w') \<Longrightarrow> os_errno os w \<noteq> 0 \<Longrightarrow> os_errno os w' \<noteq> 0"
    and "os_mmap os h n w = (m, w') \<Longrightarrow> case m of Ok bytes \<Rightarrow> length bytes = n | Err _ \<Rightarrow> True | Panic \<Rightarrow> False"
    by simp_all
qed (use assms in \<open>simp_all add: shm_os_contract_def\<close>)

lemma open_shm_file_impl_safe:
  assumes os: "shm_os_contract os" and i: "0 \<notin> set ident"
  shows "fst (open_shm_file_impl os ident w) \<noteq> Panic"
proof -
  obtain r w1 where 1: "os_memfd_create os ident w = (r, w1)" by fastforce
  obtain r2 w2 where 2: "os_create_new os (os_join os (os_dev_shm os) ident) w1 = (r2, w2)" by fastforce
  obtain r3 w3 where 3: "os_shm_open os ident w2 = (r3, w3)" by fastforce
  obtain r4 w4 where 4: "os_create_new os (os_join os (os_temp_dir os) ident) w3 = (r4, w4)" by fastforce
  have "r4 \<noteq> Panic" using shm_os_contractD(1) [OF os, of "os_join os (os_temp_dir os) ident" w3] 4 by simp
  with 1 2 3 4 i show ?thesis
    by (cases r2; cases r4) (simp_all add: open_shm_file_impl_def Let_def)
qed

lemma allocate_file_safe:
  assumes os: "shm_os_contract os" and n: "unat n < 2 ^ 63"
  shows "fst (allocate_file os h n w) \<noteq> Panic"
proof -
  obtain r w1 where l: "os_set_len os h (unat n) w = (r, w1)" by fastforce
  then have "r \<noteq> Panic" using shm_os_contractD(2) [OF os, of h "unat n" w] by simp
  obtain r2 w2 where f: "os_fallocate os h (unat n) w1 = (r2, w2)" by fastforce
  obtain r3 w3 where p: "os_posix_fallocate os h (unat n) w2 = (r3, w3)" by fastforce
  note e = shm_os_contractD(3) [OF os f] shm_os_contractD(4) [OF os p]
  show ?thesis
    using l f p e n \<open>r \<noteq> Panic\<close> by (cases r) (simp_all add: allocate_file_def handle_enospc_def Let_def)
qed

lemma map_shm_safe:
  assumes "shm_os_contract os"
  shows "fst (map_shm os h n w) \<noteq> Panic"
proof -
  obtain r w1 where m: "os_mmap os h (unat n) w = (r, w1)" by fastforce
  with shm_os_contractD(5) [OF assms m] show ?thesis by (cases r) (simp_all add: map_shm_def)
qed

lemma shared_mem_new_safe:
  assumes os: "shm_os_contract os" and "0 \<notin> set ident" and n: "unat n < 2 ^ 63"
  shows "fst (shared_mem_new os ident n w :: ('b ipc_error, shared_mem) res \<times> 'w) \<noteq> Panic"
proof -
  obtain r w1 where o1: "open_shm_file_impl os ident w = (r :: ('b ipc_error, handle) res, w1)" by fastforce
  with open_shm_file_impl_safe [OF assms(1,2)] have r: "r \<noteq> Panic" by (metis fst_conv)
  show ?thesis
  proof (cases r)
    case (Ok fd)
    obtain r2 w2 where o2: "allocate_file os fd n w1 = (r2 :: ('b ipc_error, unit) res, w2)" by fastforce
    with allocate_file_safe [OF os n] have "r2 \<noteq> Panic" by (metis fst_conv)
    with Ok o1 o2 map_shm_safe [OF os] show ?thesis
      by (cases r2) (simp_all add: shared_mem_new_def open_shm_file_def)
  qed (use r o1 in \<open>simp_all add: shared_mem_new_def open_shm_file_def\<close>)
qed

lemma get_slice_length: "shm_inv s \<Longrightarrow> get_slice s n = Ok bs \<Longrightarrow> length bs = unat n"
  by (auto simp: get_slice_def shm_inv_def word_le_nat_alt split: if_splits)

lemma get_mut_slice_inv: "shm_inv s \<Longrightarrow> get_mut_slice_copy s n src = Ok s' \<Longrightarrow>
    shm_inv s' \<and> shm_size s' = shm_size s"
  by (auto simp: get_mut_slice_copy_def shm_inv_def word_le_nat_alt split: if_splits)

text \<open>
  A shared memory the program creates or opens has exactly the requested size; a slice of it has
  the length asked for and is refused (never cut short) beyond that size; and what is copied into a
  slice is read back, with the memory behind it unchanged.
\<close>

theorem shared_mem_bounds:
  assumes "shared_mem_new os ident n w = (Ok s, w') \<or> shared_mem_from os h n w = (Ok s, w')"
  shows "length (shm_bytes s) = unat n \<and>
    (case get_slice s k of Ok bs \<Rightarrow> k \<le> n \<and> length bs = unat k | Err _ \<Rightarrow> n < k | Panic \<Rightarrow> False) \<and>
    (case get_mut_slice_copy s k src of
       Ok s' \<Rightarrow> k \<le> n \<and> get_slice s' k = Ok src \<and> drop (unat k) (shm_bytes s') = drop (unat k) (shm_bytes s) \<and>
         length (shm_bytes s') = unat n
     | Err _ \<Rightarrow> n < k
     | Panic \<Rightarrow> length src \<noteq> unat k)"
proof -
  from assms have s: "shm_inv s" "shm_size s = n"
    by (auto simp: shared_mem_new_def shared_mem_from_def dest: map_shm_inv split: prod.splits res.splits)
  then show ?thesis
    by (auto simp: shm_inv_def get_slice_def get_mut_slice_copy_def word_le_nat_alt word_less_nat_alt not_le)
qed

text \<open>
  \<open>posix_fallocate\<close> reports its error as its result and leaves \<open>errno\<close> alone, so a lack of space
  it reports is judged by the error of the preceding \<open>fallocate\<close>: when that one failed for another
  reason, \<open>allocate_file\<close> succeeds although nothing was allocated.
\<close>

theorem posix_fallocate_enospc_ignored:
  assumes "os_set_len os file (unat n) w = (Ok (), w1)" and "unat n < 2 ^ 63"
    and "os_fallocate os file (unat n) w1 = (-1, w2)"
    and "os_errno os w2 \<noteq> 0" and "os_errno os w2 \<noteq> ENOSPC"
    and "os_posix_fallocate os file (unat n) w2 = (ENOSPC, w3)" and "os_errno os w3 = os_errno os w2"
  shows "allocate_file os file n w = (Ok (), w3)"
  using assms by (simp add: allocate_file_def handle_enospc_def ENOSPC_def)

text \<open>
  A system whose state is \<open>errno\<close>: \<open>fallocate\<close> is not supported, and \<open>posix_fallocate\<close> finds no space.
\<close>

definition full_os :: "int shm_os" where
  "full_os = \<lparr>
     os_memfd_create = (\<lambda>_ w. (3, w)), os_create_new = (\<lambda>_ w. (Ok 4, w)), os_remove_file = (\<lambda>_ w. w),
     os_shm_open = (\<lambda>_ w. (5, w)), os_shm_unlink = (\<lambda>_ w. w), os_temp_dir = [], os_dev_shm = [],
     os_join = (@), os_set_len = (\<lambda>_ _ w. (Ok (), w)), os_fallocate = (\<lambda>_ _ _. (-1, 95)),
     os_posix_fallocate = (\<lambda>_ _ w. (ENOSPC, w)), os_errno = (\<lambda>w. w),
     os_mmap = (\<lambda>_ n w. (Ok (replicate n 0), w)), os_dup = (\<lambda>h w. (h + 1, w)) \<rparr>"

theorem posix_fallocate_enospc_ignored_witness:
  "allocate_file full_os 3 4096 0 = (Ok (), 95)"
  by (rule posix_fallocate_enospc_ignored [where ?w1.0 = 0 and ?w2.0 = 95])
    (simp_all add: full_os_def ENOSPC_def)

theorem shared_mem_bounds_witness:
  "\<exists>s. shared_mem_from full_os 7 2 0 = (Ok s, 0) \<and> get_slice s 3 = Err (ErrOther ''mmap size'') \<and>
     get_mut_slice_copy s 1 [5] = (Ok (s\<lparr>shm_bytes := [5, 0]\<rparr>) :: (unit ipc_error, shared_mem) res) \<and>
     length (shm_bytes s) = 2"
proof -
  have f: "shared_mem_from full_os 7 2 0 = (Ok \<lparr>shm_file = 7, shm_size = 2, shm_bytes = [0, 0]\<rparr>, 0)"
    by (simp add: shared_mem_from_def map_shm_def full_os_def) (simp add: numeral_2_eq_2)
  let ?s = "\<lparr>shm_file = 7, shm_size = 2, shm_bytes = [0, 0]\<rparr>"
  from shared_mem_bounds [OF disjI2 [OF f], of 1 "[5]"] have "length (shm_bytes ?s) = unat (2 :: usize)"
    by blast
  with f show ?thesis
    by (intro exI [of _ ?s]) (simp add: get_slice_def get_mut_slice_copy_def)
qed

end
