(* ===== verification/ServerCallbacks.thy ===== *)
theory ServerCallbacks
  imports Shm
begin

text \<open>
  \<open>ServerStreamCallbacks\<close> and the C callbacks of \<open>server/src/server.rs\<close>: what runs on cubeb's threads
  for a stream of the server.  The three proxies are clones of one (\<open>scb_rpc\<close> numbers its connection), and
  what a call does is a parameter \<open>call\<close>: while it is
  outstanding the client may write the shared memory, so \<open>call\<close> maps the request, the memory's bytes
  and the rest of the world to the response, the bytes and the world after it.
\<close>

type_synonym 'w callback_rpc =
  "callback_req \<Rightarrow> byte list \<Rightarrow> 'w \<Rightarrow> (io_error, callback_resp) res \<times> byte list \<times> 'w"

record server_stream_callbacks =
  scb_input_frame_size :: "usize option"
  scb_output_frame_size :: "usize option"
  scb_shm :: shared_mem
  scb_rpc :: nat
  connected :: bool

section \<open>The callbacks\<close>

definition cubeb_error_frames :: "cubeb_abi \<Rightarrow> isize" where
  "cubeb_error_frames K = word_of_int (CUBEB_ERROR K)"

text \<open>The part of \<open>data_callback\<close> before the call: the input is copied into the shared memory.\<close>

definition copy_input ::
  "server_stream_callbacks \<Rightarrow> byte list \<Rightarrow> (unit ipc_error, shared_mem) res" where
  "copy_input cbs input =
     (if scb_input_frame_size cbs = None then Ok (scb_shm cbs)
      else get_mut_slice_copy (scb_shm cbs) (of_nat (length input)) input)"

text \<open>The part after it: the frames of the response are checked and copied out.\<close>

definition copy_output ::
  "cubeb_abi \<Rightarrow> server_stream_callbacks \<Rightarrow> byte list \<Rightarrow> isize \<Rightarrow> (io_error, callback_resp) res \<Rightarrow>
   (unit ipc_error, isize) res \<times> byte list" where
  "copy_output K cbs output nframes r =
     (let err = Ok (cubeb_error_frames K) in
      case r of
        Ok (RespData frames) \<Rightarrow>
          if sint frames < 0 \<or> sint nframes < sint frames then (err, output)
          else (case (usize_of_isize frames, scb_output_frame_size cbs) of
             (Some n, Some output_frame_size) \<Rightarrow>
               (case checked_mul n output_frame_size of
                  None \<Rightarrow> (err, output)
                | Some nbytes \<Rightarrow>
                    if length output < unat nbytes \<or> get_size (scb_shm cbs) < nbytes then (err, output)
                    else (case get_slice (scb_shm cbs) nbytes :: (unit ipc_error, byte list) res of
                       Ok bs \<Rightarrow> (Ok frames, bs @ drop (unat nbytes) output)
                     | _ \<Rightarrow> (Panic, output)))
           | _ \<Rightarrow> (Ok frames, output))
      | Panic \<Rightarrow> (Panic, output)
      | _ \<Rightarrow> (err, output))"

definition data_callback ::
  "cubeb_abi \<Rightarrow> 'w callback_rpc \<Rightarrow> server_stream_callbacks \<Rightarrow> byte list \<Rightarrow> byte list \<Rightarrow> isize \<Rightarrow> 'w \<Rightarrow>
   (unit ipc_error, isize) res \<times> server_stream_callbacks \<times> byte list \<times> 'w" where
  "data_callback K call cbs input output nframes w =
     (let err = Ok (cubeb_error_frames K) in
      if \<not> connected cbs then (err, cbs, output, w)
      else if scb_input_frame_size cbs \<noteq> None \<and> unat (get_size (scb_shm cbs)) < length input
      then (err, cbs, output, w)
      else case copy_input cbs input of
        Ok shm \<Rightarrow>
          let cbs = cbs\<lparr>scb_shm := shm\<rparr> in
          if scb_output_frame_size cbs \<noteq> None \<and>
             (output = [] \<or> unat (get_size shm) < length output)
          then (err, cbs, output, w)
          else if nframes = 0 then (Ok 0, cbs, output, w)
          else (case call (ReqData nframes) (shm_bytes shm) w of (r, bytes, w) \<Rightarrow>
                  let cbs = cbs\<lparr>scb_shm := shm\<lparr>shm_bytes := bytes\<rparr>\<rparr> in
                  (case copy_output K cbs output nframes r of (r, output) \<Rightarrow> (r, cbs, output, w)))
      | _ \<Rightarrow> (Panic, cbs, output, w))"

text \<open>The other callbacks only send their request; a wrong response is logged.\<close>

definition state_callback ::
  "'w callback_rpc \<Rightarrow> server_stream_callbacks \<Rightarrow> u32 \<Rightarrow> 'w \<Rightarrow>
   (io_error, callback_resp) res option \<times> server_stream_callbacks \<times> 'w" where
  "state_callback call cbs s w =
     (if \<not> connected cbs then (None, cbs, w)
      else case call (ReqState s) (shm_bytes (scb_shm cbs)) w of (r, bytes, w) \<Rightarrow>
        (Some r, cbs\<lparr>scb_shm := (scb_shm cbs)\<lparr>shm_bytes := bytes\<rparr>\<rparr>, w))"

definition device_change_callback ::
  "'w callback_rpc \<Rightarrow> server_stream_callbacks \<Rightarrow> 'w \<Rightarrow>
   (io_error, callback_resp) res option \<times> server_stream_callbacks \<times> 'w" where
  "device_change_callback call cbs w =
     (if \<not> connected cbs then (None, cbs, w)
      else case call ReqDeviceChange (shm_bytes (scb_shm cbs)) w of (r, bytes, w) \<Rightarrow>
        (Some r, cbs\<lparr>scb_shm := (scb_shm cbs)\<lparr>shm_bytes := bytes\<rparr>\<rparr>, w))"

section \<open>The C callbacks\<close>

text \<open>
  A buffer of C is null or the bytes of memory behind the pointer; making a slice that is longer than
  that memory is undefined (\<open>None\<close>).  The multiplication of the \<open>c_long\<close>s wraps around, as it does
  in a release build.
\<close>

definition raw_slice :: "byte list option \<Rightarrow> isize \<Rightarrow> usize option \<Rightarrow> byte list option" where
  "raw_slice buffer nframes frame_size = (case buffer of
     None \<Rightarrow> Some []
   | Some mem \<Rightarrow>
       let nbytes = nframes * (case frame_size of None \<Rightarrow> 0 | Some n \<Rightarrow> n) in
       if unat nbytes \<le> length mem then Some (take (unat nbytes) mem) else None)"

text \<open>The result: frames, callbacks, the bytes of the output buffer; a panic is caught.\<close>

definition data_cb_c ::
  "cubeb_abi \<Rightarrow> 'w callback_rpc \<Rightarrow> server_stream_callbacks \<Rightarrow> byte list option \<Rightarrow> byte list option \<Rightarrow>
   isize \<Rightarrow> 'w \<Rightarrow> (isize \<times> server_stream_callbacks \<times> byte list option \<times> 'w) option" where
  "data_cb_c K call cbs input_buffer output_buffer nframes w =
     (case (raw_slice input_buffer nframes (scb_input_frame_size cbs),
            raw_slice output_buffer nframes (scb_output_frame_size cbs)) of
        (Some input, Some output) \<Rightarrow>
          (case data_callback K call cbs input output nframes w of (r, cbs, output', w) \<Rightarrow>
             Some (case r of Ok frames \<Rightarrow> frames | _ \<Rightarrow> cubeb_error_frames K, cbs,
               map_option (\<lambda>mem. output' @ drop (length output') mem) output_buffer, w))
      | _ \<Rightarrow> None)"

text \<open>\<open>state_of_ffi\<close> is \<open>cubeb::State::from\<close> followed by the conversion back; a panic of the callback aborts.\<close>

definition state_cb_c ::
  "(u32 \<Rightarrow> u32) \<Rightarrow> 'w callback_rpc \<Rightarrow> server_stream_callbacks \<Rightarrow> u32 \<Rightarrow> 'w \<Rightarrow>
   (unit, unit) res \<times> server_stream_callbacks \<times> 'w" where
  "state_cb_c state_of_ffi call cbs s w =
     (case state_callback call cbs (state_of_ffi s) w of (r, cbs, w) \<Rightarrow>
        (if r = Some Panic then Panic else Ok (), cbs, w))"

definition device_change_cb_c ::
  "'w callback_rpc \<Rightarrow> server_stream_callbacks \<Rightarrow> 'w \<Rightarrow> (unit, unit) res \<times> server_stream_callbacks \<times> 'w" where
  "device_change_cb_c call cbs w = (case device_change_callback call cbs w of (r, cbs, w) \<Rightarrow>
     (if r = Some Panic then Panic else Ok (), cbs, w))"

section \<open>Names of shared memory\<close>

text \<open>The name made of the process id and the counter.\<close>

definition get_shm_id :: "nat \<Rightarrow> usize \<Rightarrow> byte list \<times> usize" where
  "get_shm_id pid shm_id =
     (ascii ''cubeb-shm-'' @ decimal pid @ ascii ''-'' @ decimal (unat shm_id), shm_id + 1)"

section \<open>Lemmas\<close>

definition cbs_inv :: "server_stream_callbacks \<Rightarrow> bool" where
  "cbs_inv cbs \<longleftrightarrow> shm_inv (scb_shm cbs)"

text \<open>What the program relies on of a call: it does not panic, and the memory keeps its length.\<close>

definition callback_rpc_contract :: "'w callback_rpc \<Rightarrow> bool" where
  "callback_rpc_contract call \<longleftrightarrow> (\<forall>req bytes w. case call req bytes w of
     (r, bytes', _) \<Rightarrow> r \<noteq> Panic \<and> length bytes' = length bytes)"

lemma copy_input_cases:
  assumes inv: "cbs_inv cbs"
    and fits: "scb_input_frame_size cbs \<noteq> None \<Longrightarrow> length input \<le> unat (get_size (scb_shm cbs))"
  obtains shm where "copy_input cbs input = Ok shm" and "shm_inv shm" and "shm_size shm = shm_size (scb_shm cbs)"
    and "scb_input_frame_size cbs \<noteq> None \<Longrightarrow>
      shm_bytes shm = input @ drop (length input) (shm_bytes (scb_shm cbs))"
    and "scb_input_frame_size cbs = None \<Longrightarrow> shm = scb_shm cbs"
proof (cases "scb_input_frame_size cbs")
  case None
  with inv show thesis by (intro that) (simp_all add: copy_input_def cbs_inv_def)
next
  case (Some fs)
  then have le: "length input \<le> unat (shm_size (scb_shm cbs))" using fits by (simp add: get_size_def)
  have n: "unat (of_nat (length input) :: usize) = length input"
    using le unat_lt_2p [of "shm_size (scb_shm cbs)"] by (intro unat_of_nat_small) simp
  with Some le have c: "copy_input cbs input =
      Ok ((scb_shm cbs)\<lparr>shm_bytes := input @ drop (length input) (shm_bytes (scb_shm cbs))\<rparr>)"
    by (simp add: copy_input_def get_mut_slice_copy_def word_le_nat_alt)
  show thesis
    by (rule that [OF c]) (use Some inv le in \<open>auto simp: shm_inv_def cbs_inv_def\<close>)
qed

text \<open>The cases of \<open>copy_output\<close>: an error that leaves the output, or frames within bounds.\<close>

lemma copy_output_cases:
  assumes inv: "cbs_inv cbs" and r: "r \<noteq> Panic"
  obtains (error) "copy_output K cbs out nframes r = (Ok (cubeb_error_frames K), out)"
    | (frames) frames where "r = Ok (RespData frames)" and "0 \<le> sint frames" and "sint frames \<le> sint nframes"
        and "case scb_output_frame_size cbs of
            None \<Rightarrow> copy_output K cbs out nframes r = (Ok frames, out)
          | Some fs \<Rightarrow> unat frames * unat fs \<le> length out \<and> unat frames * unat fs \<le> length (shm_bytes (scb_shm cbs)) \<and>
              copy_output K cbs out nframes r =
                (Ok frames, take (unat frames * unat fs) (shm_bytes (scb_shm cbs)) @ drop (unat frames * unat fs) out)"
proof (cases "copy_output K cbs out nframes r = (Ok (cubeb_error_frames K), out)")
  case True
  then show thesis by (rule error)
next
  case no_error: False
  then obtain frames where ok: "r = Ok (RespData frames)" "0 \<le> sint frames" "sint frames \<le> sint nframes"
    using r by (cases r) (auto simp: copy_output_def Let_def not_less split: callback_resp.splits if_splits)
  show thesis
  proof (rule frames [OF ok], cases "scb_output_frame_size cbs")
    case None
    with ok show "case scb_output_frame_size cbs of
            None \<Rightarrow> copy_output K cbs out nframes r = (Ok frames, out)
          | Some fs \<Rightarrow> unat frames * unat fs \<le> length out \<and> unat frames * unat fs \<le> length (shm_bytes (scb_shm cbs)) \<and>
              copy_output K cbs out nframes r =
                (Ok frames, take (unat frames * unat fs) (shm_bytes (scb_shm cbs)) @ drop (unat frames * unat fs) out)"
      by (simp add: copy_output_def usize_of_isize_def)
  next
    case (Some fs)
    with ok no_error have "unat frames * unat fs < 2 ^ 64" and le: "unat (frames * fs) \<le> length out"
      "\<not> get_size (scb_shm cbs) < frames * fs"
      by (auto simp: copy_output_def usize_of_isize_def checked_mul_def split: if_splits)
    moreover from this have "unat (frames * fs) = unat frames * unat fs" by (intro unat_mult_small)
    ultimately show "case scb_output_frame_size cbs of
            None \<Rightarrow> copy_output K cbs out nframes r = (Ok frames, out)
          | Some fs \<Rightarrow> unat frames * unat fs \<le> length out \<and> unat frames * unat fs \<le> length (shm_bytes (scb_shm cbs)) \<and>
              copy_output K cbs out nframes r =
                (Ok frames, take (unat frames * unat fs) (shm_bytes (scb_shm cbs)) @ drop (unat frames * unat fs) out)"
      using Some ok inv
      by (simp add: copy_output_def usize_of_isize_def checked_mul_def get_slice_def get_size_def
          cbs_inv_def shm_inv_def word_le_nat_alt word_less_nat_alt)
  qed
qed

text \<open>The frames a data callback may report: an error with the output untouched, or what fits.\<close>

definition frames_ok ::
  "cubeb_abi \<Rightarrow> usize option \<Rightarrow> isize \<Rightarrow> byte list \<Rightarrow> byte list \<Rightarrow> byte list \<Rightarrow> isize \<Rightarrow> bool" where
  "frames_ok K frame_size nframes mem out out' frames \<longleftrightarrow>
     (if frames = cubeb_error_frames K \<and> out' = out then True
      else 0 \<le> sint frames \<and> sint frames \<le> sint nframes \<and>
        (case frame_size of
           None \<Rightarrow> out' = out
         | Some fs \<Rightarrow> let n = unat frames * unat fs in
             n \<le> length out \<and> n \<le> length mem \<and> out' = take n mem @ drop n out))"

lemma frames_ok_error: "frames_ok K fs n mem out out (cubeb_error_frames K)"
  by (simp add: frames_ok_def)

lemma frames_ok_length: "frames_ok K fs n mem out out' frames \<Longrightarrow> length out' = length out"
  by (auto simp: frames_ok_def Let_def split: if_splits option.splits)

lemma copy_output_ok:
  assumes "cbs_inv cbs" and "r \<noteq> Panic"
  shows "\<exists>frames out'. copy_output K cbs out nframes r = (Ok frames, out') \<and>
     frames_ok K (scb_output_frame_size cbs) nframes (shm_bytes (scb_shm cbs)) out out' frames"
proof (rule copy_output_cases [OF assms, where K = K and ?out = out and nframes = nframes])
  assume "copy_output K cbs out nframes r = (Ok (cubeb_error_frames K), out)"
  then show ?thesis using frames_ok_error by blast
next
  fix frames
  assume "0 \<le> sint frames" "sint frames \<le> sint nframes"
    "case scb_output_frame_size cbs of
            None \<Rightarrow> copy_output K cbs out nframes r = (Ok frames, out)
          | Some fs \<Rightarrow> unat frames * unat fs \<le> length out \<and> unat frames * unat fs \<le> length (shm_bytes (scb_shm cbs)) \<and>
              copy_output K cbs out nframes r =
                (Ok frames, take (unat frames * unat fs) (shm_bytes (scb_shm cbs)) @ drop (unat frames * unat fs) out)"
  then show ?thesis by (auto simp: frames_ok_def Let_def split: option.splits)
qed

text \<open>What stays of a stream's callbacks over one of them.\<close>

definition same_stream :: "server_stream_callbacks \<Rightarrow> server_stream_callbacks \<Rightarrow> bool" where
  "same_stream cbs cbs' \<longleftrightarrow> scb_input_frame_size cbs' = scb_input_frame_size cbs \<and>
     scb_output_frame_size cbs' = scb_output_frame_size cbs \<and> connected cbs' = connected cbs \<and>
     scb_rpc cbs' = scb_rpc cbs \<and> shm_file (scb_shm cbs') = shm_file (scb_shm cbs) \<and> shm_size (scb_shm cbs') = shm_size (scb_shm cbs)"

lemma copy_input_file: "copy_input cbs input = Ok shm \<Longrightarrow> shm_file shm = shm_file (scb_shm cbs)"
  by (auto simp: copy_input_def get_mut_slice_copy_def split: if_splits)

lemma data_callback_bounds:
  assumes inv: "cbs_inv cbs" and call: "callback_rpc_contract call"
  shows "\<exists>frames cbs' out' w'. data_callback K call cbs input out nframes w = (Ok frames, cbs', out', w') \<and>
     cbs_inv cbs' \<and> same_stream cbs cbs' \<and>
     frames_ok K (scb_output_frame_size cbs) nframes (shm_bytes (scb_shm cbs')) out out' frames"
proof (cases "connected cbs \<and>
    (scb_input_frame_size cbs = None \<or> length input \<le> unat (get_size (scb_shm cbs)))")
  case False
  then show ?thesis using inv
    by (auto simp: data_callback_def Let_def same_stream_def frames_ok_error)
next
  case True
  then obtain shm where shm: "copy_input cbs input = Ok shm" "shm_inv shm" "shm_size shm = shm_size (scb_shm cbs)"
    using copy_input_cases [OF inv] by blast
  let ?cbs = "cbs\<lparr>scb_shm := shm\<rparr>"
  have same: "same_stream cbs ?cbs" "cbs_inv ?cbs"
    using shm copy_input_file [OF shm(1)] by (simp_all add: same_stream_def cbs_inv_def)
  show ?thesis
  proof (cases "scb_output_frame_size cbs \<noteq> None \<and> (out = [] \<or> unat (get_size shm) < length out) \<or> nframes = 0")
    case early: True
    with True shm same show ?thesis
      by (cases "scb_output_frame_size cbs \<noteq> None \<and> (out = [] \<or> unat (get_size shm) < length out)")
        (auto simp: data_callback_def Let_def not_less frames_ok_error frames_ok_def split: option.splits)
  next
    case go: False
    obtain r bytes w' where c: "call (ReqData nframes) (shm_bytes shm) w = (r, bytes, w')"
      by (metis prod.exhaust)
    with call have r: "r \<noteq> Panic" and len: "length bytes = length (shm_bytes shm)"
      by (auto simp: callback_rpc_contract_def) (metis (mono_tags) case_prod_conv)+
    let ?cbs2 = "cbs\<lparr>scb_shm := shm\<lparr>shm_bytes := bytes\<rparr>\<rparr>"
    have same2: "same_stream cbs ?cbs2" "cbs_inv ?cbs2"
      using same shm len by (simp_all add: same_stream_def cbs_inv_def shm_inv_def)
    from copy_output_ok [OF same2(2) r, where K = K and out = out and nframes = nframes] obtain frames out' where
      o: "copy_output K ?cbs2 out nframes r = (Ok frames, out')"
        "frames_ok K (scb_output_frame_size cbs) nframes bytes out out' frames" by auto
    with True go shm c same2 show ?thesis
      by (auto simp: data_callback_def Let_def not_less)
  qed
qed

section \<open>Properties\<close>

text \<open>The buffers cubeb passes hold the stream's frames, and no slice is longer than \<open>isize::MAX\<close>.\<close>

definition frame_bytes :: "usize option \<Rightarrow> nat" where
  "frame_bytes frame_size = (case frame_size of None \<Rightarrow> 0 | Some n \<Rightarrow> unat n)"

definition buffer_holds :: "isize \<Rightarrow> usize option \<Rightarrow> byte list option \<Rightarrow> bool" where
  "buffer_holds nframes frame_size buffer \<longleftrightarrow> (case buffer of
     None \<Rightarrow> True
   | Some mem \<Rightarrow> length mem = unat nframes * frame_bytes frame_size \<and> length mem < 2 ^ 63)"

definition buffer_bytes :: "byte list option \<Rightarrow> byte list" where
  "buffer_bytes buffer = (case buffer of None \<Rightarrow> [] | Some mem \<Rightarrow> mem)"

lemma raw_slice_holds:
  assumes "buffer_holds nframes fs buffer"
  shows "raw_slice buffer nframes fs = Some (buffer_bytes buffer)"
proof (cases buffer)
  case None
  then show ?thesis by (simp add: raw_slice_def buffer_bytes_def)
next
  case (Some mem)
  with assms have "unat nframes * frame_bytes fs < 2 ^ 64" and len: "length mem = unat nframes * frame_bytes fs"
    by (auto simp: buffer_holds_def)
  then have "unat (nframes * (case fs of None \<Rightarrow> 0 | Some n \<Rightarrow> n)) = length mem"
    by (cases fs) (auto simp: frame_bytes_def unat_mult_small)
  with Some show ?thesis by (simp add: raw_slice_def buffer_bytes_def Let_def)
qed

text \<open>
  C16: cubeb's data callback is always defined and never unwinds into C: whatever the client answers
  and writes to the shared memory, it reports an error and leaves the output alone, or reports between
  0 and \<open>nframes\<close> frames, having copied exactly these frames from the shared memory into the output
  buffer and nothing behind them; the stream and the size of its memory stay as they were.
\<close>

theorem data_cb_c_bounds:
  assumes "cbs_inv cbs" and "callback_rpc_contract call"
    and "buffer_holds nframes (scb_input_frame_size cbs) inb"
    and "buffer_holds nframes (scb_output_frame_size cbs) outb"
  shows "\<exists>frames cbs' outb' w'. data_cb_c K call cbs inb outb nframes w = Some (frames, cbs', outb', w') \<and>
     cbs_inv cbs' \<and> same_stream cbs cbs' \<and> (outb' = None \<longleftrightarrow> outb = None) \<and>
     frames_ok K (scb_output_frame_size cbs) nframes (shm_bytes (scb_shm cbs'))
       (buffer_bytes outb) (buffer_bytes outb') frames"
proof -
  from data_callback_bounds [OF assms(1,2), where K = K and input = "buffer_bytes inb" and w = w
      and out = "buffer_bytes outb" and nframes = nframes]
  obtain frames cbs' out' w' where
    d: "data_callback K call cbs (buffer_bytes inb) (buffer_bytes outb) nframes w = (Ok frames, cbs', out', w')"
      "cbs_inv cbs'" "same_stream cbs cbs'"
      "frames_ok K (scb_output_frame_size cbs) nframes (shm_bytes (scb_shm cbs')) (buffer_bytes outb) out' frames"
    by blast
  from frames_ok_length [OF d(4)] have "length out' = length (buffer_bytes outb)" .
  with d raw_slice_holds [OF assms(3)] raw_slice_holds [OF assms(4)] show ?thesis
    by (cases outb) (auto simp: data_cb_c_def buffer_bytes_def)
qed

text \<open>
  The \<open>output.is_empty()\<close> check comes before the one for no frames, so a callback with no frames
  on a stream with an output is an error.
\<close>

lemma no_frames_on_output_is_error:
  assumes "cbs_inv cbs" and "connected cbs" and "scb_output_frame_size cbs = Some fs"
    and "buffer_holds 0 (scb_input_frame_size cbs) inb" and "buffer_holds 0 (Some fs) outb"
  shows "\<exists>cbs'. data_cb_c K call cbs inb outb 0 w = Some (cubeb_error_frames K, cbs', outb, w)"
proof -
  have empty: "buffer_bytes inb = []" "buffer_bytes outb = []"
    using assms(4,5) by (auto simp: buffer_holds_def buffer_bytes_def split: option.splits)
  obtain shm where "copy_input cbs [] = Ok shm"
    using copy_input_cases [OF assms(1), of "[]"] by auto
  with assms empty raw_slice_holds [OF assms(4)] raw_slice_holds [OF assms(5)] show ?thesis
    by (cases outb) (auto simp: data_cb_c_def data_callback_def Let_def buffer_bytes_def)
qed

text \<open>Names of shared memory.\<close>

lemma shm_id_no_zero: "0 \<notin> set (fst (get_shm_id pid a))"
proof -
  have "0 \<notin> set (ascii ''cubeb-shm-'')" "0 \<notin> set (ascii ''-'')" by (simp_all add: ascii_def)
  moreover have "0 \<notin> set (decimal n)" for n using decimal_digits [of n] by auto
  ultimately show ?thesis by (simp add: get_shm_id_def)
qed

text \<open>
  The names made for shared memory differ as long as the counter has not come round, and none holds
  a zero byte, so that creating the file never panics on its name.
\<close>

theorem shm_ids_unique:
  "(fst (get_shm_id pid a) = fst (get_shm_id pid b) \<longleftrightarrow> a = b) \<and> 0 \<notin> set (fst (get_shm_id pid a))"
proof
  show "fst (get_shm_id pid a) = fst (get_shm_id pid b) \<longleftrightarrow> a = b"
    by (auto simp: get_shm_id_def word_unat_eq_iff dest: decimal_inj)
  show "0 \<notin> set (fst (get_shm_id pid a))" by (rule shm_id_no_zero)
qed

section \<open>An example\<close>

text \<open>A stream that plays mono 16-bit frames, and a client that answers one frame.\<close>

definition demo_cbs :: server_stream_callbacks where
  "demo_cbs = \<lparr>scb_input_frame_size = None, scb_output_frame_size = Some 2,
     scb_shm = \<lparr>shm_file = 5, shm_size = 4, shm_bytes = [0, 0, 0, 0]\<rparr>, scb_rpc = 1, connected = True\<rparr>"

definition demo_call :: "unit callback_rpc" where
  "demo_call req bytes w = (Ok (RespData 1), take (length bytes) ([7, 8] @ drop 2 bytes), w)"

lemma demo_call_contract: "callback_rpc_contract demo_call"
  by (auto simp: callback_rpc_contract_def demo_call_def min_def)

lemma demo_cb_result:
  "data_cb_c cubeb_h demo_call demo_cbs None (Some [1, 2, 3, 4]) 2 () =
     Some (1, demo_cbs\<lparr>scb_shm := \<lparr>shm_file = 5, shm_size = 4, shm_bytes = [7, 8, 0, 0]\<rparr>\<rparr>, Some [7, 8, 3, 4], ())"
  by (simp add: data_cb_c_def raw_slice_def data_callback_def copy_input_def copy_output_def demo_cbs_def
      demo_call_def get_size_def get_slice_def usize_of_isize_def checked_mul_def)

theorem data_cb_c_bounds_witness:
  "\<exists>cbs'. data_cb_c cubeb_h demo_call demo_cbs None (Some [1, 2, 3, 4]) 2 () =
      Some (1, cbs', Some [7, 8, 3, 4], ()) \<and> cbs_inv cbs' \<and> same_stream demo_cbs cbs' \<and>
      frames_ok cubeb_h (Some 2) 2 [7, 8, 0, 0] [1, 2, 3, 4] [7, 8, 3, 4] 1"
proof -
  have "cbs_inv demo_cbs" by (simp add: cbs_inv_def shm_inv_def demo_cbs_def)
  moreover have "buffer_holds 2 (scb_input_frame_size demo_cbs) None"
    and "buffer_holds 2 (scb_output_frame_size demo_cbs) (Some [1, 2, 3, 4])"
    by (simp_all add: buffer_holds_def demo_cbs_def frame_bytes_def)
  ultimately have "\<exists>frames cbs' outb' w'.
      data_cb_c cubeb_h demo_call demo_cbs None (Some [1, 2, 3, 4]) 2 () = Some (frames, cbs', outb', w') \<and>
     cbs_inv cbs' \<and> same_stream demo_cbs cbs' \<and> (outb' = None \<longleftrightarrow> Some [1, 2, 3, 4] = (None :: byte list option)) \<and>
     frames_ok cubeb_h (scb_output_frame_size demo_cbs) 2 (shm_bytes (scb_shm cbs'))
       (buffer_bytes (Some [1, 2, 3, 4])) (buffer_bytes outb') frames"
    by (rule data_cb_c_bounds [OF _ demo_call_contract])
  then show ?thesis by (simp add: demo_cb_result) (simp add: demo_cbs_def buffer_bytes_def)
qed

end
