(* ===== verification/ServerStreams.thy ===== *)
theory ServerStreams
  imports ServerCallbacks
begin

text \<open>
  The streams of a server (\<open>server/src/server.rs\<close>): validating the parameters of a stream, the size of its
  shared memory, its latency, and the map between the device ids of cubeb and the handles the client
  sees.  Arithmetic on \<open>u32\<close> wraps around as in a release build; the lemmas show that it never does.
\<close>

section \<open>Parameters\<close>

definition validate_stream_params :: "cubeb_abi \<Rightarrow> stream_params \<Rightarrow> (cubeb_error, unit) res" where
  "validate_stream_params K p =
     (if format p \<in> {CUBEB_SAMPLE_S16LE K, CUBEB_SAMPLE_S16BE K, CUBEB_SAMPLE_FLOAT32LE K, CUBEB_SAMPLE_FLOAT32BE K} \<and>
         1 \<le> channels p \<and> channels p \<le> 255 \<and> 1000 \<le> rate p \<and> rate p \<le> 768000
      then Ok () else Err InvalidParameter)"

definition validate_stream_create_params ::
  "cubeb_abi \<Rightarrow> stream_create_params \<Rightarrow> (cubeb_error, unit) res" where
  "validate_stream_create_params K params =
     (if input_stream_params params = None \<and> output_stream_params params = None then Err InvalidParameter
      else case (case input_stream_params params of None \<Rightarrow> Ok () | Some p \<Rightarrow> validate_stream_params K p) of
        Ok _ \<Rightarrow>
          (case (case output_stream_params params of None \<Rightarrow> Ok () | Some p \<Rightarrow> validate_stream_params K p) of
             Ok _ \<Rightarrow>
               (case (input_stream_params params, output_stream_params params) of
                  (Some i, Some out) \<Rightarrow>
                    if rate i \<noteq> rate out \<or> format i \<noteq> format out then Err InvalidParameter else Ok ()
                | _ \<Rightarrow> Ok ())
           | r \<Rightarrow> r)
      | r \<Rightarrow> r)"

section \<open>Sizes and latency\<close>

text \<open>The size of a stream's shared memory; a configured size other than 0 overrides the estimate.\<close>

definition shm_area_size_for :: "cubeb_abi \<Rightarrow> usize \<Rightarrow> stream_create_params \<Rightarrow> usize" where
  "shm_area_size_for K configured params =
     (if configured = 0 then
        let in_fs = (case input_stream_params params of None \<Rightarrow> 0 | Some p \<Rightarrow> frame_size_in_bytes K p);
            out_fs = (case output_stream_params params of None \<Rightarrow> 0 | Some p \<Rightarrow> frame_size_in_bytes K p);
            frame_size = (ucast (max out_fs in_fs) :: u32);
            in_rate = (case input_stream_params params of None \<Rightarrow> 0 | Some p \<Rightarrow> rate p);
            out_rate = (case output_stream_params params of None \<Rightarrow> 0 | Some p \<Rightarrow> rate p);
            r = max out_rate in_rate
        in ucast (and (r * frame_size + 0xffff) (not 0xffff))
      else configured)"

fun bit_length :: "nat \<Rightarrow> nat" where
  "bit_length n = (if n = 0 then 0 else Suc (bit_length (n div 2)))"

declare bit_length.simps [simp del]

definition leading_zeros :: "u32 \<Rightarrow> nat" where
  "leading_zeros v = 32 - bit_length (unat v)"

text \<open>The assertion of a debug build and the check of its shift are panics here.\<close>

definition round_up_pow2 :: "u32 \<Rightarrow> ('e, u32) res" where
  "round_up_pow2 v =
     (if v = 0 then Panic
      else let s = 32 - leading_zeros (v - 1) in if s < 32 then Ok (push_bit s 1) else Panic)"

text \<open>\<open>Ord::clamp\<close> panics when the bounds are not in order.\<close>

definition clamp :: "u32 \<Rightarrow> u32 \<Rightarrow> u32 \<Rightarrow> ('e, u32) res" where
  "clamp v lo hi = (if hi < lo then Panic else Ok (if v < lo then lo else if hi < v then hi else v))"

definition stream_rate :: "stream_create_params \<Rightarrow> ('e, u32) res" where
  "stream_rate params = (case output_stream_params params of
     Some p \<Rightarrow> Ok (rate p)
   | None \<Rightarrow> (case input_stream_params params of Some p \<Rightarrow> Ok (rate p) | None \<Rightarrow> Panic))"

definition stream_latency :: "stream_create_params \<Rightarrow> ('e, u32) res" where
  "stream_latency params = (case stream_rate params of
     Ok r \<Rightarrow> (case round_up_pow2 (5 * r div 1000) of
        Ok min_latency \<Rightarrow> clamp (latency_frames params) min_latency r
      | Err e \<Rightarrow> Err e | Panic \<Rightarrow> Panic)
   | Err e \<Rightarrow> Err e | Panic \<Rightarrow> Panic)"

section \<open>DevIdMap\<close>

type_synonym dev_id_map = "nat list"

definition dev_id_map_new :: dev_id_map where
  "dev_id_map_new = [0]"

fun position :: "('a \<Rightarrow> bool) \<Rightarrow> 'a list \<Rightarrow> nat option" where
  "position P [] = None"
| "position P (x # xs) = (if P x then Some 0 else map_option Suc (position P xs))"

definition make_handle :: "dev_id_map \<Rightarrow> nat \<Rightarrow> nat \<times> dev_id_map" where
  "make_handle devices dev = (case position (\<lambda>d. d = dev) devices of
     Some i \<Rightarrow> (i, devices)
   | None \<Rightarrow> (length (devices @ [dev]) - 1, devices @ [dev]))"

definition handle_to_id :: "dev_id_map \<Rightarrow> nat \<Rightarrow> ('e, nat) res" where
  "handle_to_id devices h = (if h < length devices then Ok (devices ! h) else Panic)"

section \<open>Lemmas: the device map\<close>

lemma position_Some: "position P xs = Some i \<Longrightarrow> i < length xs \<and> P (xs ! i)"
  by (induction xs arbitrary: i) (auto split: if_splits)

lemma position_None: "position P xs = None \<longleftrightarrow> (\<forall>x \<in> set xs. \<not> P x)"
  by (induction xs) auto

definition dev_id_map_inv :: "dev_id_map \<Rightarrow> bool" where
  "dev_id_map_inv devices \<longleftrightarrow> distinct devices \<and> devices \<noteq> [] \<and> hd devices = 0"

lemma make_handle_result:
  assumes "make_handle devices dev = (h, devices')"
  shows "h < length devices' \<and> devices' ! h = dev \<and> (\<exists>new. devices' = devices @ new) \<and>
    (dev_id_map_inv devices \<longrightarrow> dev_id_map_inv devices')"
  using assms
  by (auto simp: make_handle_def dev_id_map_inv_def position_None dest: position_Some split: option.splits)

text \<open>The handles of a sequence of devices, as an enumeration makes them.\<close>

fun make_handles :: "dev_id_map \<Rightarrow> nat list \<Rightarrow> nat list \<times> dev_id_map" where
  "make_handles devices [] = ([], devices)"
| "make_handles devices (d # ds) = (case make_handle devices d of
     (h, devices) \<Rightarrow> (case make_handles devices ds of (hs, devices) \<Rightarrow> (h # hs, devices)))"

lemma make_handles_result:
  assumes "make_handles devices ds = (hs, devices')"
  shows "length hs = length ds \<and> (\<forall>i < length ds. hs ! i < length devices' \<and> devices' ! (hs ! i) = ds ! i) \<and>
    (\<exists>new. devices' = devices @ new) \<and> (dev_id_map_inv devices \<longrightarrow> dev_id_map_inv devices')"
  using assms
proof (induction ds arbitrary: devices hs)
  case Nil
  then show ?case by auto
next
  case (Cons d ds)
  obtain h devices1 where h: "make_handle devices d = (h, devices1)" by fastforce
  obtain hs1 where hs: "make_handles devices1 ds = (hs1, devices')" "hs = h # hs1"
    using Cons.prems h by (auto split: prod.splits)
  from make_handle_result [OF h] Cons.IH [OF hs(1)] hs(2) show ?case
    by (auto simp: nth_append less_Suc_eq_0_disj)
qed

text \<open>
  The handles the client gets for cubeb's device ids are a bijection that only grows: each handle
  maps back to its device, now and after further devices have been added, equal handles mean equal
  devices, and handle 0 stays the default device.
\<close>

theorem device_handles_roundtrip:
  assumes inv: "dev_id_map_inv devices" and hs: "make_handles devices ds = (hs, devices1)"
    and later: "make_handles devices1 more_ds = (hs', devices2)"
  shows "map (handle_to_id devices2) hs = (map Ok ds :: ('e, nat) res list) \<and> length hs = length ds \<and>
    (\<forall>i j. i < length ds \<and> j < length ds \<longrightarrow> (hs ! i = hs ! j \<longleftrightarrow> ds ! i = ds ! j)) \<and>
    handle_to_id devices2 0 = (Ok 0 :: ('e, nat) res)"
proof -
  from make_handles_result [OF hs] inv have 1: "length hs = length ds" "dev_id_map_inv devices1"
    "\<And>i. i < length ds \<Longrightarrow> hs ! i < length devices1 \<and> devices1 ! (hs ! i) = ds ! i" by auto
  from make_handles_result [OF later] 1 obtain new where
    2: "devices2 = devices1 @ new" "dev_id_map_inv devices2" by auto
  have "map (handle_to_id devices2) hs = (map Ok ds :: ('e, nat) res list)"
    using 1 2 by (intro nth_equalityI) (auto simp: handle_to_id_def nth_append trans_less_add1)
  moreover have "hs ! i = hs ! j \<longleftrightarrow> ds ! i = ds ! j" if "i < length ds" "j < length ds" for i j
    using 1 that by (metis dev_id_map_inv_def nth_eq_iff_index_eq)
  moreover have "handle_to_id devices2 0 = (Ok 0 :: ('e, nat) res)"
    using 2(2) by (cases devices2) (simp_all add: handle_to_id_def dev_id_map_inv_def)
  ultimately show ?thesis using 1 by auto
qed

section \<open>Lemmas: parameters\<close>

definition valid_params :: "cubeb_abi \<Rightarrow> stream_params \<Rightarrow> bool" where
  "valid_params K p \<longleftrightarrow> validate_stream_params K p = Ok ()"

lemma valid_paramsD:
  assumes K: "cubeb_abi_contract K" and v: "valid_params K p"
  shows "1000 \<le> unat (rate p)" and "unat (rate p) \<le> 768000"
    and "0 < unat (frame_size_in_bytes K p)" and "unat (frame_size_in_bytes K p) \<le> 1020"
proof -
  show "1000 \<le> unat (rate p)" "unat (rate p) \<le> 768000"
    using v by (auto simp: valid_params_def validate_stream_params_def word_le_nat_alt split: if_splits)
  have c: "1 \<le> unat (channels p)" "unat (channels p) \<le> 255"
    using v by (auto simp: valid_params_def validate_stream_params_def word_le_nat_alt split: if_splits)
  have u: "unat (ucast (channels p) :: usize) = unat (channels p)"
    by (simp add: unsigned_ucast_eq take_bit_nat_eq_self_iff) (use unat_lt_2p [of "channels p"] in simp)
  have "sample_format_of K (format p) \<in> {S16LE, S16BE, Float32LE, Float32BE}"
    using v K by (auto simp: valid_params_def validate_stream_params_def cubeb_abi_contract_def split: if_splits)
  then have "frame_size_in_bytes K p = 2 * ucast (channels p) \<or> frame_size_in_bytes K p = 4 * ucast (channels p)"
    by (auto simp: frame_size_in_bytes_def Let_def)
  moreover have "unat (2 * ucast (channels p) :: usize) = 2 * unat (channels p)"
    "unat (4 * ucast (channels p) :: usize) = 4 * unat (channels p)"
    using unat_mult_small [of 2 "ucast (channels p)"] unat_mult_small [of 4 "ucast (channels p)"] c u by simp_all
  ultimately show "0 < unat (frame_size_in_bytes K p)" "unat (frame_size_in_bytes K p) \<le> 1020"
    using c by auto
qed

lemma validate_create_Ok:
  assumes "validate_stream_create_params K params = Ok ()"
  shows "input_stream_params params \<noteq> None \<or> output_stream_params params \<noteq> None"
    and "\<And>p. input_stream_params params = Some p \<Longrightarrow> valid_params K p"
    and "\<And>p. output_stream_params params = Some p \<Longrightarrow> valid_params K p"
    and "\<And>i out. input_stream_params params = Some i \<Longrightarrow> output_stream_params params = Some out \<Longrightarrow>
      rate i = rate out \<and> format i = format out"
  using assms
  by (auto simp: validate_stream_create_params_def valid_params_def split: if_splits res.splits option.splits)

lemma validate_create_cases:
  "validate_stream_create_params K params = Ok () \<or> validate_stream_create_params K params = Err InvalidParameter"
  by (auto simp: validate_stream_create_params_def validate_stream_params_def split: option.splits)

section \<open>Lemmas: latency\<close>

lemma bit_length_bounds: "0 < n \<Longrightarrow> 2 ^ (bit_length n - 1) \<le> n \<and> n < 2 ^ bit_length n \<and> 0 < bit_length n"
proof (induction n rule: bit_length.induct)
  case (1 n)
  show ?case
  proof (cases "n div 2 = 0")
    case True
    with 1(2) have "n = 1" by auto
    moreover have "bit_length 1 = 1" by (simp add: bit_length.simps)
    ultimately show ?thesis by simp
  next
    case False
    with 1 have IH: "2 ^ (bit_length (n div 2) - 1) \<le> n div 2" "n div 2 < 2 ^ bit_length (n div 2)" "0 < bit_length (n div 2)"
      by auto
    have b: "bit_length n = Suc (bit_length (n div 2))" using 1(2) by (simp add: bit_length.simps [of n])
    obtain k where k: "bit_length (n div 2) = Suc k" using IH(3) by (cases "bit_length (n div 2)") auto
    from IH k b show ?thesis by auto
  qed
qed

lemma round_up_pow2_bounds:
  assumes "1 \<le> unat v" and "unat v < 2 ^ 31"
  obtains p where "round_up_pow2 v = Ok p" and "unat v \<le> unat p" and "unat p < 2 * unat v" and "\<exists>k. unat p = 2 ^ k"
proof -
  have v1: "unat (v - 1) = unat v - 1"
    using assms by (simp add: unat_sub word_le_nat_alt)
  define b where "b = bit_length (unat v - 1)"
  have b: "b < 32 \<and> unat v \<le> 2 ^ b \<and> 2 ^ b < 2 * unat v"
  proof (cases "unat v = 1")
    case True
    then show ?thesis by (simp add: b_def bit_length.simps [of 0])
  next
    case False
    then have p: "2 ^ (b - 1) \<le> unat v - 1" "unat v - 1 < 2 ^ b" "0 < b"
      using bit_length_bounds [of "unat v - 1"] assms by (auto simp: b_def)
    moreover have "b - 1 < 31"
    proof (rule ccontr)
      assume "\<not> b - 1 < 31"
      then have "(2 :: nat) ^ 31 \<le> 2 ^ (b - 1)" by (intro power_increasing) auto
      with p assms show False by simp
    qed
    moreover have "(2 :: nat) ^ b = 2 * 2 ^ (b - 1)" using p(3) by (cases b) auto
    ultimately show ?thesis by auto
  qed
  have "32 - leading_zeros (v - 1) = b" using b by (simp add: leading_zeros_def v1 b_def)
  then have r: "round_up_pow2 v = Ok (push_bit b 1)" using b assms by (auto simp: round_up_pow2_def Let_def)
  have "unat (push_bit b (1 :: u32)) = 2 ^ b"
  proof -
    have "(2 :: nat) ^ b < 2 ^ 32" using b by (intro power_strict_increasing) auto
    then have "unat (of_nat (2 ^ b) :: u32) = 2 ^ b" by (intro unat_of_nat_small) simp
    then show ?thesis by (simp add: push_bit_eq_mult)
  qed
  with r b show thesis by (intro that) auto
qed

lemma rate_div_bounds:
  fixes r :: u32
  assumes "1000 \<le> unat r" and "unat r \<le> 768000"
  shows "unat (5 * r div 1000) = 5 * unat r div 1000"
proof -
  have "unat (5 * r :: u32) = 5 * unat r"
    using assms by (simp add: unat_word_ariths)
  then show ?thesis by (simp add: unat_div)
qed

text \<open>The stream's latency: defined, and between about 5 milliseconds and a second.\<close>

lemma stream_latency_bounds:
  assumes "stream_rate params = (Ok r :: ('e, u32) res)" and "1000 \<le> unat r" and "unat r \<le> 768000"
  obtains lat where "stream_latency params = (Ok lat :: ('e, u32) res)" and "lat \<le> r" and "5 * unat r div 1000 \<le> unat lat"
    and "(\<exists>k. unat lat = 2 ^ k) \<or> lat = latency_frames params \<or> lat = r"
proof -
  have v: "unat (5 * r div 1000) = 5 * unat r div 1000" using assms by (intro rate_div_bounds) auto
  obtain p where p: "round_up_pow2 (5 * r div 1000) = (Ok p :: ('e, u32) res)" "5 * unat r div 1000 \<le> unat p"
    "unat p < 2 * (5 * unat r div 1000)" "\<exists>k. unat p = 2 ^ k"
  proof (rule round_up_pow2_bounds [of "5 * r div 1000"])
    show "1 \<le> unat (5 * r div 1000)" "unat (5 * r div 1000) < 2 ^ 31" using assms v by auto
  qed (use v that in auto)
  have le: "unat p \<le> unat r" using p(3) by auto
  have "stream_latency params =
      (Ok (if latency_frames params < p then p else if r < latency_frames params then r else latency_frames params) :: ('e, u32) res)"
    using assms p le by (simp add: stream_latency_def clamp_def word_less_nat_alt)
  then show thesis
    by (rule that) (use p le assms in \<open>auto simp: word_le_nat_alt word_less_nat_alt\<close>)
qed

section \<open>Lemmas: shared memory\<close>

text \<open>Clearing the low 16 bits rounds down to a multiple of 64 kB.\<close>

lemma clear_low_bits: "unat (and w (not 0xffff) :: u32) = unat w div 65536 * 65536"
proof -
  have "and w (not 0xffff :: u32) = push_bit 16 (drop_bit 16 w)"
  proof (rule bit_word_eqI)
    fix n assume "n < LENGTH(32)"
    have m: "(0xffff :: u32) = mask 16" by (simp add: mask_eq_exp_minus_1)
    show "bit (and w (not 0xffff :: u32)) n = bit (push_bit 16 (drop_bit 16 w)) n"
      using \<open>n < LENGTH(32)\<close> unfolding m by (auto simp: bit_simps not_le)
  qed
  moreover have "unat (push_bit 16 (drop_bit 16 w)) = unat w div 65536 * 65536"
  proof -
    have "unat (drop_bit 16 w) = unat w div 65536" by (simp add: drop_bit_eq_div unat_div)
    moreover have "unat w div 65536 * 65536 < 2 ^ 32"
      using unat_lt_2p [of w] div_times_less_eq_dividend [of "unat w" 65536] by (simp add: order.strict_trans1)
    ultimately show ?thesis by (simp add: push_bit_eq_mult unat_word_ariths)
  qed
  ultimately show ?thesis by simp
qed

lemma unat_max: "unat (max a b) = max (unat a) (unat b)"
  by (simp add: max_def word_le_nat_alt)

text \<open>The estimate holds a second of audio, in units of 64 kB.\<close>

lemma shm_area_size_estimate:
  assumes K: "cubeb_abi_contract K" and v: "validate_stream_create_params K params = Ok ()"
  defines "fs \<equiv> \<lambda>p. case p of None \<Rightarrow> 0 | Some p \<Rightarrow> unat (frame_size_in_bytes K p)"
    and "rt \<equiv> \<lambda>p. case p of None \<Rightarrow> 0 | Some p \<Rightarrow> unat (rate p)"
  defines "bytes \<equiv> max (rt (output_stream_params params)) (rt (input_stream_params params)) *
      max (fs (output_stream_params params)) (fs (input_stream_params params))"
  shows "unat (shm_area_size_for K 0 params) = (bytes + 65535) div 65536 * 65536"
    and "bytes + 65535 < 2 ^ 32"
proof -
  let ?i = "input_stream_params params" and ?o = "output_stream_params params"
  have fs: "fs p \<le> 1020" and rt: "rt p \<le> 768000" if "p \<in> {?i, ?o}" for p
    using that valid_paramsD [OF K] validate_create_Ok(2,3) [OF v]
    by (auto simp: fs_def rt_def split: option.splits)
  define r where "r = max (case ?o of None \<Rightarrow> 0 | Some p \<Rightarrow> rate p) (case ?i of None \<Rightarrow> 0 | Some p \<Rightarrow> rate p)"
  define f where "f = max (case ?o of None \<Rightarrow> 0 | Some p \<Rightarrow> frame_size_in_bytes K p)
      (case ?i of None \<Rightarrow> 0 | Some p \<Rightarrow> frame_size_in_bytes K p)"
  have r: "unat r = max (rt ?o) (rt ?i)" and f: "unat f = max (fs ?o) (fs ?i)"
    by (auto simp: r_def f_def unat_max rt_def fs_def split: option.splits)
  have b: "bytes = unat r * unat f" by (simp add: bytes_def r f)
  have "unat r \<le> 768000" "unat f \<le> 1020" using fs rt by (auto simp: r f)
  then have "bytes \<le> 768000 * 1020" unfolding b by (rule mult_le_mono)
  then show small: "bytes + 65535 < 2 ^ 32" by simp
  have uf: "unat (ucast f :: u32) = unat f"
    using \<open>unat f \<le> 1020\<close> by (simp add: unsigned_ucast_eq take_bit_nat_eq_self_iff)
  then have "unat (r * ucast f) = bytes" using small by (simp add: b unat_word_ariths)
  then have sum: "unat (r * ucast f + 0xffff) = bytes + 65535" using small by (simp add: unat_word_ariths)
  have "shm_area_size_for K 0 params = ucast (and (r * ucast f + 0xffff) (not 0xffff))"
    by (simp add: shm_area_size_for_def Let_def r_def f_def)
  moreover have "unat (ucast w :: usize) = unat w" for w :: u32
    using unat_lt_2p [of w] by (simp add: unsigned_ucast_eq take_bit_nat_eq_self_iff)
  ultimately show "unat (shm_area_size_for K 0 params) = (bytes + 65535) div 65536 * 65536"
    using clear_low_bits [of "r * ucast f + 0xffff"] sum by simp
qed

lemma shm_area_size_aligned:
  assumes K: "cubeb_abi_contract K" and v: "validate_stream_create_params K params = Ok ()"
  shows "65536 dvd unat (shm_area_size_for K 0 params) \<and> unat (shm_area_size_for K 0 params) < 2 ^ 32"
proof -
  obtain bytes where b: "unat (shm_area_size_for K 0 params) = (bytes + 65535) div 65536 * 65536" "bytes + 65535 < 2 ^ 32"
    using shm_area_size_estimate [OF K v] by blast
  then have "(bytes + 65535) div 65536 * 65536 < 2 ^ 32"
    using div_times_less_eq_dividend [of "bytes + 65535" 65536] by linarith
  then show ?thesis unfolding b(1) by (intro conjI dvd_triv_right)
qed

section \<open>Properties\<close>

definition directions :: "stream_create_params \<Rightarrow> stream_params set" where
  "directions params = set_option (input_stream_params params) \<union> set_option (output_stream_params params)"

lemma directions_valid:
  assumes "validate_stream_create_params K params = Ok ()" and "p \<in> directions params"
  shows "valid_params K p" and "(stream_rate params :: ('e, u32) res) = Ok (rate p)"
proof -
  from assms(2) consider "input_stream_params params = Some p" | "output_stream_params params = Some p"
    by (auto simp: directions_def elem_set)
  then show "valid_params K p" using validate_create_Ok(2,3) [OF assms(1)] by cases
  have "rate p = rate q" if "output_stream_params params = Some q" for q
    using assms(2) that validate_create_Ok(4) [OF assms(1)] by (auto simp: directions_def elem_set)
  moreover have "input_stream_params params = Some p" if "output_stream_params params = None"
    using assms(2) that by (simp add: directions_def elem_set)
  ultimately show "(stream_rate params :: ('e, u32) res) = Ok (rate p)"
    by (cases "output_stream_params params") (simp_all add: stream_rate_def)
qed

text \<open>A second of audio fits the estimate, in each direction.\<close>

lemma second_fits:
  assumes K: "cubeb_abi_contract K" and v: "validate_stream_create_params K params = Ok ()" and p: "p \<in> directions params"
  shows "unat (rate p) * unat (frame_size_in_bytes K p) \<le> unat (shm_area_size_for K 0 params)"
proof -
  define bytes where "bytes = max (case output_stream_params params of None \<Rightarrow> 0 | Some p \<Rightarrow> unat (rate p))
      (case input_stream_params params of None \<Rightarrow> 0 | Some p \<Rightarrow> unat (rate p)) *
    max (case output_stream_params params of None \<Rightarrow> 0 | Some p \<Rightarrow> unat (frame_size_in_bytes K p))
      (case input_stream_params params of None \<Rightarrow> 0 | Some p \<Rightarrow> unat (frame_size_in_bytes K p))"
  note est = shm_area_size_estimate [OF K v, folded bytes_def]
  have "unat (rate p) * unat (frame_size_in_bytes K p) \<le> bytes"
    unfolding bytes_def using p by (intro mult_le_mono) (auto simp: directions_def elem_set split: option.splits)
  also have "bytes \<le> (bytes + 65535) div 65536 * 65536"
    using div_mult_mod_eq [of "bytes + 65535" 65536] mod_less_divisor [of 65536 "bytes + 65535"] by linarith
  finally show ?thesis using est by simp
qed

text \<open>
  C19: for parameters that pass the validation the server's arithmetic stays within its bounds: the latency
  is defined (no shift, subtraction or \<open>clamp\<close> goes wrong) and between 5 milliseconds and a second, the
  estimated shared memory is a multiple of 64 kB below 4 GB, and the latency's frames fit into it in
  each direction, as does a whole second.
\<close>

theorem stream_bounds:
  assumes K: "cubeb_abi_contract K" and v: "validate_stream_create_params K params = Ok ()"
  shows "\<exists>r lat. (stream_rate params :: (cubeb_error, u32) res) = Ok r \<and>
    (stream_latency params :: (cubeb_error, u32) res) = Ok lat \<and> 5 * unat r div 1000 \<le> unat lat \<and> lat \<le> r \<and>
    65536 dvd unat (shm_area_size_for K 0 params) \<and> unat (shm_area_size_for K 0 params) < 2 ^ 32 \<and>
    (\<forall>p \<in> directions params. rate p = r \<and>
       unat lat * unat (frame_size_in_bytes K p) \<le> unat (shm_area_size_for K 0 params) \<and>
       unat r * unat (frame_size_in_bytes K p) \<le> unat (shm_area_size_for K 0 params))"
proof -
  obtain p0 where p0: "p0 \<in> directions params" using validate_create_Ok(1) [OF v] by (auto simp: directions_def)
  define r where "r = rate p0"
  have r: "(stream_rate params :: (cubeb_error, u32) res) = Ok r"
    using directions_valid(2) [OF v p0] by (simp add: r_def)
  have "1000 \<le> unat r" "unat r \<le> 768000"
    using valid_paramsD [OF K directions_valid(1) [OF v p0]] by (auto simp: r_def)
  from stream_latency_bounds [OF r this] obtain lat where
    lat: "(stream_latency params :: (cubeb_error, u32) res) = Ok lat" "lat \<le> r" "5 * unat r div 1000 \<le> unat lat" by blast
  have dir: "rate p = r \<and> unat lat * unat (frame_size_in_bytes K p) \<le> unat (shm_area_size_for K 0 params) \<and>
       unat r * unat (frame_size_in_bytes K p) \<le> unat (shm_area_size_for K 0 params)"
    if p: "p \<in> directions params" for p
  proof -
    have rp: "rate p = r" using directions_valid(2) [OF v p] r by (metis res.inject(1))
    have sec: "unat r * unat (frame_size_in_bytes K p) \<le> unat (shm_area_size_for K 0 params)"
      using second_fits [OF K v p] rp by simp
    have "unat lat * unat (frame_size_in_bytes K p) \<le> unat r * unat (frame_size_in_bytes K p)"
      using lat(2) by (simp add: word_le_nat_alt)
    from order.trans [OF this sec] rp sec show ?thesis by (intro conjI)
  qed
  have "65536 dvd unat (shm_area_size_for K 0 params) \<and> unat (shm_area_size_for K 0 params) < 2 ^ 32"
    by (rule shm_area_size_aligned [OF K v])
  then show ?thesis using r lat dir by blast
qed

text \<open>Stereo float playback at 48 kHz, with a latency request below the minimum.\<close>

definition demo_playback :: stream_params where
  "demo_playback = \<lparr>format = 2, rate = 48000, channels = 2, layout = 3, prefs = 0, input_params = 0\<rparr>"

definition demo_create :: stream_create_params where
  "demo_create = \<lparr>stream_name = None, input_device = 0, input_stream_params = None, output_device = 0,
     output_stream_params = Some demo_playback, latency_frames = 128\<rparr>"

lemma demo_create_valid: "validate_stream_create_params cubeb_h demo_create = Ok ()"
  by (simp add: validate_stream_create_params_def validate_stream_params_def demo_create_def demo_playback_def
      cubeb_h_def)

theorem stream_bounds_witness:
  "\<exists>lat. stream_latency demo_create = (Ok lat :: (cubeb_error, u32) res) \<and> 240 \<le> unat lat \<and> lat \<le> 48000"
proof -
  have "(stream_rate demo_create :: (cubeb_error, u32) res) = Ok 48000"
    by (simp add: stream_rate_def demo_create_def demo_playback_def)
  with stream_bounds [OF cubeb_h_contract demo_create_valid] show ?thesis by auto
qed

theorem device_handles_roundtrip_witness:
  "map (handle_to_id [0, 7, 9]) [1, 0] = (map Ok [7, 0] :: (unit, nat) res list)"
proof -
  have "make_handles [0] [7, 0] = ([1, 0], [0, 7])" "make_handles [0, 7] [9] = ([2], [0, 7, 9])"
    by (simp_all add: make_handle_def)
  from device_handles_roundtrip [where ?'e = unit, OF _ this] show ?thesis by (simp add: dev_id_map_inv_def)
qed

end
