(* ===== verification/Server.thy ===== *)
theory Server
  imports ServerStreams Containers
begin

text \<open>
  \<open>CubebServer\<close> of \<open>server/src/server.rs\<close>: the requests a client sends and what the server does for each of
  them, the device-collection manager, and the thread-local cubeb context.

  \<open>'w\<close> is the world outside: cubeb, the operating system and the other threads.  What the server calls
  of it are the fields of \<open>cubeb_ops\<close> and \<open>server_env\<close>; each maps the world before the call to its outcome and
  the world after it.  A cubeb stream, a proxy's connection and an \<open>Rc\<close> are numbers.
  \<open>EventLoopHandle::bind_client\<close> (modelled in \<open>EventLoop\<close>) is seen from the thread that waits for it:
  its outcome is the connection of the new proxy.
\<close>

section \<open>The world\<close>

record 'w cubeb_ops =
  ctx_init :: "byte list \<Rightarrow> byte list option \<Rightarrow> 'w \<Rightarrow> (cubeb_error, unit) res \<times> 'w"
  ctx_backend_id :: "'w \<Rightarrow> byte list"
  ctx_max_channel_count :: "'w \<Rightarrow> (cubeb_error, u32) res \<times> 'w"
  ctx_min_latency :: "sample_format \<Rightarrow> u32 \<Rightarrow> u32 \<Rightarrow> u32 \<Rightarrow> 'w \<Rightarrow> (cubeb_error, u32) res \<times> 'w"
  ctx_preferred_sample_rate :: "'w \<Rightarrow> (cubeb_error, u32) res \<times> 'w"
  ctx_supported_input_processing_params :: "'w \<Rightarrow> (cubeb_error, u32) res \<times> 'w"
  ctx_enumerate_devices :: "u32 \<Rightarrow> 'w \<Rightarrow> (cubeb_error, cubeb_device_info list) res \<times> 'w"
  ctx_register_collection :: "u32 \<Rightarrow> bool \<Rightarrow> 'w \<Rightarrow> (cubeb_error, unit) res \<times> 'w"
  ctx_stream_init :: "byte list option \<Rightarrow> nat \<Rightarrow> stream_params option \<Rightarrow> nat \<Rightarrow> stream_params option \<Rightarrow>
    u32 \<Rightarrow> nat \<Rightarrow> 'w \<Rightarrow> (cubeb_error, nat) res \<times> 'w"
  stm_drop :: "nat \<Rightarrow> 'w \<Rightarrow> 'w"
  stm_start :: "nat \<Rightarrow> 'w \<Rightarrow> (cubeb_error, unit) res \<times> 'w"
  stm_stop :: "nat \<Rightarrow> 'w \<Rightarrow> (cubeb_error, unit) res \<times> 'w"
  stm_position :: "nat \<Rightarrow> 'w \<Rightarrow> (cubeb_error, u64) res \<times> 'w"
  stm_latency :: "nat \<Rightarrow> 'w \<Rightarrow> (cubeb_error, u32) res \<times> 'w"
  stm_input_latency :: "nat \<Rightarrow> 'w \<Rightarrow> (cubeb_error, u32) res \<times> 'w"
  stm_set_volume :: "nat \<Rightarrow> f32 \<Rightarrow> 'w \<Rightarrow> (cubeb_error, unit) res \<times> 'w"
  stm_set_name :: "nat \<Rightarrow> byte list \<Rightarrow> 'w \<Rightarrow> (cubeb_error, unit) res \<times> 'w"
  stm_current_device :: "nat \<Rightarrow> 'w \<Rightarrow> (cubeb_error, cubeb_device) res \<times> 'w"
  stm_set_input_mute :: "nat \<Rightarrow> bool \<Rightarrow> 'w \<Rightarrow> (cubeb_error, unit) res \<times> 'w"
  stm_set_input_processing_params :: "nat \<Rightarrow> u32 \<Rightarrow> 'w \<Rightarrow> (cubeb_error, unit) res \<times> 'w"
  stm_register_device_changed :: "nat \<Rightarrow> bool \<Rightarrow> 'w \<Rightarrow> (cubeb_error, unit) res \<times> 'w"
  channel_layout_of :: "u32 \<Rightarrow> u32"
  input_processing_truncate :: "u32 \<Rightarrow> u32"

record 'w server_env =
  env_os :: "'w shm_os"
  env_pid :: nat
  env_socket_pair :: "'w \<Rightarrow> (io_error, handle \<times> handle) res \<times> 'w"
  env_bind_callback :: "handle \<Rightarrow> 'w \<Rightarrow> (io_error, nat) res \<times> 'w"
  env_bind_collection :: "handle \<Rightarrow> 'w \<Rightarrow> (io_error, nat) res \<times> 'w"
  env_drop_proxies :: "nat \<Rightarrow> 'w \<Rightarrow> 'w"
  env_new_rc :: "'w \<Rightarrow> nat \<times> 'w"
  env_collection_call :: "nat \<Rightarrow> device_collection_req \<Rightarrow> 'w \<Rightarrow> (io_error, device_collection_resp) res \<times> 'w"
  env_thread_info_pid :: "byte list \<Rightarrow> u32"
  env_promote :: "byte list \<Rightarrow> 'w \<Rightarrow> (unit, unit) res \<times> 'w"

section \<open>State\<close>

record collection_callback =
  cc_ptr :: nat
  cc_rpc :: nat

type_synonym manager = "(collection_callback \<times> u32) list"

record server_stream =
  ss_stream :: "nat option"
  ss_cbs :: server_stream_callbacks
  ss_client_pipe :: "handle option"
  ss_params :: "stream_create_params option"

record 's cubeb_server =
  streams :: 's
  remote_pid :: "u32 option"
  collection_callbacks :: "collection_callback option"
  devidmap :: dev_id_map
  configured_shm_size :: usize

record context_params =
  context_name :: "byte list"
  backend_name :: "byte list option"

text \<open>
  What a request may change: the server itself, the thread's \<open>CubebContextState\<close> (its manager, and its
  context, \<open>None\<close> while the thread has not made them), the process-wide counter and parameters, the world.
\<close>

record ('s, 'w) server_st =
  sv :: "'s cubeb_server"
  mgr :: manager
  local_context :: "(cubeb_error, unit) res option"
  shm_ids :: usize
  global_params :: context_params
  world :: 'w

definition on_world :: "('w \<Rightarrow> ('e, 'a) res \<times> 'w) \<Rightarrow> ('s, 'w) server_st \<Rightarrow> ('e, 'a) res \<times> ('s, 'w) server_st" where
  "on_world f st = (case f (world st) of (r, w) \<Rightarrow> (r, st\<lparr>world := w\<rparr>))"

section \<open>The device-collection manager\<close>

text \<open>\<open>internal_register\<close> stops at the first error.\<close>

fun internal_register_dirs ::
  "'w cubeb_ops \<Rightarrow> bool \<Rightarrow> u32 list \<Rightarrow> 'w \<Rightarrow> (cubeb_error, unit) res \<times> 'w" where
  "internal_register_dirs C enable [] w = (Ok (), w)"
| "internal_register_dirs C enable (dir # dirs) w =
     and_then (ctx_register_collection C dir enable w) (\<lambda>_ w. internal_register_dirs C enable dirs w)"

definition internal_register ::
  "cubeb_abi \<Rightarrow> 'w cubeb_ops \<Rightarrow> bool \<Rightarrow> 'w \<Rightarrow> (cubeb_error, unit) res \<times> 'w" where
  "internal_register K C enable w =
     internal_register_dirs C enable [DEVICE_TYPE_INPUT K, DEVICE_TYPE_OUTPUT K] w"

definition manager_register ::
  "cubeb_abi \<Rightarrow> 'w cubeb_ops \<Rightarrow> collection_callback \<Rightarrow> u32 \<Rightarrow> manager \<times> 'w \<Rightarrow>
   (cubeb_error, unit) res \<times> manager \<times> 'w" where
  "manager_register K C server devtype mw = (case mw of (servers, w) \<Rightarrow>
     (case (if servers = [] then internal_register K C True w else (Ok (), w)) of
        (Ok _, w) \<Rightarrow> (Ok (), servers @ [(server, devtype)], w)
      | (r, w) \<Rightarrow> (r, servers, w)))"

definition manager_unregister ::
  "cubeb_abi \<Rightarrow> 'w cubeb_ops \<Rightarrow> collection_callback \<Rightarrow> u32 \<Rightarrow> manager \<times> 'w \<Rightarrow>
   (cubeb_error, unit) res \<times> manager \<times> 'w" where
  "manager_unregister K C server devtype mw = (case mw of (servers, w) \<Rightarrow>
     let servers = filter (\<lambda>(s, d). cc_ptr s \<noteq> cc_ptr server \<or> d \<noteq> devtype) servers in
     (case (if servers = [] then internal_register K C False w else (Ok (), w)) of
        (r, w) \<Rightarrow> (r, servers, w)))"

definition collection_changed_callback ::
  "'w server_env \<Rightarrow> collection_callback \<Rightarrow> u32 \<Rightarrow> 'w \<Rightarrow> 'w" where
  "collection_changed_callback E server devtype w =
     snd (env_collection_call E (cc_rpc server) (CollReqDeviceChange devtype) w)"

text \<open>The callback cubeb runs for a direction, on every server that registered for it.\<close>

definition device_collection_changed_callback ::
  "cubeb_abi \<Rightarrow> 'w server_env \<Rightarrow> u32 \<Rightarrow> manager \<times> 'w \<Rightarrow> 'w" where
  "device_collection_changed_callback K E devtype mw = (case mw of (servers, w) \<Rightarrow>
     fold (\<lambda>(s, d) w. if device_type_contains K d (device_type_truncate K devtype)
         then collection_changed_callback E s devtype w else w) servers w)"

definition device_collection_changed_input_cb_c ::
  "cubeb_abi \<Rightarrow> 'w server_env \<Rightarrow> manager \<times> 'w \<Rightarrow> 'w" where
  "device_collection_changed_input_cb_c K E mw = device_collection_changed_callback K E (DEVICE_TYPE_INPUT K) mw"

definition device_collection_changed_output_cb_c ::
  "cubeb_abi \<Rightarrow> 'w server_env \<Rightarrow> manager \<times> 'w \<Rightarrow> 'w" where
  "device_collection_changed_output_cb_c K E mw = device_collection_changed_callback K E (DEVICE_TYPE_OUTPUT K) mw"

text \<open>\<open>Drop for CubebDeviceCollectionManager\<close> asserts that no server is left.\<close>

definition manager_drop :: "manager \<Rightarrow> ('e, unit) res" where
  "manager_drop servers = (if servers = [] then Ok () else Panic)"

section \<open>Streams\<close>

text \<open>\<open>sys::make_pipe_pair\<close>: a connected socket pair, of which the client's end is made a handle.\<close>

definition make_pipe_pair :: "'w server_env \<Rightarrow> 'w \<Rightarrow> (io_error, handle \<times> handle) res \<times> 'w" where
  "make_pipe_pair E w = and_then (env_socket_pair E w)
     (\<lambda>(server, client) w. (map_ok (\<lambda>h. (server, h)) (platform_handle_new client), w))"

definition take_shm_id :: "'w server_env \<Rightarrow> ('s, 'w) server_st \<Rightarrow> byte list \<times> ('s, 'w) server_st" where
  "take_shm_id E st = (case get_shm_id (env_pid E) (shm_ids st) of (i, n) \<Rightarrow> (i, st\<lparr>shm_ids := n\<rparr>))"

text \<open>\<open>From<io::Error>\<close>\<close>

definition io_error_of :: "(io_error, 'a) res \<times> 's \<Rightarrow> (unit ipc_error, 'a) res \<times> 's" where
  "io_error_of m = (case m of (r, s) \<Rightarrow> (map_err ErrIo r, s))"

text \<open>The fallible part of \<open>process_stream_create\<close>: shared memory, its handle, the pipe and the proxy.\<close>

definition create_resources ::
  "'w server_env \<Rightarrow> byte list \<Rightarrow> usize \<Rightarrow> 'w \<Rightarrow>
   (unit ipc_error, shared_mem \<times> handle \<times> handle \<times> nat) res \<times> 'w" where
  "create_resources E ident n w =
     and_then (shared_mem_new (env_os E) ident n w) (\<lambda>shm w.
     and_then (shm_make_handle (env_os E) shm w) (\<lambda>shm_fd w.
     and_then (io_error_of (make_pipe_pair E w)) (\<lambda>(server_pipe, client_pipe) w.
     and_then (io_error_of (env_bind_callback E server_pipe w)) (\<lambda>rpc w.
       (Ok (shm, shm_fd, client_pipe, rpc), w)))))"

definition new_stream ::
  "cubeb_abi \<Rightarrow> stream_create_params \<Rightarrow> shared_mem \<Rightarrow> nat \<Rightarrow> handle \<Rightarrow> server_stream" where
  "new_stream K params shm rpc client_pipe = \<lparr>
     ss_stream = None,
     ss_cbs = \<lparr>
       scb_input_frame_size = map_option (frame_size_in_bytes K) (input_stream_params params),
       scb_output_frame_size = map_option (frame_size_in_bytes K) (output_stream_params params),
       scb_shm = shm, scb_rpc = rpc, connected = False \<rparr>,
     ss_client_pipe = Some client_pipe,
     ss_params = Some params \<rparr>"

text \<open>\<open>remote_pid.unwrap()\<close>\<close>

definition unwrap_pid :: "'s cubeb_server \<Rightarrow> ('e, u32) res" where
  "unwrap_pid s = (case remote_pid s of Some pid \<Rightarrow> Ok pid | None \<Rightarrow> Panic)"

definition process_stream_create ::
  "cubeb_abi \<Rightarrow> 'w server_env \<Rightarrow> ('s, server_stream) slab \<Rightarrow> stream_create_params \<Rightarrow> ('s, 'w) server_st \<Rightarrow>
   (unit ipc_error, serializable_handle client_message) res \<times> ('s, 'w) server_st" where
  "process_stream_create K E S params st =
     and_then (map_err ErrCubeb (validate_stream_create_params K params), st) (\<lambda>_ st.
     let n = shm_area_size_for K (configured_shm_size (sv st)) params in
     (case take_shm_id E st of (ident, st) \<Rightarrow>
     and_then (on_world (create_resources E ident n) st) (\<lambda>(shm, shm_fd, client_pipe, rpc) st.
     let key = sl_vacant_key S (streams (sv st));
         st = st\<lparr>sv := (sv st)\<lparr>streams := sl_insert S (streams (sv st)) (new_stream K params shm rpc client_pipe)\<rparr>\<rparr>
     in (map_ok (\<lambda>pid. StreamCreated (StreamCreateMk key (serializable_handle_new shm_fd pid) n))
           (unwrap_pid (sv st)), st))))"

text \<open>Dropping a stream drops the cubeb stream first, then the callbacks with their proxies.\<close>

definition stream_drop :: "'w cubeb_ops \<Rightarrow> 'w server_env \<Rightarrow> server_stream \<Rightarrow> 'w \<Rightarrow> 'w" where
  "stream_drop C E ss w =
     env_drop_proxies E (scb_rpc (ss_cbs ss)) (case ss_stream ss of None \<Rightarrow> w | Some s \<Rightarrow> stm_drop C s w)"

definition remove_stream ::
  "'w cubeb_ops \<Rightarrow> 'w server_env \<Rightarrow> ('s, server_stream) slab \<Rightarrow> nat \<Rightarrow> ('s, 'w) server_st \<Rightarrow> ('s, 'w) server_st" where
  "remove_stream C E S tok st = (case sl_get S (streams (sv st)) tok of
     None \<Rightarrow> st
   | Some ss \<Rightarrow> st\<lparr>sv := (sv st)\<lparr>streams := sl_remove S (streams (sv st)) tok\<rparr>,
                  world := stream_drop C E ss (world st)\<rparr>)"

definition update_stream ::
  "('s, server_stream) slab \<Rightarrow> nat \<Rightarrow> server_stream \<Rightarrow> ('s, 'w) server_st \<Rightarrow> ('s, 'w) server_st" where
  "update_stream S tok ss st = st\<lparr>sv := (sv st)\<lparr>streams := sl_set S (streams (sv st)) tok ss\<rparr>\<rparr>"

text \<open>\<open>CStr::from_bytes_with_nul\<close>: the only zero byte is the last one; the name without it.\<close>

definition cstr_from_bytes_with_nul :: "byte list \<Rightarrow> byte list option" where
  "cstr_from_bytes_with_nul bs =
     (if bs \<noteq> [] \<and> last bs = 0 \<and> 0 \<notin> set (butlast bs) then Some (butlast bs) else None)"

text \<open>
  The creation of the cubeb stream from the parameters taken out of the server's stream; the pointer to
  the boxed callbacks is the stream's token.
\<close>

definition init_stream ::
  "'w cubeb_ops \<Rightarrow> nat \<Rightarrow> stream_create_params \<Rightarrow> ('s, 'w) server_st \<Rightarrow>
   (cubeb_error, nat) res \<times> ('s, 'w) server_st" where
  "init_stream C user_ptr params st =
     and_then (handle_to_id (devidmap (sv st)) (input_device params), st) (\<lambda>input_dev st.
     and_then (handle_to_id (devidmap (sv st)) (output_device params), st) (\<lambda>output_dev st.
     and_then (stream_latency params, st) (\<lambda>latency st.
       on_world (ctx_stream_init C (Option.bind (stream_name params) cstr_from_bytes_with_nul)
         input_dev (input_stream_params params) output_dev (output_stream_params params) latency user_ptr) st)))"

definition process_stream_init ::
  "cubeb_abi \<Rightarrow> 'w cubeb_ops \<Rightarrow> 'w server_env \<Rightarrow> ('s, server_stream) slab \<Rightarrow> nat \<Rightarrow> ('s, 'w) server_st \<Rightarrow>
   (unit ipc_error, serializable_handle client_message) res \<times> ('s, 'w) server_st" where
  "process_stream_init K C E S stm_tok st = (case sl_get S (streams (sv st)) stm_tok of
     None \<Rightarrow> (Err (ErrCubeb InvalidParameter), st)
   | Some ss \<Rightarrow>
       if ss_stream ss \<noteq> None then (Err (ErrCubeb InvalidParameter), st)
       else (case ss_params ss of
          None \<Rightarrow> (Err (ErrCubeb InvalidParameter), st)
        | Some params \<Rightarrow>
            let ss = ss\<lparr>ss_params := None\<rparr>; st = update_stream S stm_tok ss st in
            (case init_stream C stm_tok params st of
               (Panic, st) \<Rightarrow> (Panic, st)
             | (Err e, st) \<Rightarrow> (Err (ErrCubeb e), remove_stream C E S stm_tok st)
             | (Ok stream, st) \<Rightarrow>
                 let ss = ss\<lparr>ss_stream := Some stream\<rparr>; st = update_stream S stm_tok ss st in
                 (case ss_client_pipe ss of
                    None \<Rightarrow> (Panic, st)
                  | Some client_pipe \<Rightarrow>
                      let ss = ss\<lparr>ss_client_pipe := None, ss_cbs := (ss_cbs ss)\<lparr>connected := True\<rparr>\<rparr>;
                          st = update_stream S stm_tok ss st in
                      (map_ok (\<lambda>pid. StreamInitialized (serializable_handle_new client_pipe pid))
                         (unwrap_pid (sv st)), st)))))"

section \<open>Requests\<close>

definition error_message :: "cubeb_abi \<Rightarrow> cubeb_error \<Rightarrow> 'h client_message" where
  "error_message K e = ErrorMsg (error_code K e)"

text \<open>\<open>.map(f).unwrap_or_else(error)\<close>\<close>

definition reply ::
  "cubeb_abi \<Rightarrow> ('a \<Rightarrow> 'h client_message) \<Rightarrow> (cubeb_error, 'a) res \<times> 's \<Rightarrow> (io_error, 'h client_message) res \<times> 's" where
  "reply K f m = (case m of (r, st) \<Rightarrow> (unwrap_or_else (error_message K) (map_ok f r), st))"

text \<open>The macro \<open>try_stream!\<close> followed by an operation of the cubeb stream and its reply.\<close>

definition try_stream ::
  "cubeb_abi \<Rightarrow> ('s, server_stream) slab \<Rightarrow> nat \<Rightarrow> (nat \<Rightarrow> 'w \<Rightarrow> (cubeb_error, 'a) res \<times> 'w) \<Rightarrow>
   ('a \<Rightarrow> 'h client_message) \<Rightarrow> ('s, 'w) server_st \<Rightarrow> (io_error, 'h client_message) res \<times> ('s, 'w) server_st" where
  "try_stream K S stm_tok oper f st = (case sl_get S (streams (sv st)) stm_tok of
     None \<Rightarrow> (Ok (error_message K InvalidParameter), st)
   | Some ss \<Rightarrow> (case ss_stream ss of
        None \<Rightarrow> (Panic, st)
      | Some stream \<Rightarrow> reply K f (on_world (oper stream) st)))"

text \<open>The devices of an enumeration, with the ids replaced by handles.\<close>

fun enumerated_devices :: "dev_id_map \<Rightarrow> cubeb_device_info list \<Rightarrow> device_info list \<times> dev_id_map" where
  "enumerated_devices devices [] = ([], devices)"
| "enumerated_devices devices (i # infos) =
     (let tmp = device_info_of_ffi i in
      case make_handle devices (devid tmp) of (h, devices) \<Rightarrow>
        (case enumerated_devices devices infos of (ds, devices) \<Rightarrow> (tmp\<lparr>devid := h\<rparr> # ds, devices)))"

definition process_enumeration ::
  "cubeb_abi \<Rightarrow> 'w cubeb_ops \<Rightarrow> u32 \<Rightarrow> ('s, 'w) server_st \<Rightarrow>
   (io_error, 'h client_message) res \<times> ('s, 'w) server_st" where
  "process_enumeration K C devtype st =
     reply K ContextEnumeratedDevices
       (and_then (on_world (ctx_enumerate_devices C (device_type_truncate K devtype)) st) (\<lambda>infos st.
          case enumerated_devices (devidmap (sv st)) infos of (ds, devices) \<Rightarrow>
            (Ok ds, st\<lparr>sv := (sv st)\<lparr>devidmap := devices\<rparr>\<rparr>)))"

text \<open>Replacing the callback drops the previous one, unless the manager still holds it.\<close>

definition drop_callback ::
  "'w server_env \<Rightarrow> collection_callback option \<Rightarrow> manager \<Rightarrow> 'w \<Rightarrow> 'w" where
  "drop_callback E old servers w = (case old of
     None \<Rightarrow> w
   | Some c \<Rightarrow> if \<exists>(s, d) \<in> set servers. cc_ptr s = cc_ptr c then w else env_drop_proxies E (cc_rpc c) w)"

definition process_setup_collection ::
  "cubeb_abi \<Rightarrow> 'w server_env \<Rightarrow> ('s, 'w) server_st \<Rightarrow>
   (io_error, serializable_handle client_message) res \<times> ('s, 'w) server_st" where
  "process_setup_collection K E st = (case on_world (make_pipe_pair E) st of
     (Panic, st) \<Rightarrow> (Panic, st)
   | (Err _, st) \<Rightarrow> (Ok (error_message K CubebError), st)
   | (Ok (server_pipe, client_pipe), st) \<Rightarrow>
       (case on_world (env_bind_collection E server_pipe) st of
          (Panic, st) \<Rightarrow> (Panic, st)
        | (Err _, st) \<Rightarrow> (Ok (error_message K CubebError), st)
        | (Ok rpc, st) \<Rightarrow>
            (case env_new_rc E (world st) of (p, w) \<Rightarrow>
               let st = st\<lparr>sv := (sv st)\<lparr>collection_callbacks := Some \<lparr>cc_ptr = p, cc_rpc = rpc\<rparr>\<rparr>,
                           world := drop_callback E (collection_callbacks (sv st)) (mgr st) w\<rparr> in
               (map_ok (\<lambda>pid. ContextSetupDeviceCollectionCallbackDone (RegisterMk (serializable_handle_new client_pipe pid)))
                  (unwrap_pid (sv st)), st))))"

definition process_register_collection ::
  "cubeb_abi \<Rightarrow> 'w cubeb_ops \<Rightarrow> u32 \<Rightarrow> bool \<Rightarrow> ('s, 'w) server_st \<Rightarrow>
   (cubeb_error, 'h client_message) res \<times> ('s, 'w) server_st" where
  "process_register_collection K C devtype enable st =
     (if devtype = DEVICE_TYPE_UNKNOWN K then (Err InvalidParameter, st)
      else case collection_callbacks (sv st) of
        None \<Rightarrow> (Panic, st)
      | Some cbs \<Rightarrow>
          (case (if enable then manager_register else manager_unregister) K C cbs devtype (mgr st, world st) of
             (r, servers, w) \<Rightarrow>
               (map_ok (\<lambda>_. ContextRegisteredDeviceCollectionChanged) r, st\<lparr>mgr := servers, world := w\<rparr>)))"

definition process_promote ::
  "'w server_env \<Rightarrow> byte list \<Rightarrow> ('s, 'w) server_st \<Rightarrow> (io_error, 'h client_message) res \<times> ('s, 'w) server_st" where
  "process_promote E info st =
     (case unwrap_pid (sv st) :: (io_error, u32) res of
        Ok pid \<Rightarrow>
          if env_thread_info_pid E info \<noteq> pid then (Ok ThreadPromoted, st)
          else (case on_world (env_promote E info) st of
             (Panic, st) \<Rightarrow> (Panic, st) | (_, st) \<Rightarrow> (Ok ThreadPromoted, st))
      | _ \<Rightarrow> (Panic, st))"

text \<open>The arms of \<open>process_msg\<close> for streams, each by its token.\<close>

definition process_stream_msg ::
  "cubeb_abi \<Rightarrow> 'w cubeb_ops \<Rightarrow> 'w server_env \<Rightarrow> ('s, server_stream) slab \<Rightarrow> server_message \<Rightarrow>
   ('s, 'w) server_st \<Rightarrow> (io_error, 'h client_message) res \<times> ('s, 'w) server_st" where
  "process_stream_msg K C E S m st = (case m of
     StreamDestroy t \<Rightarrow>
       if sl_get S (streams (sv st)) t \<noteq> None then (Ok StreamDestroyed, remove_stream C E S t st)
       else (Ok (error_message K InvalidParameter), st)
   | StreamStart t \<Rightarrow> try_stream K S t (stm_start C) (\<lambda>_. StreamStarted) st
   | StreamStop t \<Rightarrow> try_stream K S t (stm_stop C) (\<lambda>_. StreamStopped) st
   | StreamGetPosition t \<Rightarrow> try_stream K S t (stm_position C) StreamPosition st
   | StreamGetLatency t \<Rightarrow> try_stream K S t (stm_latency C) StreamLatency st
   | StreamGetInputLatency t \<Rightarrow> try_stream K S t (stm_input_latency C) StreamInputLatency st
   | StreamSetVolume t v \<Rightarrow> try_stream K S t (\<lambda>s. stm_set_volume C s v) (\<lambda>_. StreamVolumeSet) st
   | StreamSetName t n \<Rightarrow> try_stream K S t (\<lambda>s. stm_set_name C s n) (\<lambda>_. StreamNameSet) st
   | StreamGetCurrentDevice t \<Rightarrow>
       try_stream K S t (stm_current_device C) (\<lambda>d. StreamCurrentDevice (device_of_ffi d)) st
   | StreamSetInputMute t b \<Rightarrow> try_stream K S t (\<lambda>s. stm_set_input_mute C s b) (\<lambda>_. StreamInputMuteSet) st
   | StreamSetInputProcessingParams t p \<Rightarrow>
       try_stream K S t (\<lambda>s. stm_set_input_processing_params C s (input_processing_truncate C p))
         (\<lambda>_. StreamInputProcessingParamsSet) st
   | StreamRegisterDeviceChangeCallback t enable \<Rightarrow>
       try_stream K S t (\<lambda>s. stm_register_device_changed C s enable)
         (\<lambda>_. StreamRegisterDeviceChangeCallbackDone) st
   | _ \<Rightarrow> (Panic, st))"

text \<open>\<open>process_msg\<close>; errors of \<open>process_stream_create\<close> and \<open>process_stream_init\<close> become \<open>Error::Error\<close>.\<close>

definition any_error ::
  "cubeb_abi \<Rightarrow> ('e, 'h client_message) res \<times> 's \<Rightarrow> (io_error, 'h client_message) res \<times> 's" where
  "any_error K m = (case m of (r, st) \<Rightarrow> (unwrap_or_else (\<lambda>_. error_message K CubebError) r, st))"

definition process_msg ::
  "cubeb_abi \<Rightarrow> 'w cubeb_ops \<Rightarrow> 'w server_env \<Rightarrow> ('s, server_stream) slab \<Rightarrow> server_message \<Rightarrow>
   ('s, 'w) server_st \<Rightarrow> (io_error, serializable_handle client_message) res \<times> ('s, 'w) server_st" where
  "process_msg K C E S m st = (case m of
     ClientConnect \<Rightarrow> if remote_pid (sv st) = None then (Panic, st) else (Ok ClientConnected, st)
   | ClientDisconnect \<Rightarrow> (Ok ClientDisconnected, st)
   | ContextGetBackendId \<Rightarrow> (Ok (ContextBackendId (ctx_backend_id C (world st))), st)
   | ContextGetMaxChannelCount \<Rightarrow> reply K ContextMaxChannelCount (on_world (ctx_max_channel_count C) st)
   | ContextGetMinLatency p \<Rightarrow>
       reply K ContextMinLatency (on_world (ctx_min_latency C (sample_format_of K (format p)) (rate p) (channels p)
         (channel_layout_of C (layout p))) st)
   | ContextGetPreferredSampleRate \<Rightarrow>
       reply K ContextPreferredSampleRate (on_world (ctx_preferred_sample_rate C) st)
   | ContextGetSupportedInputProcessingParams \<Rightarrow>
       reply K ContextSupportedInputProcessingParams (on_world (ctx_supported_input_processing_params C) st)
   | ContextGetDeviceEnumeration devtype \<Rightarrow> process_enumeration K C devtype st
   | StreamCreate params \<Rightarrow> any_error K (process_stream_create K E S params st)
   | StreamInit t \<Rightarrow> any_error K (process_stream_init K C E S t st)
   | ContextSetupDeviceCollectionCallback \<Rightarrow> process_setup_collection K E st
   | ContextRegisterDeviceCollectionChanged devtype enable \<Rightarrow>
       (case process_register_collection K C (device_type_truncate K devtype) enable st of
          (r, st) \<Rightarrow> (unwrap_or_else (error_message K) r, st))
   | PromoteThreadToRealTime info \<Rightarrow> process_promote E info st
   | _ \<Rightarrow> process_stream_msg K C E S m st)"

section \<open>The thread's context\<close>

definition cubeb_init_from_context_params ::
  "'w cubeb_ops \<Rightarrow> ('s, 'w) server_st \<Rightarrow> (cubeb_error, unit) res \<times> ('s, 'w) server_st" where
  "cubeb_init_from_context_params C st =
     on_world (ctx_init C (context_name (global_params st)) (backend_name (global_params st))) st"

text \<open>\<open>with_local_context\<close> up to its call of \<open>f\<close>: make the context, and try again after an error.\<close>

definition with_local_context ::
  "'w cubeb_ops \<Rightarrow> ('s, 'w) server_st \<Rightarrow> (cubeb_error, unit) res \<times> ('s, 'w) server_st" where
  "with_local_context C st =
     (case (case local_context st of
              Some r \<Rightarrow> (r, st)
            | None \<Rightarrow> (case cubeb_init_from_context_params C st of (r, st) \<Rightarrow> (r, st\<lparr>mgr := []\<rparr>))) of
        (r, st) \<Rightarrow>
          (case (case r of Err _ \<Rightarrow> cubeb_init_from_context_params C st | _ \<Rightarrow> (r, st)) of
             (r, st) \<Rightarrow> (r, st\<lparr>local_context := Some r\<rparr>)))"

definition server_process ::
  "cubeb_abi \<Rightarrow> 'w cubeb_ops \<Rightarrow> 'w server_env \<Rightarrow> ('s, server_stream) slab \<Rightarrow> server_message \<Rightarrow>
   ('s, 'w) server_st \<Rightarrow> (io_error, serializable_handle client_message) res \<times> ('s, 'w) server_st" where
  "server_process K C E S m st = (case with_local_context C st of
     (Ok _, st) \<Rightarrow> process_msg K C E S m st
   | (Err _, st) \<Rightarrow> (Ok (error_message K CubebError), st)
   | (Panic, st) \<Rightarrow> (Panic, st))"

text \<open>\<open>CubebServer::new\<close> and \<open>Drop for CubebServer\<close>, after which the fields are dropped.\<close>

definition cubeb_server_new :: "('s, server_stream) slab \<Rightarrow> u32 \<Rightarrow> usize \<Rightarrow> 's cubeb_server" where
  "cubeb_server_new S pid n = \<lparr>streams = sl_new S, remote_pid = Some pid, collection_callbacks = None,
     devidmap = dev_id_map_new, configured_shm_size = n\<rparr>"

definition unregister_ignored ::
  "cubeb_abi \<Rightarrow> 'w cubeb_ops \<Rightarrow> collection_callback \<Rightarrow> u32 \<Rightarrow> ('s, 'w) server_st \<Rightarrow> ('s, 'w) server_st" where
  "unregister_ignored K C c devtype st =
     (case manager_unregister K C c devtype (mgr st, world st) of
        (_, servers, w) \<Rightarrow> st\<lparr>mgr := servers, world := w\<rparr>)"

definition cubeb_server_drop ::
  "cubeb_abi \<Rightarrow> 'w cubeb_ops \<Rightarrow> 'w server_env \<Rightarrow> ('s, server_stream) slab \<Rightarrow> ('s, 'w) server_st \<Rightarrow> ('s, 'w) server_st" where
  "cubeb_server_drop K C E S st =
     (let st = (case (collection_callbacks (sv st), local_context st) of
          (Some c, Some (Ok _)) \<Rightarrow>
            unregister_ignored K C c (DEVICE_TYPE_OUTPUT K) (unregister_ignored K C c (DEVICE_TYPE_INPUT K) st)
        | _ \<Rightarrow> st)
      in let st = fold (remove_stream C E S) (sl_keys S (streams (sv st))) st
      in st\<lparr>world := drop_callback E (collection_callbacks (sv st)) (mgr st) (world st)\<rparr>)"

section \<open>Invariant, types of responses, life cycle\<close>

text \<open>
  A stream is created with its parameters and the client's pipe end and not connected; initialising it takes
  both out, connects it and sets its cubeb stream.
\<close>

definition stream_ok :: "cubeb_abi \<Rightarrow> server_stream \<Rightarrow> bool" where
  "stream_ok K ss \<longleftrightarrow> cbs_inv (ss_cbs ss) \<and>
     (case ss_stream ss of
        None \<Rightarrow> \<not> connected (ss_cbs ss) \<and> (\<exists>h. ss_client_pipe ss = Some h \<and> valid_handle h) \<and>
          (\<exists>p. ss_params ss = Some p \<and> validate_stream_create_params K p = Ok () \<and>
             scb_input_frame_size (ss_cbs ss) = map_option (frame_size_in_bytes K) (input_stream_params p) \<and>
             scb_output_frame_size (ss_cbs ss) = map_option (frame_size_in_bytes K) (output_stream_params p))
      | Some _ \<Rightarrow> connected (ss_cbs ss) \<and> ss_client_pipe ss = None \<and> ss_params ss = None)"

definition server_inv :: "cubeb_abi \<Rightarrow> ('s, server_stream) slab \<Rightarrow> 's cubeb_server \<Rightarrow> bool" where
  "server_inv K S s \<longleftrightarrow> slab_contract S \<and> remote_pid s \<noteq> None \<and> dev_id_map_inv (devidmap s) \<and>
     (\<forall>tok ss. sl_get S (streams s) tok = Some ss \<longrightarrow> stream_ok K ss)"

text \<open>The responses a request may get: the one of its kind, or an error.\<close>

definition response_for :: "server_message \<Rightarrow> 'h client_message \<Rightarrow> bool" where
  "response_for m r \<longleftrightarrow> (\<exists>e. r = ErrorMsg e) \<or> (case m of
     ClientConnect \<Rightarrow> r = ClientConnected
   | ClientDisconnect \<Rightarrow> r = ClientDisconnected
   | ContextGetBackendId \<Rightarrow> (\<exists>b. r = ContextBackendId b)
   | ContextGetMaxChannelCount \<Rightarrow> (\<exists>n. r = ContextMaxChannelCount n)
   | ContextGetMinLatency _ \<Rightarrow> (\<exists>n. r = ContextMinLatency n)
   | ContextGetPreferredSampleRate \<Rightarrow> (\<exists>n. r = ContextPreferredSampleRate n)
   | ContextGetSupportedInputProcessingParams \<Rightarrow> (\<exists>n. r = ContextSupportedInputProcessingParams n)
   | ContextGetDeviceEnumeration _ \<Rightarrow> (\<exists>ds. r = ContextEnumeratedDevices ds)
   | ContextSetupDeviceCollectionCallback \<Rightarrow> (\<exists>d. r = ContextSetupDeviceCollectionCallbackDone d)
   | ContextRegisterDeviceCollectionChanged _ _ \<Rightarrow> r = ContextRegisteredDeviceCollectionChanged
   | StreamCreate _ \<Rightarrow> (\<exists>d. r = StreamCreated d)
   | StreamInit _ \<Rightarrow> (\<exists>h. r = StreamInitialized h)
   | StreamDestroy _ \<Rightarrow> r = StreamDestroyed
   | StreamStart _ \<Rightarrow> r = StreamStarted
   | StreamStop _ \<Rightarrow> r = StreamStopped
   | StreamGetPosition _ \<Rightarrow> (\<exists>n. r = StreamPosition n)
   | StreamGetLatency _ \<Rightarrow> (\<exists>n. r = StreamLatency n)
   | StreamGetInputLatency _ \<Rightarrow> (\<exists>n. r = StreamInputLatency n)
   | StreamSetVolume _ _ \<Rightarrow> r = StreamVolumeSet
   | StreamSetName _ _ \<Rightarrow> r = StreamNameSet
   | StreamGetCurrentDevice _ \<Rightarrow> (\<exists>d. r = StreamCurrentDevice d)
   | StreamSetInputMute _ _ \<Rightarrow> r = StreamInputMuteSet
   | StreamSetInputProcessingParams _ _ \<Rightarrow> r = StreamInputProcessingParamsSet
   | StreamRegisterDeviceChangeCallback _ _ \<Rightarrow> r = StreamRegisterDeviceChangeCallbackDone
   | PromoteThreadToRealTime _ \<Rightarrow> r = ThreadPromoted)"

text \<open>
  What the server promises its client about streams: a token is created uninitialized, becomes ready once
  initialized, can be used only while ready, and is gone when destroyed or when its initialization
  failed; an error otherwise changes nothing.
\<close>

datatype life = Uninitialized | Ready

definition stream_op_token :: "server_message \<Rightarrow> nat option" where
  "stream_op_token m = (case m of
     StreamStart t \<Rightarrow> Some t | StreamStop t \<Rightarrow> Some t | StreamGetPosition t \<Rightarrow> Some t
   | StreamGetLatency t \<Rightarrow> Some t | StreamGetInputLatency t \<Rightarrow> Some t | StreamSetVolume t _ \<Rightarrow> Some t
   | StreamSetName t _ \<Rightarrow> Some t | StreamGetCurrentDevice t \<Rightarrow> Some t | StreamSetInputMute t _ \<Rightarrow> Some t
   | StreamSetInputProcessingParams t _ \<Rightarrow> Some t | StreamRegisterDeviceChangeCallback t _ \<Rightarrow> Some t
   | _ \<Rightarrow> None)"

definition changes_streams :: "server_message \<Rightarrow> bool" where
  "changes_streams m \<longleftrightarrow> (case m of StreamCreate _ \<Rightarrow> True | StreamInit _ \<Rightarrow> True | StreamDestroy _ \<Rightarrow> True | _ \<Rightarrow> False)"

inductive life_step ::
  "server_message \<Rightarrow> 'h client_message \<Rightarrow> (nat \<rightharpoonup> life) \<Rightarrow> (nat \<rightharpoonup> life) \<Rightarrow> bool" where
  life_create: "l (token d) = None \<Longrightarrow> life_step (StreamCreate p) (StreamCreated d) l (l(token d \<mapsto> Uninitialized))"
| life_init: "l t = Some Uninitialized \<Longrightarrow> life_step (StreamInit t) (StreamInitialized h) l (l(t \<mapsto> Ready))"
| life_init_failed: "l t = Some Uninitialized \<Longrightarrow> life_step (StreamInit t) (ErrorMsg e) l (l(t := None))"
| life_destroy: "l t \<noteq> None \<Longrightarrow> life_step (StreamDestroy t) StreamDestroyed l (l(t := None))"
| life_use: "stream_op_token m = Some t \<Longrightarrow> l t = Some Ready \<Longrightarrow> life_step m r l l"
| life_other: "stream_op_token m = None \<Longrightarrow> \<not> changes_streams m \<Longrightarrow> life_step m r l l"
| life_refused: "life_step m (ErrorMsg e) l l"

inductive_simps life_step_create: "life_step (StreamCreate p) r l l'"
inductive_simps life_step_init: "life_step (StreamInit t) r l l'"
inductive_simps life_step_destroy: "life_step (StreamDestroy t) r l l'"

definition life_of :: "('s, server_stream) slab \<Rightarrow> 's cubeb_server \<Rightarrow> nat \<rightharpoonup> life" where
  "life_of S s = (\<lambda>t. map_option (\<lambda>ss. if ss_stream ss = None then Uninitialized else Ready) (sl_get S (streams s) t))"

text \<open>All three at once, for one request.\<close>

definition step_ok ::
  "cubeb_abi \<Rightarrow> ('s, server_stream) slab \<Rightarrow> server_message \<Rightarrow> 's cubeb_server \<Rightarrow>
   (io_error, serializable_handle client_message) res \<times> ('s, 'w) server_st \<Rightarrow> bool" where
  "step_ok K S m s out \<longleftrightarrow> (\<forall>resp st'. out = (Ok resp, st') \<longrightarrow>
     server_inv K S (sv st') \<and> response_for m resp \<and> cm_sendable resp \<and> life_step m resp (life_of S s) (life_of S (sv st')))"

named_theorems server_steps

lemma step_okI:
  assumes "\<And>resp st'. out = (Ok resp, st') \<Longrightarrow> server_inv K S (sv st') \<and> response_for m resp \<and> cm_sendable resp \<and>
      life_step m resp (life_of S s) (life_of S (sv st'))"
  shows "step_ok K S m s out"
  using assms by (auto simp: step_ok_def)

lemma sendable_simps [simp]:
  "cm_sendable (ErrorMsg e)" "cm_sendable ClientConnected" "cm_sendable ClientDisconnected"
  "cm_sendable (ContextBackendId b)" "cm_sendable (ContextMaxChannelCount n)" "cm_sendable (ContextMinLatency n)"
  "cm_sendable (ContextPreferredSampleRate n)" "cm_sendable (ContextSupportedInputProcessingParams n)"
  "cm_sendable (ContextEnumeratedDevices ds)" "cm_sendable ContextRegisteredDeviceCollectionChanged"
  "cm_sendable StreamDestroyed" "cm_sendable StreamStarted" "cm_sendable StreamStopped"
  "cm_sendable (StreamPosition p)" "cm_sendable (StreamLatency n)" "cm_sendable (StreamInputLatency n)"
  "cm_sendable StreamVolumeSet" "cm_sendable StreamNameSet" "cm_sendable (StreamCurrentDevice d)"
  "cm_sendable StreamInputMuteSet" "cm_sendable StreamInputProcessingParamsSet"
  "cm_sendable StreamRegisterDeviceChangeCallbackDone" "cm_sendable ThreadPromoted"
  by (simp_all add: cm_sendable_def)

lemma response_error [simp]: "response_for m (ErrorMsg e)"
  by (simp add: response_for_def)

lemma reply_Ok:
  assumes "reply K f (r, st) = (Ok resp, st')"
  shows "st' = st \<and> ((\<exists>a. r = Ok a \<and> resp = f a) \<or> (\<exists>e. resp = ErrorMsg e))"
  using assms by (cases r) (auto simp: reply_def error_message_def)

lemma on_world_sv: "on_world f st = (r, st') \<Longrightarrow> sv st' = sv st"
  by (auto simp: on_world_def split: prod.splits)

text \<open>Requests that only ask the world.\<close>

lemma reply_on_world_ok:
  assumes inv: "server_inv K S (sv st)" and life: "stream_op_token m = None" "\<not> changes_streams m"
    and f: "\<And>a. response_for m (f a) \<and> cm_sendable (f a)"
  shows "step_ok K S m (sv st) (reply K f (on_world g st))"
proof (rule step_okI)
  fix resp st' assume out: "reply K f (on_world g st) = (Ok resp, st')"
  obtain r st1 where o: "on_world g st = (r, st1)" by fastforce
  from reply_Ok [OF out [unfolded o]] on_world_sv [OF o] inv f life
  show "server_inv K S (sv st') \<and> response_for m resp \<and> cm_sendable resp \<and>
      life_step m resp (life_of S (sv st)) (life_of S (sv st'))"
    by (auto intro: life_other)
qed

lemma try_stream_ok:
  assumes inv: "server_inv K S (sv st)" and m: "stream_op_token m = Some t"
    and f: "\<And>a. response_for m (f a) \<and> cm_sendable (f a)"
  shows "step_ok K S m (sv st) (try_stream K S t g f st)"
proof (rule step_okI)
  fix resp st' assume out: "try_stream K S t g f st = (Ok resp, st')"
  show "server_inv K S (sv st') \<and> response_for m resp \<and> cm_sendable resp \<and>
      life_step m resp (life_of S (sv st)) (life_of S (sv st'))"
  proof (cases "sl_get S (streams (sv st)) t")
    case None
    with out inv show ?thesis by (auto simp: try_stream_def error_message_def intro: life_refused)
  next
    case (Some ss)
    then obtain s where s: "ss_stream ss = Some s" using out by (auto simp: try_stream_def split: option.splits)
    obtain r st1 where o: "on_world (g s) st = (r, st1)" by fastforce
    have "life_of S (sv st) t = Some Ready" using Some s by (simp add: life_of_def)
    with reply_Ok [of K f r st1 resp st'] on_world_sv [OF o] Some s o out inv f m show ?thesis
      by (auto simp: try_stream_def intro: life_use)
  qed
qed

lemma unwrap_or_else_OkD: "unwrap_or_else f r = Ok x \<Longrightarrow> (\<exists>a. r = Ok a \<and> x = a) \<or> (\<exists>e. r = Err e \<and> x = f e)"
  by (cases r) auto

text \<open>Requests that leave the streams alone.\<close>

lemma same_streams_ok:
  assumes inv: "server_inv K S s" and same: "streams (sv st') = streams s" "remote_pid (sv st') = remote_pid s"
    and dev: "dev_id_map_inv (devidmap (sv st'))"
    and life: "stream_op_token m = None" "\<not> changes_streams m"
    and r: "response_for m resp" "cm_sendable resp"
  shows "server_inv K S (sv st') \<and> response_for m resp \<and> cm_sendable resp \<and>
      life_step m resp (life_of S s) (life_of S (sv st'))"
  using assms by (auto simp: server_inv_def life_of_def intro: life_other)

lemma enumerated_devices_inv:
  "enumerated_devices devices infos = (ds, devices') \<Longrightarrow> dev_id_map_inv devices \<Longrightarrow> dev_id_map_inv devices'"
proof (induction infos arbitrary: devices ds)
  case Nil
  then show ?case by simp
next
  case (Cons i infos)
  obtain h devices1 where h: "make_handle devices (devid (device_info_of_ffi i)) = (h, devices1)" by fastforce
  obtain ds1 where ds1: "enumerated_devices devices1 infos = (ds1, devices')"
    using Cons.prems(1) h by (auto simp: Let_def split: prod.splits)
  from make_handle_result [OF h] Cons.prems(2) have "dev_id_map_inv devices1" by blast
  with Cons.IH [OF ds1] show ?case .
qed

lemma process_enumeration_ok:
  assumes inv: "server_inv K S (sv st)"
  shows "step_ok K S (ContextGetDeviceEnumeration d) (sv st) (process_enumeration K C d st)"
proof (rule step_okI)
  fix resp :: "serializable_handle client_message" and st' assume out: "process_enumeration K C d st = (Ok resp, st')"
  obtain r st1 where o: "on_world (ctx_enumerate_devices C (device_type_truncate K d)) st = (r, st1)" by fastforce
  note s1 = on_world_sv [OF o]
  have dev: "dev_id_map_inv (devidmap (sv st))" using inv by (simp add: server_inv_def)
  show "server_inv K S (sv st') \<and> response_for (ContextGetDeviceEnumeration d) resp \<and> cm_sendable resp \<and>
      life_step (ContextGetDeviceEnumeration d) resp (life_of S (sv st)) (life_of S (sv st'))"
  proof (cases r)
    case (Ok infos)
    obtain ds devices where e: "enumerated_devices (devidmap (sv st)) infos = (ds, devices)" by fastforce
    with enumerated_devices_inv [OF e dev] out o Ok s1 inv show ?thesis
      by (intro same_streams_ok) (auto simp: process_enumeration_def reply_def and_then_def stream_op_token_def
          changes_streams_def response_for_def)
  next
    case (Err e)
    with out o s1 inv dev show ?thesis
      by (intro same_streams_ok) (auto simp: process_enumeration_def reply_def and_then_def stream_op_token_def
          changes_streams_def error_message_def)
  next
    case Panic
    with out o show ?thesis by (simp add: process_enumeration_def reply_def and_then_def)
  qed
qed

lemma make_pipe_pair_valid: "make_pipe_pair E w = (Ok (server, client), w') \<Longrightarrow> valid_handle client"
  by (auto simp: make_pipe_pair_def and_then_def platform_handle_new_def split: prod.splits res.splits if_splits)

lemma sendable_new:
  "valid_handle h \<Longrightarrow> cm_sendable (ContextSetupDeviceCollectionCallbackDone (RegisterMk (serializable_handle_new h pid)))"
  "valid_handle h \<Longrightarrow> cm_sendable (StreamInitialized (serializable_handle_new h pid))"
  "valid_handle h \<Longrightarrow> cm_sendable (StreamCreated (StreamCreateMk t (serializable_handle_new h pid) n))"
  by (simp_all add: cm_sendable_def serializable_handle_new_def)

lemma process_setup_ok:
  assumes inv: "server_inv K S (sv st)"
  shows "step_ok K S ContextSetupDeviceCollectionCallback (sv st) (process_setup_collection K E st)"
proof (rule step_okI)
  fix resp :: "serializable_handle client_message" and st' assume out: "process_setup_collection K E st = (Ok resp, st')"
  obtain r st1 where o: "on_world (make_pipe_pair E) st = (r, st1)" by fastforce
  have dev: "dev_id_map_inv (devidmap (sv st))" using inv by (simp add: server_inv_def)
  have side: "stream_op_token ContextSetupDeviceCollectionCallback = None"
    "\<not> changes_streams ContextSetupDeviceCollectionCallback"
    by (simp_all add: stream_op_token_def changes_streams_def)
  show "server_inv K S (sv st') \<and> response_for ContextSetupDeviceCollectionCallback resp \<and> cm_sendable resp \<and>
      life_step ContextSetupDeviceCollectionCallback resp (life_of S (sv st)) (life_of S (sv st'))"
  proof (cases r)
    case (Ok p)
    obtain server client where p: "p = (server, client)" by fastforce
    have valid: "valid_handle client"
      using o Ok p by (auto simp: on_world_def split: prod.splits dest: make_pipe_pair_valid)
    obtain r2 st2 where o2: "on_world (env_bind_collection E server) st1 = (r2, st2)" by fastforce
    note sv12 = on_world_sv [OF o] on_world_sv [OF o2]
    show ?thesis
    proof (cases r2)
      case (Ok rpc)
      with out o o2 \<open>r = Ok p\<close> p sv12 inv dev side valid show ?thesis
        by (intro same_streams_ok)
          (auto simp: process_setup_collection_def Let_def unwrap_pid_def response_for_def sendable_new
            split: prod.splits option.splits)
    next
      case (Err e)
      with out o o2 \<open>r = Ok p\<close> p sv12 inv dev side show ?thesis
        by (intro same_streams_ok) (auto simp: process_setup_collection_def error_message_def)
    next
      case Panic
      with out o o2 \<open>r = Ok p\<close> p show ?thesis by (simp add: process_setup_collection_def)
    qed
  next
    case (Err e)
    with out o on_world_sv [OF o] inv dev side show ?thesis
      by (intro same_streams_ok) (auto simp: process_setup_collection_def error_message_def)
  next
    case Panic
    with out o show ?thesis by (simp add: process_setup_collection_def)
  qed
qed

lemma process_register_ok:
  assumes inv: "server_inv K S (sv st)"
  shows "step_ok K S (ContextRegisterDeviceCollectionChanged d enable) (sv st)
     (case process_register_collection K C d' enable st of (r, st) \<Rightarrow> (unwrap_or_else (error_message K) r, st))"
proof (rule step_okI)
  fix resp :: "serializable_handle client_message" and st'
  assume out: "(case process_register_collection K C d' enable st of (r, st) \<Rightarrow> (unwrap_or_else (error_message K) r, st))
    = (Ok resp, st')"
  obtain r :: "(cubeb_error, serializable_handle client_message) res" and st1
    where p: "process_register_collection K C d' enable st = (r, st1)" by fastforce
  then have sv1: "sv st1 = sv st"
    by (auto simp: process_register_collection_def split: if_splits option.splits prod.splits)
  have r: "response_for (ContextRegisterDeviceCollectionChanged d enable) a \<and> cm_sendable a" if "r = Ok a" for a
    using p that by (auto simp: process_register_collection_def response_for_def res_simps
        split: if_splits option.splits prod.splits)
  have dev: "dev_id_map_inv (devidmap (sv st))" using inv by (simp add: server_inv_def)
  have "st' = st1" and "(\<exists>a. r = Ok a \<and> resp = a) \<or> (\<exists>e. resp = ErrorMsg e)"
    using out p unwrap_or_else_OkD [of "error_message K" r resp] by (auto simp: error_message_def)
  with sv1 inv dev r show "server_inv K S (sv st') \<and> response_for (ContextRegisterDeviceCollectionChanged d enable) resp \<and>
      cm_sendable resp \<and> life_step (ContextRegisterDeviceCollectionChanged d enable) resp (life_of S (sv st)) (life_of S (sv st'))"
    by (intro same_streams_ok) (auto simp: stream_op_token_def changes_streams_def)
qed

lemma process_promote_ok:
  assumes inv: "server_inv K S (sv st)"
  shows "step_ok K S (PromoteThreadToRealTime info) (sv st) (process_promote E info st)"
proof (rule step_okI)
  fix resp :: "serializable_handle client_message" and st' assume out: "process_promote E info st = (Ok resp, st')"
  then have "sv st' = sv st \<and> resp = ThreadPromoted"
    by (auto simp: process_promote_def on_world_def split: res.splits if_splits prod.splits)
  with inv show "server_inv K S (sv st') \<and> response_for (PromoteThreadToRealTime info) resp \<and> cm_sendable resp \<and>
      life_step (PromoteThreadToRealTime info) resp (life_of S (sv st)) (life_of S (sv st'))"
    by (intro same_streams_ok) (auto simp: server_inv_def response_for_def stream_op_token_def changes_streams_def)
qed

text \<open>Requests that change the streams.\<close>

lemma and_then_Ok: "and_then m k = (Ok b, t) \<longleftrightarrow> (\<exists>a s. m = (Ok a, s) \<and> k a s = (Ok b, t))"
  by (auto simp: and_then_def split: prod.splits res.splits)

lemma map_err_Ok [simp]: "map_err f r = Ok a \<longleftrightarrow> r = Ok a"
  by (cases r) auto

lemma io_error_of_Ok [simp]: "io_error_of m = (Ok a, s) \<longleftrightarrow> m = (Ok a, s)"
  by (auto simp: io_error_of_def split: prod.splits)

lemma shared_mem_new_inv:
  "shared_mem_new os ident n w = (Ok shm, w') \<Longrightarrow> shm_inv shm \<and> shm_size shm = n"
  by (auto simp: shared_mem_new_def split: prod.splits res.splits dest: map_shm_inv)

lemma shm_make_handle_valid: "shm_make_handle os shm w = (Ok h, w') \<Longrightarrow> valid_handle h"
  by (auto simp: shm_make_handle_def platform_handle_duplicate_def platform_handle_new_def Let_def
      split: prod.splits if_splits)

lemma create_resources_Ok:
  assumes "create_resources E ident n w = (Ok (shm, shm_fd, client_pipe, rpc), w')"
  shows "shm_inv shm" and "shm_size shm = n" and "valid_handle shm_fd" and "valid_handle client_pipe"
  using assms
  by (auto simp: create_resources_def and_then_Ok
      dest!: shared_mem_new_inv shm_make_handle_valid make_pipe_pair_valid)

lemma life_of_insert:
  "slab_contract S \<Longrightarrow> life_of S (s\<lparr>streams := sl_insert S (streams s) ss\<rparr>) =
     (life_of S s)(sl_vacant_key S (streams s) \<mapsto> if ss_stream ss = None then Uninitialized else Ready)"
  by (auto simp: life_of_def slab_laws fun_eq_iff)

lemma life_of_set:
  "slab_contract S \<Longrightarrow> sl_get S (streams s) t = Some ss0 \<Longrightarrow>
   life_of S (s\<lparr>streams := sl_set S (streams s) t ss\<rparr>) =
     (life_of S s)(t \<mapsto> if ss_stream ss = None then Uninitialized else Ready)"
  by (auto simp: life_of_def slab_laws fun_eq_iff)

lemma life_of_remove:
  "slab_contract S \<Longrightarrow> life_of S (s\<lparr>streams := sl_remove S (streams s) t\<rparr>) = (life_of S s)(t := None)"
  by (auto simp: life_of_def slab_laws fun_eq_iff)

lemma server_inv_insert:
  "server_inv K S s \<Longrightarrow> stream_ok K ss \<Longrightarrow> server_inv K S (s\<lparr>streams := sl_insert S (streams s) ss\<rparr>)"
  by (auto simp: server_inv_def slab_laws split: if_splits)

lemma server_inv_remove: "server_inv K S s \<Longrightarrow> server_inv K S (s\<lparr>streams := sl_remove S (streams s) t\<rparr>)"
  by (auto simp: server_inv_def slab_laws split: if_splits)

lemma server_inv_set:
  "server_inv K S s \<Longrightarrow> sl_get S (streams s) t = Some ss0 \<Longrightarrow> stream_ok K ss \<Longrightarrow>
   server_inv K S (s\<lparr>streams := sl_set S (streams s) t ss\<rparr>)"
  by (auto simp: server_inv_def slab_laws split: if_splits)

lemma server_inv_contract: "server_inv K S s \<Longrightarrow> slab_contract S"
  by (simp add: server_inv_def)

lemma any_error_Ok:
  assumes "any_error K m = (Ok resp, st')"
  obtains "m = (Ok resp, st')" | e err where "m = (Err e, st')" and "resp = ErrorMsg err"
  using assms by (cases m; cases "fst m") (auto simp: any_error_def error_message_def)

text \<open>What \<open>process_stream_create\<close> does when it succeeds.\<close>

lemma process_stream_create_Ok:
  assumes "process_stream_create K E S params st = (Ok resp, st')"
  obtains shm shm_fd client_pipe rpc pid where
    "validate_stream_create_params K params = Ok ()"
    and "shm_inv shm" and "valid_handle shm_fd" and "valid_handle client_pipe"
    and "shm_size shm = shm_area_size_for K (configured_shm_size (sv st)) params"
    and "remote_pid (sv st) = Some pid"
    and "resp = StreamCreated (StreamCreateMk (sl_vacant_key S (streams (sv st)))
      (serializable_handle_new shm_fd pid) (shm_area_size_for K (configured_shm_size (sv st)) params))"
    and "sv st' = (sv st)\<lparr>streams := sl_insert S (streams (sv st)) (new_stream K params shm rpc client_pipe)\<rparr>"
proof -
  obtain ident st1 where i: "take_shm_id E st = (ident, st1)" by fastforce
  then have sv1: "sv st1 = sv st" by (auto simp: take_shm_id_def split: prod.splits)
  have v: "validate_stream_create_params K params = Ok ()"
    using assms by (auto simp: process_stream_create_def and_then_Ok)
  define n where "n = shm_area_size_for K (configured_shm_size (sv st)) params"
  obtain shm shm_fd client_pipe rpc st2 where
    r: "on_world (create_resources E ident n) st1 = (Ok (shm, shm_fd, client_pipe, rpc), st2)"
    and k: "map_ok (\<lambda>pid. StreamCreated (StreamCreateMk (sl_vacant_key S (streams (sv st2))) (serializable_handle_new shm_fd pid) n))
          (unwrap_pid ((sv st2)\<lparr>streams := sl_insert S (streams (sv st2)) (new_stream K params shm rpc client_pipe)\<rparr>)
            :: (unit ipc_error, u32) res) = Ok resp"
      "st' = st2\<lparr>sv := (sv st2)\<lparr>streams := sl_insert S (streams (sv st2)) (new_stream K params shm rpc client_pipe)\<rparr>\<rparr>"
    using assms i by (auto simp: process_stream_create_def and_then_Ok n_def Let_def)
  obtain w w' where c: "create_resources E ident n w = (Ok (shm, shm_fd, client_pipe, rpc), w')"
    using r by (auto simp: on_world_def split: prod.splits)
  have sv2: "sv st2 = sv st" using on_world_sv [OF r] sv1 by simp
  obtain pid where pid: "remote_pid (sv st) = Some pid"
    using k sv2 by (auto simp: Let_def unwrap_pid_def split: option.splits)
  show thesis
    by (rule that [OF v _ _ _ _ pid])
      (use create_resources_Ok [OF c] k sv2 pid in \<open>auto simp: Let_def unwrap_pid_def n_def\<close>)
qed

lemma new_stream_ok:
  "shm_inv shm \<Longrightarrow> valid_handle h \<Longrightarrow> validate_stream_create_params K params = Ok () \<Longrightarrow>
   stream_ok K (new_stream K params shm rpc h)"
  by (simp add: stream_ok_def new_stream_def cbs_inv_def)

lemma process_stream_create_Err:
  "process_stream_create K E S params st = (Err e, st') \<Longrightarrow> sv st' = sv st"
  by (auto simp: process_stream_create_def and_then_def Let_def on_world_def take_shm_id_def
      unwrap_pid_def split: prod.splits res.splits option.splits)

lemma process_create_ok:
  assumes inv: "server_inv K S (sv st)"
  shows "step_ok K S (StreamCreate params) (sv st) (any_error K (process_stream_create K E S params st))"
proof (rule step_okI)
  fix resp :: "serializable_handle client_message" and st'
  assume out: "any_error K (process_stream_create K E S params st) = (Ok resp, st')"
  note S = server_inv_contract [OF inv]
  from out show "server_inv K S (sv st') \<and> response_for (StreamCreate params) resp \<and> cm_sendable resp \<and>
      life_step (StreamCreate params) resp (life_of S (sv st)) (life_of S (sv st'))"
  proof (cases rule: any_error_Ok)
    case 1
    then show ?thesis
    proof (cases rule: process_stream_create_Ok)
      case (1 shm shm_fd client_pipe rpc pid)
      have new: "ss_stream (new_stream K params shm rpc client_pipe) = None" by (simp add: new_stream_def)
      have "life_of S (sv st) (sl_vacant_key S (streams (sv st))) = None"
        using S by (simp add: life_of_def slab_laws)
      then have "life_step (StreamCreate params) resp (life_of S (sv st))
          ((life_of S (sv st))(sl_vacant_key S (streams (sv st)) \<mapsto> Uninitialized))"
        using 1(7) life_create [of "life_of S (sv st)" "StreamCreateMk (sl_vacant_key S (streams (sv st)))
          (serializable_handle_new shm_fd pid) (shm_area_size_for K (configured_shm_size (sv st)) params)"] by simp
      then show ?thesis
        using 1 server_inv_insert [OF inv new_stream_ok] new S
        by (auto simp: life_of_insert response_for_def sendable_new)
    qed
  next
    case (2 e err)
    with process_stream_create_Err [OF 2(1)] inv show ?thesis by (auto intro: life_refused)
  qed
qed

lemma process_destroy_ok:
  assumes inv: "server_inv K S (sv st)"
  shows "step_ok K S (StreamDestroy t) (sv st) (process_stream_msg K C E S (StreamDestroy t) st)"
proof (rule step_okI)
  fix resp :: "serializable_handle client_message" and st'
  assume out: "process_stream_msg K C E S (StreamDestroy t) st = (Ok resp, st')"
  note S = server_inv_contract [OF inv]
  show "server_inv K S (sv st') \<and> response_for (StreamDestroy t) resp \<and> cm_sendable resp \<and>
      life_step (StreamDestroy t) resp (life_of S (sv st)) (life_of S (sv st'))"
  proof (cases "sl_get S (streams (sv st)) t")
    case None
    with out inv show ?thesis by (auto simp: process_stream_msg_def error_message_def intro: life_refused)
  next
    case (Some ss)
    then have "life_of S (sv st) t \<noteq> None" by (simp add: life_of_def)
    from life_destroy [where l = "life_of S (sv st)" and t = t, OF this] Some out S server_inv_remove [OF inv] show ?thesis
      by (auto simp: process_stream_msg_def remove_stream_def life_of_remove response_for_def)
  qed
qed

text \<open>
  \<open>process_stream_init\<close> on a stream that is still uninitialized.  Its latency is defined, so the outcome is
  that of the device handles and of cubeb.
\<close>

lemma stream_okD_uninit:
  assumes "stream_ok K ss" and "ss_stream ss = None"
  obtains p h where "ss_params ss = Some p" and "ss_client_pipe ss = Some h" and "valid_handle h"
    and "validate_stream_create_params K p = Ok ()"
  using assms by (auto simp: stream_ok_def)

lemma init_stream_sv: "init_stream C u params st = (r, st') \<Longrightarrow> sv st' = sv st"
  by (auto simp: init_stream_def and_then_def on_world_def split: prod.splits res.splits)

text \<open>How one stream of the server is changed, seen through the slab's lookup.\<close>

definition changed_stream ::
  "('s, server_stream) slab \<Rightarrow> nat \<Rightarrow> server_stream option \<Rightarrow> 's cubeb_server \<Rightarrow> 's cubeb_server \<Rightarrow> bool" where
  "changed_stream S t x s s' \<longleftrightarrow> sl_get S (streams s') = (sl_get S (streams s))(t := x) \<and>
     remote_pid s' = remote_pid s \<and> devidmap s' = devidmap s"

lemma changed_stream_trans:
  "changed_stream S t x s s' \<Longrightarrow> changed_stream S t y s' s'' \<Longrightarrow> changed_stream S t y s s''"
  by (simp add: changed_stream_def)

lemma changed_stream_update:
  "slab_contract S \<Longrightarrow> sl_get S (streams (sv st)) t \<noteq> None \<Longrightarrow>
   changed_stream S t (Some ss) (sv st) (sv (update_stream S t ss st))"
  by (auto simp: changed_stream_def update_stream_def slab_laws)

lemma changed_stream_remove:
  "slab_contract S \<Longrightarrow> sl_get S (streams (sv st)) t \<noteq> None \<Longrightarrow>
   changed_stream S t None (sv st) (sv (remove_stream C E S t st))"
  by (auto simp: changed_stream_def remove_stream_def slab_laws)

lemma changed_stream_get: "changed_stream S t x s s' \<Longrightarrow> sl_get S (streams s') t = x"
  by (simp add: changed_stream_def)

lemma changed_stream_inv:
  "changed_stream S t x s s' \<Longrightarrow> server_inv K S s \<Longrightarrow> (\<And>ss. x = Some ss \<Longrightarrow> stream_ok K ss) \<Longrightarrow> server_inv K S s'"
  by (auto simp: changed_stream_def server_inv_def split: if_splits)

lemma changed_stream_life:
  "changed_stream S t x s s' \<Longrightarrow> life_of S s' =
     (life_of S s)(t := map_option (\<lambda>ss. if ss_stream ss = None then Uninitialized else Ready) x)"
  by (auto simp: changed_stream_def life_of_def fun_eq_iff)

text \<open>The initialized stream.\<close>

definition initialized :: "server_stream \<Rightarrow> nat \<Rightarrow> server_stream" where
  "initialized ss stream = ss\<lparr>ss_stream := Some stream, ss_client_pipe := None, ss_params := None,
     ss_cbs := (ss_cbs ss)\<lparr>connected := True\<rparr>\<rparr>"

lemma initialized_ok: "stream_ok K ss \<Longrightarrow> stream_ok K (initialized ss stream)"
  by (auto simp: stream_ok_def initialized_def cbs_inv_def)

lemma process_stream_init_cases:
  assumes S: "slab_contract S" and pid: "remote_pid (sv st) = Some pid"
    and ss: "sl_get S (streams (sv st)) t = Some ss" "ss_stream ss = None" "ss_params ss = Some p" "ss_client_pipe ss = Some h"
  obtains (panic) st1 where "init_stream C t p (update_stream S t (ss\<lparr>ss_params := None\<rparr>) st) = (Panic, st1)"
      and "process_stream_init K C E S t st = (Panic, st1)"
    | (failed) e st1 where "init_stream C t p (update_stream S t (ss\<lparr>ss_params := None\<rparr>) st) = (Err e, st1)"
      and "process_stream_init K C E S t st = (Err (ErrCubeb e), remove_stream C E S t st1)"
      and "changed_stream S t None (sv st) (sv (remove_stream C E S t st1))"
    | (initialized) stream st1 st' where
        "init_stream C t p (update_stream S t (ss\<lparr>ss_params := None\<rparr>) st) = (Ok stream, st1)"
      and "process_stream_init K C E S t st = (Ok (StreamInitialized (serializable_handle_new h pid)), st')"
      and "changed_stream S t (Some (initialized ss stream)) (sv st) (sv st')"
proof -
  let ?st0 = "update_stream S t (ss\<lparr>ss_params := None\<rparr>) st"
  obtain r st1 where r: "init_stream C t p ?st0 = (r, st1)" by fastforce
  have c0: "changed_stream S t (Some (ss\<lparr>ss_params := None\<rparr>)) (sv st) (sv st1)"
    using changed_stream_update [OF S, of st t] ss init_stream_sv [OF r] by simp
  note get1 = changed_stream_get [OF c0]
  show thesis
  proof (cases r)
    case Panic
    then show thesis using r ss by (intro panic) (auto simp: process_stream_init_def Let_def)
  next
    case (Err e)
    have "changed_stream S t None (sv st1) (sv (remove_stream C E S t st1))"
      using get1 by (intro changed_stream_remove [OF S]) simp
    with changed_stream_trans [OF c0] Err r ss show thesis
      by (intro failed) (auto simp: process_stream_init_def Let_def)
  next
    case (Ok stream)
    let ?st2 = "update_stream S t (ss\<lparr>ss_params := None, ss_stream := Some stream\<rparr>) st1"
    let ?st3 = "update_stream S t (initialized ss stream) ?st2"
    have c1: "changed_stream S t (Some (ss\<lparr>ss_params := None, ss_stream := Some stream\<rparr>)) (sv st1) (sv ?st2)"
      using get1 by (intro changed_stream_update [OF S]) simp
    have c2: "changed_stream S t (Some (initialized ss stream)) (sv ?st2) (sv ?st3)"
      using changed_stream_get [OF c1] by (intro changed_stream_update [OF S]) simp
    note c = changed_stream_trans [OF changed_stream_trans [OF c0 c1] c2]
    have "remote_pid (sv ?st3) = Some pid" using c pid by (simp add: changed_stream_def)
    moreover have "ss\<lparr>ss_params := None, ss_stream := Some stream, ss_client_pipe := None,
        ss_cbs := (ss_cbs ss)\<lparr>connected := True\<rparr>\<rparr> = initialized ss stream"
      by (cases ss) (simp add: initialized_def)
    ultimately have "process_stream_init K C E S t st = (Ok (StreamInitialized (serializable_handle_new h pid)), ?st3)"
      using r Ok ss by (simp add: process_stream_init_def Let_def unwrap_pid_def)
    with initialized [OF _ _ c] r Ok show thesis by blast
  qed
qed

lemma process_init_ok:
  assumes inv: "server_inv K S (sv st)"
  shows "step_ok K S (StreamInit t) (sv st) (any_error K (process_stream_init K C E S t st))"
proof (rule step_okI)
  fix resp :: "serializable_handle client_message" and st'
  assume out: "any_error K (process_stream_init K C E S t st) = (Ok resp, st')"
  let ?goal = "server_inv K S (sv st') \<and> response_for (StreamInit t) resp \<and> cm_sendable resp \<and>
      life_step (StreamInit t) resp (life_of S (sv st)) (life_of S (sv st'))"
  note S = server_inv_contract [OF inv]
  obtain pid where pid: "remote_pid (sv st) = Some pid" using inv by (auto simp: server_inv_def)
  show ?goal
  proof (cases "\<exists>ss. sl_get S (streams (sv st)) t = Some ss \<and> ss_stream ss = None")
    case False
    then have "process_stream_init K C E S t st = (Err (ErrCubeb InvalidParameter), st)"
      by (auto simp: process_stream_init_def split: option.splits)
    then show ?goal using out inv by (auto simp: any_error_def error_message_def intro: life_refused)
  next
    case True
    then obtain ss where ss: "sl_get S (streams (sv st)) t = Some ss" "ss_stream ss = None" by blast
    then have ok: "stream_ok K ss" using inv by (auto simp: server_inv_def)
    obtain p h where p: "ss_params ss = Some p" "ss_client_pipe ss = Some h" "valid_handle h"
      using stream_okD_uninit [OF ok ss(2)] by blast
    have life: "life_of S (sv st) t = Some Uninitialized" using ss by (simp add: life_of_def)
    show ?goal
    proof (cases rule: process_stream_init_cases [OF S pid ss p(1,2), of C K E, case_names panic failed initialized])
      case panic
      with out show ?goal by (simp add: any_error_def)
    next
      case (failed e st1)
      with out changed_stream_inv [OF failed(3) inv] changed_stream_life [OF failed(3)]
        life_init_failed [where l = "life_of S (sv st)" and t = t, OF life]
      show ?goal by (auto simp: any_error_def error_message_def)
    next
      case (initialized stream st1 st2)
      with out changed_stream_inv [OF initialized(3) inv] changed_stream_life [OF initialized(3)] initialized_ok [OF ok]
        life_init [where l = "life_of S (sv st)" and t = t, OF life] p(3)
      show ?goal by (auto simp: any_error_def response_for_def sendable_new initialized_def)
    qed
  qed
qed

section \<open>Every request\<close>

lemmas message_kinds = stream_op_token_def changes_streams_def

lemma process_stream_msg_ok:
  assumes inv: "server_inv K S (sv st)" and m: "stream_op_token m = Some t"
  shows "step_ok K S m (sv st) (process_stream_msg K C E S m st)"
  using m
  by (cases m) (auto simp: process_stream_msg_def stream_op_token_def response_for_def intro!: try_stream_ok [OF inv])

lemma process_msg_ok:
  assumes inv: "server_inv K S (sv st)"
  shows "step_ok K S m (sv st) (process_msg K C E S m st)"
proof (cases "stream_op_token m")
  case (Some t)
  then have "process_msg K C E S m st = process_stream_msg K C E S m st"
    by (cases m) (simp_all add: process_msg_def stream_op_token_def)
  with process_stream_msg_ok [OF inv Some] show ?thesis by simp
next
  case None
  have same: "step_ok K S m (sv st) (Ok resp, st)"
    if "\<not> changes_streams m" "response_for m resp" "cm_sendable resp" for resp
    using that None inv by (intro step_okI) (auto intro: life_other)
  show ?thesis
  proof (cases m)
    case ClientConnect
    then show ?thesis using same inv
      by (auto simp: process_msg_def changes_streams_def response_for_def server_inv_def)
  qed (use None same process_enumeration_ok [OF inv] process_create_ok [OF inv] process_init_ok [OF inv]
        process_destroy_ok [OF inv] process_setup_ok [OF inv] process_register_ok [OF inv] process_promote_ok [OF inv]
      in \<open>auto simp: process_msg_def message_kinds response_for_def intro!: reply_on_world_ok [OF inv]\<close>)
qed

lemma with_local_context_sv: "with_local_context C st = (r, st') \<Longrightarrow> sv st' = sv st"
  by (auto simp: with_local_context_def cubeb_init_from_context_params_def dest!: on_world_sv
      split: prod.splits option.splits res.splits)

lemma server_process_ok:
  assumes inv: "server_inv K S (sv st)"
  shows "step_ok K S m (sv st) (server_process K C E S m st)"
proof -
  obtain r st1 where r: "with_local_context C st = (r, st1)" by fastforce
  note s1 = with_local_context_sv [OF r]
  show ?thesis
  proof (cases r)
    case (Ok u)
    with r process_msg_ok [of K S st1 m C E] s1 inv show ?thesis by (simp add: server_process_def)
  next
    case (Err e)
    with r s1 inv show ?thesis
      by (auto simp: server_process_def step_ok_def error_message_def intro: life_refused)
  next
    case Panic
    with r show ?thesis by (simp add: server_process_def step_ok_def)
  qed
qed

lemma new_server_inv: "slab_contract S \<Longrightarrow> server_inv K S (cubeb_server_new S pid n)"
  by (simp add: server_inv_def cubeb_server_new_def slab_laws dev_id_map_inv_def dev_id_map_new_def)

end
