(* ===== verification/Threads.thy ===== *)
theory Threads
  imports Prelude
begin

text \<open>
  The threads that run event loops: \<open>EventLoopThread::new\<close> of \<open>audioipc/src/ipccore.rs\<close>, what the new thread runs,
  and the hooks of the embedder that both \<open>server/src/lib.rs\<close> and \<open>client/src/context.rs\<close> install for it.
  Creating the loop and the thread, and the drop that shuts the loop down and joins the thread (modelled in
  \<open>EventLoop\<close>), are parameters over the world \<open>'w\<close>.
\<close>

record 'w thread_ops =
  th_loop_new :: "string \<Rightarrow> 'w \<Rightarrow> (io_error, unit) res \<times> 'w"
  th_spawn :: "string \<Rightarrow> nat \<Rightarrow> 'w \<Rightarrow> (io_error, nat) res \<times> 'w"
  th_drop :: "nat \<Rightarrow> 'w \<Rightarrow> 'w"

type_synonym 'w action = "'w \<Rightarrow> (io_error, unit) res \<times> 'w"

record 'w event_loop_thread =
  elt_thread :: nat
  elt_name :: string
  elt_after_start :: "'w action"
  elt_before_stop :: "'w action"

definition DEFAULT_STACK_SIZE :: nat where
  "DEFAULT_STACK_SIZE = 64 * 4096"

definition event_loop_thread_new ::
  "'w thread_ops \<Rightarrow> string \<Rightarrow> nat option \<Rightarrow> 'w action \<Rightarrow> 'w action \<Rightarrow> 'w \<Rightarrow>
   (io_error, 'w event_loop_thread) res \<times> 'w" where
  "event_loop_thread_new T name stack_size after_start before_stop w =
     (case th_loop_new T name w of
        (Ok _, w) \<Rightarrow>
          (case th_spawn T name (case stack_size of Some n \<Rightarrow> n | None \<Rightarrow> DEFAULT_STACK_SIZE) w of
             (Ok t, w) \<Rightarrow> (Ok \<lparr>elt_thread = t, elt_name = name, elt_after_start = after_start,
                            elt_before_stop = before_stop\<rparr>, w)
           | (Err e, w) \<Rightarrow> (Err e, w) | (Panic, w) \<Rightarrow> (Panic, w))
      | (Err e, w) \<Rightarrow> (Err e, w) | (Panic, w) \<Rightarrow> (Panic, w))"

text \<open>
  What the thread runs, over the outcome of its loop: the guard runs \<open>before_stop\<close> however the loop
  ends, but exists only once \<open>after_start\<close> has returned.
\<close>

definition thread_main :: "'w event_loop_thread \<Rightarrow> 'w action \<Rightarrow> 'w action" where
  "thread_main t run w = (case elt_after_start t w of
     (Ok _, w) \<Rightarrow>
       (case run w of (r, w) \<Rightarrow> (case elt_before_stop t w of (r', w) \<Rightarrow> (if r' = Panic then Panic else r, w)))
   | (r, w) \<Rightarrow> (r, w))"

section \<open>Hooks\<close>

text \<open>
  \<open>register_thread\<close> hands the thread's name to the embedder as a C string; a thread without a name or a
  name with a zero character is a panic.
\<close>

definition register_thread :: "(string \<Rightarrow> 'w \<Rightarrow> 'w) option \<Rightarrow> string option \<Rightarrow> 'w action" where
  "register_thread callback thread_name w = (case callback of
     None \<Rightarrow> (Ok (), w)
   | Some func \<Rightarrow> (case thread_name of
        None \<Rightarrow> (Panic, w)
      | Some name \<Rightarrow> if CHR 0x00 \<in> set name then (Panic, w) else (Ok (), func name w)))"

definition unregister_thread :: "('w \<Rightarrow> 'w) option \<Rightarrow> 'w action" where
  "unregister_thread callback w = (case callback of None \<Rightarrow> (Ok (), w) | Some func \<Rightarrow> (Ok (), func w))"

lemma event_loop_thread_new_Ok:
  "event_loop_thread_new T name stack a b w = (Ok t, w') \<Longrightarrow>
   elt_name t = name \<and> elt_after_start t = a \<and> elt_before_stop t = b \<and>
   (\<exists>w1 n. th_loop_new T name w = (Ok (), w1) \<and> th_spawn T name n w1 = (Ok (elt_thread t), w'))"
  by (auto simp: event_loop_thread_new_def split: prod.splits res.splits)

lemma register_thread_Ok:
  "CHR 0x00 \<notin> set name \<Longrightarrow> register_thread create (Some name) w =
     (Ok (), case create of None \<Rightarrow> w | Some f \<Rightarrow> f name w)"
  by (simp add: register_thread_def split: option.splits)

lemma unregister_thread_Ok:
  "unregister_thread destroy w = (Ok (), case destroy of None \<Rightarrow> w | Some f \<Rightarrow> f w)"
  by (simp add: unregister_thread_def split: option.splits)

text \<open>A thread registers before its loop and unregisters after it, whatever the loop's outcome.\<close>

lemma thread_main_hooks:
  assumes "elt_after_start t = register_thread create (Some name)" and "elt_before_stop t = unregister_thread destroy"
    and "CHR 0x00 \<notin> set name"
  shows "thread_main t run w =
    (case run (case create of None \<Rightarrow> w | Some f \<Rightarrow> f name w) of (r, w) \<Rightarrow>
       (r, case destroy of None \<Rightarrow> w | Some f \<Rightarrow> f w))"
  using assms
  by (simp add: thread_main_def register_thread_Ok unregister_thread_Ok split: prod.splits)

end
