(* ===== verification/ServerLib.thy ===== *)
theory ServerLib
  imports Server Threads
begin

text \<open>
  The C entry points of the server, \<open>server/src/lib.rs\<close>: starting it with its three threads, a new client on it, and
  stopping it.  The embedder's pointers are options (null is \<open>None\<close>); the name of a C string is its bytes.
\<close>

record 'w server_wrapper =
  rpc_thread :: "'w event_loop_thread"
  callback_thread :: "'w event_loop_thread"
  device_collection_thread :: "'w event_loop_thread"

record 'w server_init_params =
  thread_create_callback :: "(string \<Rightarrow> 'w \<Rightarrow> 'w) option"
  thread_destroy_callback :: "('w \<Rightarrow> 'w) option"

text \<open>
  What the threads are made of; the hooks that raise a thread's priority and initialise the platform are
  parameters.  \<open>lib_bind_server\<close> is \<open>bind_server_async\<close> on the RPC thread.
\<close>

record ('s, 'w) lib_env =
  lib_threads :: "'w thread_ops"
  lib_platform_init :: "'w \<Rightarrow> 'w"
  lib_promote :: "'w \<Rightarrow> (unit, unit) res \<times> 'w"
  lib_bind_server :: "nat \<Rightarrow> 's cubeb_server \<Rightarrow> handle \<Rightarrow> 'w \<Rightarrow> (io_error, unit) res \<times> 'w"

definition rpc_name :: string where "rpc_name = ''AudioIPC Server RPC''"
definition callback_name :: string where "callback_name = ''AudioIPC Server Callback''"
definition device_collection_name :: string where "device_collection_name = ''AudioIPC DeviceCollection RPC''"

definition rpc_after_start :: "('s, 'w) lib_env \<Rightarrow> (string \<Rightarrow> 'w \<Rightarrow> 'w) option \<Rightarrow> 'w action" where
  "rpc_after_start L create w =
     and_then (register_thread create (Some rpc_name) w) (\<lambda>_ w. (Ok (), lib_platform_init L w))"

text \<open>A failed promotion to real-time is only logged.\<close>

definition callback_after_start :: "('s, 'w) lib_env \<Rightarrow> (string \<Rightarrow> 'w \<Rightarrow> 'w) option \<Rightarrow> 'w action" where
  "callback_after_start L create w = (case lib_promote L w of
     (Panic, w) \<Rightarrow> (Panic, w) | (_, w) \<Rightarrow> register_thread create (Some callback_name) w)"

definition drop_thread :: "('s, 'w) lib_env \<Rightarrow> 'w event_loop_thread \<Rightarrow> 'w \<Rightarrow> 'w" where
  "drop_thread L t w = th_drop (lib_threads L) (elt_thread t) w"

text \<open>The threads that were already started are dropped, the latest first, when a later one fails.\<close>

definition init_threads ::
  "('s, 'w) lib_env \<Rightarrow> (string \<Rightarrow> 'w \<Rightarrow> 'w) option \<Rightarrow> ('w \<Rightarrow> 'w) option \<Rightarrow> 'w \<Rightarrow>
   (io_error, 'w server_wrapper) res \<times> 'w" where
  "init_threads L create destroy w =
     (let new = event_loop_thread_new (lib_threads L) in
      case new rpc_name None (rpc_after_start L create) (unregister_thread destroy) w of
        (Ok rpc, w) \<Rightarrow>
          (case new callback_name None (callback_after_start L create) (unregister_thread destroy) w of
             (Ok callback, w) \<Rightarrow>
               (case new device_collection_name None (register_thread create (Some device_collection_name))
                       (unregister_thread destroy) w of
                  (Ok collection, w) \<Rightarrow>
                    (Ok \<lparr>rpc_thread = rpc, callback_thread = callback, device_collection_thread = collection\<rparr>, w)
                | (Err e, w) \<Rightarrow> (Err e, drop_thread L rpc (drop_thread L callback w))
                | (Panic, w) \<Rightarrow> (Panic, drop_thread L rpc (drop_thread L callback w)))
           | (Err e, w) \<Rightarrow> (Err e, drop_thread L rpc w)
           | (Panic, w) \<Rightarrow> (Panic, drop_thread L rpc w))
      | (Err e, w) \<Rightarrow> (Err e, w)
      | (Panic, w) \<Rightarrow> (Panic, w))"

text \<open>
  \<open>audioipc2_server_start\<close>: names that are given replace the process-wide ones; the result is the wrapper or
  null.
\<close>

definition server_start ::
  "('s, 'w) lib_env \<Rightarrow> byte list option \<Rightarrow> byte list option \<Rightarrow> 'w server_init_params option \<Rightarrow>
   context_params \<times> 'w \<Rightarrow> (unit, 'w server_wrapper option) res \<times> context_params \<times> 'w" where
  "server_start L ctx_name backend init_params pw = (case (init_params, pw) of
     (None, p, w) \<Rightarrow> (Panic, p, w)
   | (Some i, p, w) \<Rightarrow>
       let p = (case ctx_name of None \<Rightarrow> p | Some n \<Rightarrow> p\<lparr>context_name := n\<rparr>);
           p = (case backend of None \<Rightarrow> p | Some n \<Rightarrow> p\<lparr>backend_name := Some n\<rparr>)
       in (case init_threads L (thread_create_callback i) (thread_destroy_callback i) w of
             (Ok server, w) \<Rightarrow> (Ok (Some server), p, w)
           | (Err _, w) \<Rightarrow> (Ok None, p, w)
           | (Panic, w) \<Rightarrow> (Panic, p, w)))"

text \<open>\<open>audioipc2_server_new_client\<close>: the handle for the client, or the invalid handle.\<close>

definition server_new_client ::
  "('s, 'w) lib_env \<Rightarrow> 'w server_env \<Rightarrow> ('s, server_stream) slab \<Rightarrow> 'w server_wrapper \<Rightarrow> u32 \<Rightarrow> usize \<Rightarrow> 'w \<Rightarrow>
   (unit, handle) res \<times> 'w" where
  "server_new_client L E S wrapper pid n w = (case make_pipe_pair E w of
     (Panic, w) \<Rightarrow> (Panic, w)
   | (Err _, w) \<Rightarrow> (Ok INVALID_HANDLE_VALUE, w)
   | (Ok (server_pipe, client_pipe), w) \<Rightarrow>
       (case lib_bind_server L (elt_thread (rpc_thread wrapper)) (cubeb_server_new S pid n) server_pipe w of
          (Panic, w) \<Rightarrow> (Panic, w)
        | (Err _, w) \<Rightarrow> (Ok INVALID_HANDLE_VALUE, w)
        | (Ok _, w) \<Rightarrow> (Ok client_pipe, w)))"

text \<open>\<open>audioipc2_server_stop\<close> drops the wrapper's fields in order.\<close>

definition server_stop :: "('s, 'w) lib_env \<Rightarrow> 'w server_wrapper \<Rightarrow> 'w \<Rightarrow> 'w" where
  "server_stop L wrapper w =
     drop_thread L (device_collection_thread wrapper)
       (drop_thread L (callback_thread wrapper) (drop_thread L (rpc_thread wrapper) w))"

section \<open>No thread is left behind\<close>

text \<open>
  \<open>alive w\<close>: the threads that run.  A spawned thread is new and runs, a failed call starts none, and dropping a
  thread stops it alone.
\<close>

definition threads_contract :: "'w thread_ops \<Rightarrow> ('w \<Rightarrow> nat set) \<Rightarrow> bool" where
  "threads_contract T alive \<longleftrightarrow>
     (\<forall>name w. fst (th_loop_new T name w) \<noteq> Panic \<and> alive (snd (th_loop_new T name w)) = alive w) \<and>
     (\<forall>name n w. case th_spawn T name n w of
        (Ok t, w') \<Rightarrow> t \<notin> alive w \<and> alive w' = insert t (alive w)
      | (Err e, w') \<Rightarrow> alive w' = alive w
      | (Panic, w') \<Rightarrow> False) \<and>
     (\<forall>t w. alive (th_drop T t w) = alive w - {t})"

lemma threads_dropD: "threads_contract T alive \<Longrightarrow> alive (th_drop T t w) = alive w - {t}"
  by (simp add: threads_contract_def)

lemma new_thread_cases:
  assumes T: "threads_contract T alive"
  obtains (started) t w' where "event_loop_thread_new T name stack a b w = (Ok t, w')"
      and "elt_thread t \<notin> alive w" and "alive w' = insert (elt_thread t) (alive w)"
      and "elt_name t = name" and "elt_after_start t = a" and "elt_before_stop t = b"
    | (failed) e w' where "event_loop_thread_new T name stack a b w = (Err e, w')" and "alive w' = alive w"
proof -
  let ?n = "case stack of Some n \<Rightarrow> n | None \<Rightarrow> DEFAULT_STACK_SIZE"
  obtain r w1 where l: "th_loop_new T name w = (r, w1)" by fastforce
  have "fst (th_loop_new T name w) \<noteq> Panic \<and> alive (snd (th_loop_new T name w)) = alive w"
    using T unfolding threads_contract_def by blast
  with l have l1: "r \<noteq> Panic" "alive w1 = alive w" by simp_all
  obtain q w2 where s: "th_spawn T name ?n w1 = (q, w2)" by fastforce
  have s1: "case q of Ok t \<Rightarrow> t \<notin> alive w1 \<and> alive w2 = insert t (alive w1) | Err e \<Rightarrow> alive w2 = alive w1 | Panic \<Rightarrow> False"
  proof -
    from T have "case th_spawn T name ?n w1 of (Ok t, w') \<Rightarrow> t \<notin> alive w1 \<and> alive w' = insert t (alive w1)
      | (Err e, w') \<Rightarrow> alive w' = alive w1 | (Panic, w') \<Rightarrow> False"
      unfolding threads_contract_def by (elim conjE allE)
    with s show ?thesis by (cases q) simp_all
  qed
  show thesis
  proof (cases r)
    case (Ok u)
    show thesis
    proof (cases q)
      case (Ok t)
      with \<open>r = Ok u\<close> l s s1 l1 show thesis 
        by (intro started [of "\<lparr>elt_thread = t, elt_name = name, elt_after_start = a, elt_before_stop = b\<rparr>" w2])
          (simp_all add: event_loop_thread_new_def)
    next
      case (Err e)
      with \<open>r = Ok u\<close> l s s1 l1 show thesis by (intro failed [of e w2]) (simp_all add: event_loop_thread_new_def)
    qed (use s1 in simp)
  next
    case (Err e)
    with l l1 show thesis by (intro failed [of e w1]) (simp_all add: event_loop_thread_new_def)
  qed (use l1 in simp)
qed

text \<open>The three threads of a wrapper.\<close>

definition wrapper_threads :: "'w server_wrapper \<Rightarrow> nat list" where
  "wrapper_threads s = map elt_thread [rpc_thread s, callback_thread s, device_collection_thread s]"

lemma init_threads_cases:
  assumes T: "threads_contract (lib_threads L) alive"
  obtains (started) s w' where "init_threads L create destroy w = (Ok s, w')"
      and "distinct (wrapper_threads s)" and "set (wrapper_threads s) \<inter> alive w = {}"
      and "alive w' = set (wrapper_threads s) \<union> alive w"
      and "elt_after_start (rpc_thread s) = rpc_after_start L create"
      and "elt_after_start (callback_thread s) = callback_after_start L create"
      and "elt_after_start (device_collection_thread s) = register_thread create (Some device_collection_name)"
      and "\<forall>t \<in> {rpc_thread s, callback_thread s, device_collection_thread s}. elt_before_stop t = unregister_thread destroy"
    | (failed) e w' where "init_threads L create destroy w = (Err e, w')" and "alive w' = alive w"
proof (cases rule: new_thread_cases [OF T, of rpc_name None "rpc_after_start L create" "unregister_thread destroy" w,
      case_names rpc norpc])
  case (norpc e w1)
  then show thesis by (intro failed [of e w1]) (simp_all add: init_threads_def Let_def)
next
  case (rpc t1 w1)
  show thesis
  proof (cases rule: new_thread_cases [OF T, of callback_name None "callback_after_start L create" "unregister_thread destroy" w1,
        case_names callback nocallback])
    case (nocallback e w2)
    with rpc show thesis
      by (intro failed [of e "drop_thread L t1 w2"]) (simp_all add: init_threads_def Let_def drop_thread_def threads_dropD [OF T])
  next
    case (callback t2 w2)
    show thesis
    proof (cases rule: new_thread_cases [OF T, of device_collection_name None
          "register_thread create (Some device_collection_name)" "unregister_thread destroy" w2, case_names dc nodc])
      case (nodc e w3)
      with rpc callback show thesis
        by (intro failed [of e "drop_thread L t1 (drop_thread L t2 w3)"]) (auto simp: init_threads_def Let_def drop_thread_def threads_dropD [OF T])
    next
      case (dc t3 w3)
      show thesis
        by (rule started [of "\<lparr>rpc_thread = t1, callback_thread = t2, device_collection_thread = t3\<rparr>" w3])
          (use rpc callback dc in \<open>auto simp: init_threads_def Let_def wrapper_threads_def\<close>)
    qed
  qed
qed


text \<open>A system that runs at most \<open>n\<close> threads: the world is the list of them.\<close>

definition counted_threads :: "nat \<Rightarrow> nat list thread_ops" where
  "counted_threads n = \<lparr>
     th_loop_new = (\<lambda>_ w. (Ok (), w)),
     th_spawn = (\<lambda>_ _ w. if length w < n then (Ok (Suc (sum_list w)), Suc (sum_list w) # w)
       else (Err (io_other []), w)),
     th_drop = (\<lambda>t w. removeAll t w) \<rparr>"

definition demo_lib :: "nat \<Rightarrow> ((nat \<times> server_stream) list, nat list) lib_env" where
  "demo_lib n = \<lparr>lib_threads = counted_threads n, lib_platform_init = (\<lambda>w. w), lib_promote = (\<lambda>w. (Err (), w)),
     lib_bind_server = (\<lambda>_ _ _ w. (Ok (), w))\<rparr>"

lemma counted_threads_contract: "threads_contract (counted_threads n) set"
proof -
  have "Suc (sum_list w) \<notin> set w" for w :: "nat list"
    using member_le_sum_list [of "Suc (sum_list w)" w] by auto
  then show ?thesis by (auto simp: threads_contract_def counted_threads_def)
qed


end
