(* ===== verification/ClientCallbacks.thy ===== *)
theory ClientCallbacks
  imports Shm
begin

text \<open>
  The client's side of a stream's callbacks: \<open>CallbackServer\<close> of \<open>client/src/stream.rs\<close>, which runs the
  application's callbacks on the client's callback thread, and the guard of \<open>client/src/lib.rs\<close> that
  tells whether a callback is running on the thread.

  The application's C callbacks are parameters over a state \<open>'w\<close> of the application: the data callback
  gets the frames behind its input pointer and the bytes behind its output pointer (no bytes for a null
  pointer) and returns its result with the bytes it leaves in the output.
\<close>

section \<open>The callback guard\<close>

record 'w client_thread =
  in_callback :: bool
  app :: 'w

definition set_in_callback :: "bool \<Rightarrow> 'w client_thread \<Rightarrow> ('e, unit) res \<times> 'w client_thread" where
  "set_in_callback b t =
     (if in_callback t \<noteq> (\<not> b) then (Panic, t) else (Ok (), t\<lparr>in_callback := b\<rparr>))"

definition run_in_callback ::
  "('s \<times> 'w client_thread \<Rightarrow> ('e, 'r) res \<times> 's \<times> 'w client_thread) \<Rightarrow> 's \<times> 'w client_thread \<Rightarrow>
   ('e, 'r) res \<times> 's \<times> 'w client_thread" where
  "run_in_callback f st = (case st of (s, t) \<Rightarrow>
     (case set_in_callback True t :: ('e, unit) res \<times> 'w client_thread of
        (Ok _, t) \<Rightarrow>
          (case f (s, t) of (r, s, t) \<Rightarrow>
             if r = Panic then (Panic, s, t)
             else (case set_in_callback False t :: ('e, unit) res \<times> 'w client_thread of
                (Ok _, t) \<Rightarrow> (r, s, t) | (_, t) \<Rightarrow> (Panic, s, t)))
      | (_, t) \<Rightarrow> (Panic, s, t)))"

definition assert_not_in_callback :: "'w client_thread \<Rightarrow> ('e, unit) res" where
  "assert_not_in_callback t = (if in_callback t then Panic else Ok ())"

section \<open>CallbackServer\<close>

record 'w app_callbacks =
  data_cb :: "(byte list option \<Rightarrow> byte list option \<Rightarrow> usize \<Rightarrow> 'w \<Rightarrow> isize \<times> byte list \<times> 'w) option"
  state_cb :: "(u32 \<Rightarrow> 'w \<Rightarrow> 'w) option"

text \<open>
  The shared callback of device changes is a cell that the stream's owner writes; \<open>duplex_input\<close> is the
  memory of the vector, as long as its capacity.
\<close>

record 'w callback_server =
  cs_shm :: shared_mem
  input_frame_size :: "usize option"
  output_frame_size :: "usize option"
  duplex_input :: "byte list option"
  device_change_cb :: "('w \<Rightarrow> 'w) option"

definition or_zero :: "usize option \<Rightarrow> usize" where
  "or_zero n = (case n of None \<Rightarrow> 0 | Some n \<Rightarrow> n)"

definition checked_bytes :: "usize \<Rightarrow> usize option \<Rightarrow> usize \<Rightarrow> usize option" where
  "checked_bytes nframes frame_size shm_sz = (case checked_mul nframes (or_zero frame_size) of
     Some n \<Rightarrow> if n \<le> shm_sz then Some n else None | None \<Rightarrow> None)"

text \<open>The copy of the input of a duplex stream.\<close>

definition copy_duplex :: "'w callback_server \<Rightarrow> usize \<Rightarrow> ('e, 'w callback_server) res" where
  "copy_duplex cs input_nbytes = (case duplex_input cs of
     None \<Rightarrow> Ok cs
   | Some buf \<Rightarrow>
       if input_nbytes = 0 \<or> length buf < unat input_nbytes then Panic
       else (case get_slice (cs_shm cs) input_nbytes :: (unit ipc_error, byte list) res of
          Ok bs \<Rightarrow> Ok (cs\<lparr>duplex_input := Some (bs @ drop (length bs) buf)\<rparr>)
        | _ \<Rightarrow> Panic))"

definition input_ptr :: "'w callback_server \<Rightarrow> usize \<Rightarrow> ('e, byte list option) res" where
  "input_ptr cs input_nbytes =
     (if input_frame_size cs = None then Ok None
      else case duplex_input cs of
        Some buf \<Rightarrow> Ok (Some (take (unat input_nbytes) buf))
      | None \<Rightarrow> (case get_slice (cs_shm cs) input_nbytes :: (unit ipc_error, byte list) res of
            Ok bs \<Rightarrow> Ok (Some bs) | _ \<Rightarrow> Panic))"

definition output_ptr :: "'w callback_server \<Rightarrow> usize \<Rightarrow> ('e, byte list option) res" where
  "output_ptr cs output_nbytes =
     (if output_frame_size cs = None then Ok None
      else case get_slice (cs_shm cs) output_nbytes :: (unit ipc_error, byte list) res of
        Ok bs \<Rightarrow> Ok (Some bs) | _ \<Rightarrow> Panic)"

text \<open>The call of the application's data callback, which writes through the output pointer.\<close>

definition call_data_cb ::
  "'w app_callbacks \<Rightarrow> usize \<Rightarrow> usize \<Rightarrow> usize \<Rightarrow> 'w callback_server \<times> 'w client_thread \<Rightarrow>
   ('e, callback_resp) res \<times> 'w callback_server \<times> 'w client_thread" where
  "call_data_cb A input_nbytes output_nbytes nframes st = (case st of (cs, t) \<Rightarrow>
     (case (input_ptr cs input_nbytes :: (unit, byte list option) res,
            output_ptr cs output_nbytes :: (unit, byte list option) res, data_cb A) of
        (Ok inp, Ok outp, Some cb) \<Rightarrow>
          (case cb inp outp nframes (app t) of (r, written, w) \<Rightarrow>
             let t = t\<lparr>app := w\<rparr> in
             if outp = None then (Ok (RespData r), cs, t)
             else (case get_mut_slice_copy (cs_shm cs) output_nbytes written :: (unit ipc_error, shared_mem) res of
                Ok shm \<Rightarrow> (Ok (RespData r), cs\<lparr>cs_shm := shm\<rparr>, t)
              | _ \<Rightarrow> (Panic, cs, t)))
      | _ \<Rightarrow> (Panic, cs, t)))"

definition callback_data ::
  "cubeb_abi \<Rightarrow> 'w app_callbacks \<Rightarrow> isize \<Rightarrow> 'w callback_server \<times> 'w client_thread \<Rightarrow>
   (io_error, callback_resp) res \<times> 'w callback_server \<times> 'w client_thread" where
  "callback_data K A nframes st = (case st of (cs, t) \<Rightarrow>
     let err = (Ok (RespError (CUBEB_ERROR K)), cs, t) in
     (case usize_of_isize nframes of
        None \<Rightarrow> err
      | Some n \<Rightarrow>
          (case checked_bytes n (input_frame_size cs) (get_size (cs_shm cs)) of
             None \<Rightarrow> err
           | Some input_nbytes \<Rightarrow>
               (case checked_bytes n (output_frame_size cs) (get_size (cs_shm cs)) of
                  None \<Rightarrow> err
                | Some output_nbytes \<Rightarrow>
                    (case copy_duplex cs input_nbytes :: (unit, 'w callback_server) res of
                       Ok cs \<Rightarrow> run_in_callback (call_data_cb A input_nbytes output_nbytes n) (cs, t)
                     | _ \<Rightarrow> (Panic, cs, t))))))"

definition callback_state ::
  "'w app_callbacks \<Rightarrow> u32 \<Rightarrow> 'w callback_server \<times> 'w client_thread \<Rightarrow>
   (io_error, callback_resp) res \<times> 'w callback_server \<times> 'w client_thread" where
  "callback_state A s st = run_in_callback (\<lambda>(cs, t). case state_cb A of
       None \<Rightarrow> (Panic, cs, t)
     | Some cb \<Rightarrow> (Ok RespState, cs, t\<lparr>app := cb s (app t)\<rparr>)) st"

definition callback_device_change ::
  "'w callback_server \<times> 'w client_thread \<Rightarrow>
   (io_error, callback_resp) res \<times> 'w callback_server \<times> 'w client_thread" where
  "callback_device_change st = run_in_callback (\<lambda>(cs, t). case device_change_cb cs of
       None \<Rightarrow> (Ok RespDeviceChange, cs, t)
     | Some cb \<Rightarrow> (Ok RespDeviceChange, cs, t\<lparr>app := cb (app t)\<rparr>)) st"

definition callback_process ::
  "cubeb_abi \<Rightarrow> 'w app_callbacks \<Rightarrow> callback_req \<Rightarrow> 'w callback_server \<times> 'w client_thread \<Rightarrow>
   (io_error, callback_resp) res \<times> 'w callback_server \<times> 'w client_thread" where
  "callback_process K A req st = (case req of
     ReqData nframes \<Rightarrow> callback_data K A nframes st
   | ReqState s \<Rightarrow> callback_state A s st
   | ReqDeviceChange \<Rightarrow> callback_device_change st)"

section \<open>Invariant\<close>

text \<open>
  The invariant: the mapping is as long as it says; a duplex stream has both frame sizes, none of them
  zero for the input, and room for the whole shared memory.
\<close>

definition callback_server_inv :: "'w callback_server \<Rightarrow> bool" where
  "callback_server_inv cs \<longleftrightarrow> shm_inv (cs_shm cs) \<and>
     (case duplex_input cs of
        None \<Rightarrow> True
      | Some buf \<Rightarrow> input_frame_size cs \<notin> {None, Some 0} \<and> output_frame_size cs \<noteq> None \<and>
          unat (shm_size (cs_shm cs)) \<le> length buf)"

definition app_contract :: "'w app_callbacks \<Rightarrow> bool" where
  "app_contract A \<longleftrightarrow> state_cb A \<noteq> None \<and> (case data_cb A of
     None \<Rightarrow> False
   | Some cb \<Rightarrow> \<forall>inp out n w. case cb inp (Some out) n w of (_, written, _) \<Rightarrow> length written = length out)"

lemma checked_bytes_Some:
  "checked_bytes n fs sz = Some b \<longleftrightarrow> unat n * unat (or_zero fs) \<le> unat sz \<and> b = n * or_zero fs"
proof -
  have "unat n * unat (or_zero fs) \<le> unat sz \<Longrightarrow> unat n * unat (or_zero fs) < 2 ^ 64"
    using unat_lt_2p [of sz] by simp
  then show ?thesis
    by (auto simp: checked_bytes_def checked_mul_def word_le_nat_alt unat_mult_small split: if_splits)
qed

lemma unat_checked_bytes:
  "unat n * unat (or_zero fs) \<le> unat (sz :: usize) \<Longrightarrow> unat (n * or_zero fs) = unat n * unat (or_zero fs)"
  using unat_lt_2p [of sz] by (intro unat_mult_small) simp

lemma get_slice_whole:
  "shm_inv s \<Longrightarrow> unat n \<le> unat (shm_size s) \<Longrightarrow> get_slice s n = Ok (take (unat n) (shm_bytes s))"
  by (simp add: get_slice_def word_le_nat_alt)

lemma run_in_callback_Ok:
  assumes "\<not> in_callback t" and "f (s, t\<lparr>in_callback := True\<rparr>) = (Ok r, s', t')" and "in_callback t'"
  shows "run_in_callback f (s, t) = (Ok r, s', t'\<lparr>in_callback := False\<rparr>)"
  using assms by (simp add: run_in_callback_def set_in_callback_def)

text \<open>The copy of a duplex stream's input, and the pointers after it.\<close>

lemma copy_duplex_ok:
  assumes inv: "callback_server_inv cs" and le: "unat nb \<le> unat (shm_size (cs_shm cs))"
    and nz: "duplex_input cs \<noteq> None \<Longrightarrow> nb \<noteq> 0"
  obtains cs' where "copy_duplex cs nb = Ok cs'" and "callback_server_inv cs'" and "cs_shm cs' = cs_shm cs"
    and "input_frame_size cs' = input_frame_size cs" and "output_frame_size cs' = output_frame_size cs"
    and "device_change_cb cs' = device_change_cb cs" and "duplex_input cs' = None \<longleftrightarrow> duplex_input cs = None"
    and "(input_ptr cs' nb :: ('e, byte list option) res) =
      Ok (if input_frame_size cs = None then None else Some (take (unat nb) (shm_bytes (cs_shm cs))))"
proof (cases "duplex_input cs")
  case None
  with inv le show thesis
    by (intro that [of cs]) (auto simp: copy_duplex_def input_ptr_def callback_server_inv_def get_slice_whole)
next
  case (Some buf)
  let ?bs = "take (unat nb) (shm_bytes (cs_shm cs))"
  have s: "shm_inv (cs_shm cs)" and buf: "unat (shm_size (cs_shm cs)) \<le> length buf"
    using inv Some by (auto simp: callback_server_inv_def)
  have len: "length ?bs = unat nb" using s le by (simp add: shm_inv_def)
  have c: "copy_duplex cs nb = Ok (cs\<lparr>duplex_input := Some (?bs @ drop (length ?bs) buf)\<rparr>)"
    using Some nz s le buf by (simp add: copy_duplex_def get_slice_whole)
  show thesis
    by (rule that [OF c]) (use inv Some len buf le in \<open>auto simp: callback_server_inv_def input_ptr_def\<close>)
qed

lemma output_ptr_ok:
  "shm_inv (cs_shm cs) \<Longrightarrow> unat nb \<le> unat (shm_size (cs_shm cs)) \<Longrightarrow>
   output_ptr cs nb = Ok (if output_frame_size cs = None then None else Some (take (unat nb) (shm_bytes (cs_shm cs))))"
  by (simp add: output_ptr_def get_slice_whole)

text \<open>What a request to the data callback does when its frames fit the shared memory.\<close>

lemma callback_data_run:
  fixes cs :: "'w callback_server" and nframes :: isize
  defines "inb \<equiv> unat nframes * unat (or_zero (input_frame_size cs))"
    and "outb \<equiv> unat nframes * unat (or_zero (output_frame_size cs))"
  assumes inv: "callback_server_inv cs" and idle: "\<not> in_callback t" and n: "0 \<le> sint nframes"
    and fit: "inb \<le> unat (shm_size (cs_shm cs))" "outb \<le> unat (shm_size (cs_shm cs))"
    and nz: "duplex_input cs \<noteq> None \<Longrightarrow> nframes \<noteq> 0"
    and cb: "data_cb A = Some cb" "app_contract A"
    and run: "cb (if input_frame_size cs = None then None else Some (take inb (shm_bytes (cs_shm cs))))
      (if output_frame_size cs = None then None else Some (take outb (shm_bytes (cs_shm cs)))) nframes (app t)
      = (r, written, w)"
  shows "\<exists>cs'. callback_data K A nframes (cs, t) = (Ok (RespData r), cs', t\<lparr>app := w\<rparr>) \<and>
     callback_server_inv cs' \<and> input_frame_size cs' = input_frame_size cs \<and>
     output_frame_size cs' = output_frame_size cs \<and> (duplex_input cs' = None \<longleftrightarrow> duplex_input cs = None) \<and>
     cs_shm cs' = (cs_shm cs)\<lparr>shm_bytes :=
       if output_frame_size cs = None then shm_bytes (cs_shm cs) else written @ drop outb (shm_bytes (cs_shm cs))\<rparr>"
proof -
  let ?in = "nframes * or_zero (input_frame_size cs)" and ?out = "nframes * or_zero (output_frame_size cs)"
  have un: "unat ?in = inb" "unat ?out = outb"
    using fit by (auto simp: inb_def outb_def intro: unat_checked_bytes)
  have pos: "?in \<noteq> 0" if "duplex_input cs \<noteq> None"
  proof -
    from that inv nz have "inb \<noteq> 0"
      by (auto simp: callback_server_inv_def inb_def or_zero_def unat_eq_0)
    with un show ?thesis by (auto simp: unat_eq_0)
  qed
  obtain cs1 where cs1: "copy_duplex cs ?in = (Ok cs1 :: (unit, 'w callback_server) res)" "callback_server_inv cs1" "cs_shm cs1 = cs_shm cs"
    "input_frame_size cs1 = input_frame_size cs" "output_frame_size cs1 = output_frame_size cs"
    "duplex_input cs1 = None \<longleftrightarrow> duplex_input cs = None"
    "(input_ptr cs1 ?in :: (unit, byte list option) res) =
      Ok (if input_frame_size cs = None then None else Some (take inb (shm_bytes (cs_shm cs))))"
    using copy_duplex_ok [OF inv, of ?in] fit(1) un(1) pos by metis
  have shm: "shm_inv (cs_shm cs)" using inv by (simp add: callback_server_inv_def)
  then have o: "(output_ptr cs1 ?out :: (unit, byte list option) res) =
      Ok (if output_frame_size cs = None then None else Some (take outb (shm_bytes (cs_shm cs))))"
    unfolding un(2) [symmetric] cs1(3,5) [symmetric]
    by (intro output_ptr_ok) (use cs1(3,5) fit un in simp_all)
  have written: "length written = outb" if "output_frame_size cs \<noteq> None"
    using that cb run fit shm by (fastforce simp: app_contract_def shm_inv_def split: prod.splits)
  let ?cs2 = "cs1\<lparr>cs_shm := (cs_shm cs)\<lparr>shm_bytes :=
       if output_frame_size cs = None then shm_bytes (cs_shm cs) else written @ drop outb (shm_bytes (cs_shm cs))\<rparr>\<rparr>"
  have "call_data_cb A ?in ?out nframes (cs1, t\<lparr>in_callback := True\<rparr>) =
      (Ok (RespData r), ?cs2, t\<lparr>in_callback := True, app := w\<rparr>)"
    using cs1 o cb run written fit un shm
    by (auto simp: call_data_cb_def get_mut_slice_copy_def word_le_nat_alt Let_def)
  then have "run_in_callback (call_data_cb A ?in ?out nframes) (cs1, t) = (Ok (RespData r), ?cs2, t\<lparr>app := w\<rparr>)"
    using idle by (subst run_in_callback_Ok) auto
  moreover have "checked_bytes nframes (input_frame_size cs) (get_size (cs_shm cs)) = Some ?in"
    "checked_bytes nframes (output_frame_size cs) (get_size (cs_shm cs)) = Some ?out"
    using fit by (simp_all add: checked_bytes_Some get_size_def inb_def outb_def)
  ultimately have "callback_data K A nframes (cs, t) = (Ok (RespData r), ?cs2, t\<lparr>app := w\<rparr>)"
    using n cs1(1) unfolding callback_data_def usize_of_isize_def Let_def by simp
  moreover have "callback_server_inv ?cs2"
    using cs1 written shm fit by (auto simp: callback_server_inv_def shm_inv_def split: option.splits)
  ultimately show ?thesis using cs1 by auto
qed

text \<open>And when they do not: an error, with nothing changed.\<close>

definition frames_fit :: "'w callback_server \<Rightarrow> isize \<Rightarrow> bool" where
  "frames_fit cs nframes \<longleftrightarrow> 0 \<le> sint nframes \<and>
     unat nframes * unat (or_zero (input_frame_size cs)) \<le> unat (shm_size (cs_shm cs)) \<and>
     unat nframes * unat (or_zero (output_frame_size cs)) \<le> unat (shm_size (cs_shm cs))"

lemma callback_data_error:
  assumes "\<not> frames_fit cs nframes"
  shows "callback_data K A nframes (cs, t) = (Ok (RespError (CUBEB_ERROR K)), cs, t)"
proof (cases "0 \<le> sint nframes")
  case False
  then show ?thesis by (simp add: callback_data_def usize_of_isize_def)
next
  case True
  with assms have "checked_bytes nframes (input_frame_size cs) (get_size (cs_shm cs)) = None \<or>
      checked_bytes nframes (output_frame_size cs) (get_size (cs_shm cs)) = None"
    by (auto simp: frames_fit_def get_size_def checked_bytes_Some simp flip: not_Some_eq)
  with True show ?thesis
    by (auto simp: callback_data_def usize_of_isize_def Let_def split: option.splits)
qed

text \<open>A duplex stream does not survive a request for no frames; the server does not send one.\<close>

lemma duplex_no_frames_panics:
  assumes "duplex_input cs = Some buf"
  shows "fst (callback_process K A (ReqData 0) (cs, t)) = Panic"
proof -
  have "checked_bytes 0 fs n = Some 0" for fs n by (simp add: checked_bytes_def checked_mul_def)
  with assms show ?thesis
    by (simp add: callback_process_def callback_data_def usize_of_isize_def copy_duplex_def)
qed

text \<open>
  C25: the client's callback server answers every request with the response of its kind, or refuses the
  data request whose frames do not fit its shared memory, with nothing changed; it never panics and never
  reads or writes outside the memory, keeps its invariant and leaves no callback marked as running.  The
  one exception is a request for no frames on a duplex stream.
\<close>

theorem callback_process_total:
  assumes inv: "callback_server_inv cs" and A: "app_contract A" and idle: "\<not> in_callback t"
    and nz: "duplex_input cs \<noteq> None \<Longrightarrow> req \<noteq> ReqData 0"
  shows "\<exists>resp cs' t'. callback_process K A req (cs, t) = (Ok resp, cs', t') \<and>
     callback_server_inv cs' \<and> \<not> in_callback t' \<and> shm_size (cs_shm cs') = shm_size (cs_shm cs) \<and>
     (case req of
        ReqData n \<Rightarrow> if frames_fit cs n then \<exists>r. resp = RespData r
                     else resp = RespError (CUBEB_ERROR K) \<and> cs' = cs \<and> t' = t
      | ReqState _ \<Rightarrow> resp = RespState \<and> cs' = cs
      | ReqDeviceChange \<Rightarrow> resp = RespDeviceChange \<and> cs' = cs)"
proof (cases req)
  case (ReqData n)
  show ?thesis
  proof (cases "frames_fit cs n")
    case True
    obtain cb where cb: "data_cb A = Some cb" using A by (auto simp: app_contract_def split: option.splits)
    obtain r written w where "cb (if input_frame_size cs = None then None
          else Some (take (unat n * unat (or_zero (input_frame_size cs))) (shm_bytes (cs_shm cs))))
      (if output_frame_size cs = None then None
          else Some (take (unat n * unat (or_zero (output_frame_size cs))) (shm_bytes (cs_shm cs)))) n (app t)
      = (r, written, w)" by (metis prod.exhaust)
    from callback_data_run [OF inv idle _ _ _ _ cb A this, of K] True nz ReqData
    show ?thesis using idle by (auto simp: frames_fit_def callback_process_def)
  next
    case False
    with callback_data_error [OF False, of K A t] ReqData inv idle show ?thesis
      by (simp add: callback_process_def)
  qed
next
  case (ReqState s)
  obtain cb where "state_cb A = Some cb" using A by (auto simp: app_contract_def)
  then have "callback_process K A req (cs, t) = (Ok RespState, cs, t\<lparr>app := cb s (app t)\<rparr>)"
    using idle ReqState by (simp add: callback_process_def callback_state_def) (subst run_in_callback_Ok, auto)
  with ReqState inv idle show ?thesis by simp
next
  case ReqDeviceChange
  then have "callback_process K A req (cs, t) = (Ok RespDeviceChange, cs,
      t\<lparr>app := (case device_change_cb cs of None \<Rightarrow> app t | Some cb \<Rightarrow> cb (app t))\<rparr>)"
    using idle by (cases t; cases "device_change_cb cs")
      (simp_all add: callback_process_def callback_device_change_def run_in_callback_def set_in_callback_def)
  with ReqDeviceChange inv idle show ?thesis by auto
qed

text \<open>An application that plays a constant, and its duplex stream.\<close>

definition demo_app :: "nat app_callbacks" where
  "demo_app = \<lparr>data_cb = Some (\<lambda>inp out n w. (n, replicate (case out of None \<Rightarrow> 0 | Some mem \<Rightarrow> length mem) 9, w + 1)),
     state_cb = Some (\<lambda>s w. w + 1)\<rparr>"

definition demo_callback_server :: "nat callback_server" where
  "demo_callback_server = \<lparr>cs_shm = \<lparr>shm_file = 6, shm_size = 4, shm_bytes = [1, 2, 3, 4]\<rparr>,
     input_frame_size = Some 2, output_frame_size = Some 2, duplex_input = Some [0, 0, 0, 0],
     device_change_cb = None\<rparr>"

lemma demo_app_contract: "app_contract demo_app"
  by (simp add: app_contract_def demo_app_def)

lemma demo_callback_server_inv: "callback_server_inv demo_callback_server"
  by (simp add: callback_server_inv_def demo_callback_server_def shm_inv_def)

theorem callback_process_total_witness:
  "\<exists>cs' t'. callback_process cubeb_h demo_app (ReqData 3) (demo_callback_server, \<lparr>in_callback = False, app = 0\<rparr>)
      = (Ok (RespError (-1)), cs', t') \<and> callback_server_inv cs' \<and> \<not> in_callback t'"
proof -
  have "\<not> frames_fit demo_callback_server 3"
    by (simp add: frames_fit_def demo_callback_server_def or_zero_def)
  with callback_process_total [OF demo_callback_server_inv demo_app_contract,
      of "\<lparr>in_callback = False, app = 0\<rparr>" "ReqData 3" cubeb_h]
  show ?thesis by (auto simp: cubeb_h_def)
qed

end
