(* ===== verification/Client.thy ===== *)
theory Client
  imports ClientCallbacks Threads
begin

text \<open>
  The client's cubeb backend: the macro \<open>send_recv!\<close> (\<open>client/src/send_recv.rs\<close>) and the operations of a stream
  (\<open>client/src/stream.rs\<close>).  \<open>'w\<close> is the world outside the client, \<open>'a\<close> the application's state.  A call on the
  context's proxy (\<open>Proxy::call\<close>, modelled in \<open>Rpccore\<close>) is seen from the thread that waits for it: it maps the world
  to the outcome and the world after it.

  A bound callback server lives at the address of the cell that it shares with its stream, in which the stream
  registers the callback of device changes.
\<close>

section \<open>State\<close>

record 'w client_env =
  ce_call :: "server_message \<Rightarrow> 'w \<Rightarrow> (io_error, serializable_handle client_message) res \<times> 'w"
  ce_os :: "'w shm_os"
  ce_reserve :: "usize \<Rightarrow> 'w \<Rightarrow> byte list option \<times> 'w"
  ce_new_arc :: "'w \<Rightarrow> nat \<times> 'w"
  ce_bind_server :: "handle \<Rightarrow> 'w \<Rightarrow> (io_error, unit) res \<times> 'w"
  ce_shutdown_recv :: "nat \<Rightarrow> 'w \<Rightarrow> 'w option"
  ce_input_processing_truncate :: "u32 \<Rightarrow> u32"
  ce_threads :: "'w thread_ops"
  ce_bind_client :: "nat \<Rightarrow> handle \<Rightarrow> 'w \<Rightarrow> (io_error, unit) res \<times> 'w"
  ce_thread_info :: "'w \<Rightarrow> byte list option"

record client_stream =
  st_user_ptr :: nat
  st_token :: nat
  st_cell :: nat

record ('a, 'w) client_st =
  bound :: "nat \<rightharpoonup> 'a app_callbacks \<times> 'a callback_server"
  caller :: "'a client_thread"
  outside :: 'w

text \<open>\<open>assert_not_in_callback\<close> in front of an operation.\<close>

definition guarded ::
  "(('a, 'w) client_st \<Rightarrow> ('e, 'r) res \<times> ('a, 'w) client_st) \<Rightarrow> ('a, 'w) client_st \<Rightarrow>
   ('e, 'r) res \<times> ('a, 'w) client_st" where
  "guarded f st = (case assert_not_in_callback (caller st) :: ('e, unit) res of
     Ok _ \<Rightarrow> f st | _ \<Rightarrow> (Panic, st))"

definition on_outside ::
  "('w \<Rightarrow> ('e, 'r) res \<times> 'w) \<Rightarrow> ('a, 'w) client_st \<Rightarrow> ('e, 'r) res \<times> ('a, 'w) client_st" where
  "on_outside f st = (case f (outside st) of (r, w) \<Rightarrow> (r, st\<lparr>outside := w\<rparr>))"

section \<open>send_recv\<close>

text \<open>\<open>_err\<close>: the error of a code, where the code of no error is a panic, and \<open>Error::Error\<close> without a code.\<close>

definition err_of :: "cubeb_abi \<Rightarrow> c_int option \<Rightarrow> (cubeb_error, 'r) res" where
  "err_of K e = (case e of
     None \<Rightarrow> Err CubebError
   | Some c \<Rightarrow> (case error_of_code K c of Some err \<Rightarrow> Err err | None \<Rightarrow> Panic))"

text \<open>\<open>want\<close> is the pattern of the response, with the value it binds.\<close>

definition recv_response ::
  "cubeb_abi \<Rightarrow> ('h client_message \<Rightarrow> 'r option) \<Rightarrow> (io_error, 'h client_message) res \<Rightarrow> (cubeb_error, 'r) res" where
  "recv_response K want resp = (case resp of
     Ok m \<Rightarrow> (case want m of
        Some v \<Rightarrow> Ok v
      | None \<Rightarrow> (case m of ErrorMsg e \<Rightarrow> err_of K (Some e) | _ \<Rightarrow> err_of K None))
   | Err _ \<Rightarrow> err_of K None
   | Panic \<Rightarrow> Panic)"

definition send_recv ::
  "cubeb_abi \<Rightarrow> 'w client_env \<Rightarrow> server_message \<Rightarrow> (serializable_handle client_message \<Rightarrow> 'r option) \<Rightarrow>
   ('a, 'w) client_st \<Rightarrow> (cubeb_error, 'r) res \<times> ('a, 'w) client_st" where
  "send_recv K E smsg want st =
     (case ce_call E smsg (outside st) of (resp, w) \<Rightarrow> (recv_response K want resp, st\<lparr>outside := w\<rparr>))"

definition expect :: "serializable_handle client_message \<Rightarrow> serializable_handle client_message \<Rightarrow> unit option" where
  "expect rmsg m = (if m = rmsg then Some () else None)"

section \<open>Operations of a stream\<close>

type_synonym ('a, 'w, 'r) client_op = "('a, 'w) client_st \<Rightarrow> (cubeb_error, 'r) res \<times> ('a, 'w) client_st"

definition stream_start :: "cubeb_abi \<Rightarrow> 'w client_env \<Rightarrow> client_stream \<Rightarrow> ('a, 'w, unit) client_op" where
  "stream_start K E s = guarded (send_recv K E (StreamStart (st_token s)) (expect StreamStarted))"

definition stream_stop :: "cubeb_abi \<Rightarrow> 'w client_env \<Rightarrow> client_stream \<Rightarrow> ('a, 'w, unit) client_op" where
  "stream_stop K E s = guarded (send_recv K E (StreamStop (st_token s)) (expect StreamStopped))"

definition stream_position :: "cubeb_abi \<Rightarrow> 'w client_env \<Rightarrow> client_stream \<Rightarrow> ('a, 'w, u64) client_op" where
  "stream_position K E s = guarded (send_recv K E (StreamGetPosition (st_token s))
     (\<lambda>m. case m of StreamPosition v \<Rightarrow> Some v | _ \<Rightarrow> None))"

definition stream_latency_op :: "cubeb_abi \<Rightarrow> 'w client_env \<Rightarrow> client_stream \<Rightarrow> ('a, 'w, u32) client_op" where
  "stream_latency_op K E s = guarded (send_recv K E (StreamGetLatency (st_token s))
     (\<lambda>m. case m of StreamLatency v \<Rightarrow> Some v | _ \<Rightarrow> None))"

definition stream_input_latency :: "cubeb_abi \<Rightarrow> 'w client_env \<Rightarrow> client_stream \<Rightarrow> ('a, 'w, u32) client_op" where
  "stream_input_latency K E s = guarded (send_recv K E (StreamGetInputLatency (st_token s))
     (\<lambda>m. case m of StreamInputLatency v \<Rightarrow> Some v | _ \<Rightarrow> None))"

definition stream_set_volume :: "cubeb_abi \<Rightarrow> 'w client_env \<Rightarrow> client_stream \<Rightarrow> f32 \<Rightarrow> ('a, 'w, unit) client_op" where
  "stream_set_volume K E s volume =
     guarded (send_recv K E (StreamSetVolume (st_token s) volume) (expect StreamVolumeSet))"

definition stream_set_name :: "cubeb_abi \<Rightarrow> 'w client_env \<Rightarrow> client_stream \<Rightarrow> byte list \<Rightarrow> ('a, 'w, unit) client_op" where
  "stream_set_name K E s name = guarded (send_recv K E (StreamSetName (st_token s) name) (expect StreamNameSet))"

definition stream_current_device ::
  "cubeb_abi \<Rightarrow> 'w client_env \<Rightarrow> client_stream \<Rightarrow> ('a, 'w, cubeb_device) client_op" where
  "stream_current_device K E s = guarded (\<lambda>st.
     case send_recv K E (StreamGetCurrentDevice (st_token s))
            (\<lambda>m. case m of StreamCurrentDevice d \<Rightarrow> Some d | _ \<Rightarrow> None) st of
       (r, st) \<Rightarrow> (map_ok ffi_of_device r, st))"

definition stream_set_input_mute :: "cubeb_abi \<Rightarrow> 'w client_env \<Rightarrow> client_stream \<Rightarrow> bool \<Rightarrow> ('a, 'w, unit) client_op" where
  "stream_set_input_mute K E s mute =
     guarded (send_recv K E (StreamSetInputMute (st_token s) mute) (expect StreamInputMuteSet))"

definition stream_set_input_processing_params ::
  "cubeb_abi \<Rightarrow> 'w client_env \<Rightarrow> client_stream \<Rightarrow> u32 \<Rightarrow> ('a, 'w, unit) client_op" where
  "stream_set_input_processing_params K E s params = guarded
     (send_recv K E (StreamSetInputProcessingParams (st_token s) params) (expect StreamInputProcessingParamsSet))"

text \<open>Destroying a device frees its two names; only a null device is refused.\<close>

definition device_drop :: "cubeb_device \<Rightarrow> byte list list" where
  "device_drop d = List.map_filter id [cd_input_name d, cd_output_name d]"

definition stream_device_destroy :: "cubeb_device option \<Rightarrow> ('a, 'w, byte list list) client_op" where
  "stream_device_destroy d = guarded (\<lambda>st. case d of
     None \<Rightarrow> (Err CubebError, st) | Some d \<Rightarrow> (Ok (device_drop d), st))"

text \<open>The cell is written before the server is asked; it is the one the callback server reads.\<close>

definition set_device_change_cb ::
  "nat \<Rightarrow> ('a \<Rightarrow> 'a) option \<Rightarrow> ('a, 'w) client_st \<Rightarrow> ('a, 'w) client_st" where
  "set_device_change_cb cell cb st = (case bound st cell of
     None \<Rightarrow> st
   | Some (A, cs) \<Rightarrow> st\<lparr>bound := (bound st)(cell \<mapsto> (A, cs\<lparr>device_change_cb := cb\<rparr>))\<rparr>)"

definition stream_register_device_changed ::
  "cubeb_abi \<Rightarrow> 'w client_env \<Rightarrow> client_stream \<Rightarrow> (nat \<Rightarrow> 'a \<Rightarrow> 'a) option \<Rightarrow> ('a, 'w, unit) client_op" where
  "stream_register_device_changed K E s cb = guarded (\<lambda>st.
     send_recv K E (StreamRegisterDeviceChangeCallback (st_token s) (cb \<noteq> None))
       (expect StreamRegisterDeviceChangeCallbackDone)
       (set_device_change_cb (st_cell s) (map_option (\<lambda>f. f (st_user_ptr s)) cb) st))"

section \<open>Creating and dropping a stream\<close>

text \<open>The vector for the input of a duplex stream: memory of at least the shared memory's size, or none to be had.\<close>

definition reserve_duplex ::
  "'w client_env \<Rightarrow> stream_create_params \<Rightarrow> usize \<Rightarrow> 'w \<Rightarrow> (cubeb_error, byte list option) res \<times> 'w" where
  "reserve_duplex E params n w =
     (if input_stream_params params \<noteq> None \<and> output_stream_params params \<noteq> None then
        (case ce_reserve E n w of
           (Some buf, w) \<Rightarrow> (Ok (Some buf), w)
         | (None, w) \<Rightarrow> (Err CubebError, w))
      else (Ok None, w))"

definition any_cubeb_error :: "('e, 'r) res \<times> 's \<Rightarrow> (cubeb_error, 'r) res \<times> 's" where
  "any_cubeb_error m = (case m of (r, s) \<Rightarrow> (map_err (\<lambda>_. CubebError) r, s))"

text \<open>Mapping the client's view of the shared memory; the handle is taken out of the message.\<close>

definition map_client_shm ::
  "'w client_env \<Rightarrow> serializable_handle \<Rightarrow> usize \<Rightarrow> 'w \<Rightarrow> (cubeb_error, shared_mem) res \<times> 'w" where
  "map_client_shm E h n w = (case fst (sh_take_handle h) :: (unit ipc_error, handle) res of
     Ok fd \<Rightarrow> any_cubeb_error (shared_mem_from (ce_os E) fd n w :: (unit ipc_error, shared_mem) res \<times> 'w)
   | _ \<Rightarrow> (Panic, w))"

definition want_created :: "'h client_message \<Rightarrow> 'h stream_create option" where
  "want_created m = (case m of StreamCreated d \<Rightarrow> Some d | _ \<Rightarrow> None)"

definition want_initialized :: "'h client_message \<Rightarrow> 'h option" where
  "want_initialized m = (case m of StreamInitialized h \<Rightarrow> Some h | _ \<Rightarrow> None)"

text \<open>The callback server of a new stream, moved to the callback thread at a new address.\<close>

definition bind_callback_server ::
  "'w client_env \<Rightarrow> handle \<Rightarrow> 'a app_callbacks \<Rightarrow> 'a callback_server \<Rightarrow> ('a, 'w, nat) client_op" where
  "bind_callback_server E pipe A cs st = (case ce_new_arc E (outside st) of (cell, w) \<Rightarrow>
     (case ce_bind_server E pipe w of
        (Ok _, w) \<Rightarrow> (Ok cell, st\<lparr>bound := (bound st)(cell \<mapsto> (A, cs)), outside := w\<rparr>)
      | (Err _, w) \<Rightarrow> (Err CubebError, st\<lparr>outside := w\<rparr>)
      | (Panic, w) \<Rightarrow> (Panic, st\<lparr>outside := w\<rparr>)))"

definition client_stream_init ::
  "cubeb_abi \<Rightarrow> 'w client_env \<Rightarrow> stream_create_params \<Rightarrow> 'a app_callbacks \<Rightarrow> nat \<Rightarrow>
   ('a, 'w, client_stream) client_op" where
  "client_stream_init K E params A user_ptr = guarded (\<lambda>st.
     and_then (send_recv K E (StreamCreate params) want_created st) (\<lambda>d st.
     and_then (on_outside (map_client_shm E (shm_handle d) (shm_area_size d)) st) (\<lambda>shm st.
     and_then (on_outside (reserve_duplex E params (shm_area_size d)) st) (\<lambda>duplex st.
     and_then (send_recv K E (StreamInit (token d)) want_initialized st) (\<lambda>h st.
     (case fst (sh_take_handle h) :: (unit, handle) res of
        Ok pipe \<Rightarrow>
          let server = \<lparr>cs_shm = shm,
                input_frame_size = map_option (frame_size_in_bytes K) (input_stream_params params),
                output_frame_size = map_option (frame_size_in_bytes K) (output_stream_params params),
                duplex_input = duplex, device_change_cb = None\<rparr>
          in and_then (bind_callback_server E pipe A server st) (\<lambda>cell st.
               (Ok \<lparr>st_user_ptr = user_ptr, st_token = token d, st_cell = cell\<rparr>, st))
      | _ \<Rightarrow> (Panic, st)))))))"

text \<open>
  \<open>Drop for ClientStream\<close>: the result of the request is ignored (a panic of its evaluation is not), then
  the drop waits until the callback server is dropped, possibly forever.
\<close>

definition client_stream_drop ::
  "cubeb_abi \<Rightarrow> 'w client_env \<Rightarrow> client_stream \<Rightarrow> ('a, 'w) client_st \<Rightarrow>
   ((cubeb_error, unit) res \<times> ('a, 'w) client_st) option" where
  "client_stream_drop K E s st =
     (case send_recv K E (StreamDestroy (st_token s)) (expect StreamDestroyed) st of
        (Panic, st) \<Rightarrow> Some (Panic, st)
      | (_, st) \<Rightarrow> (case ce_shutdown_recv E (st_cell s) (outside st) of
           None \<Rightarrow> None
         | Some w \<Rightarrow> Some (Ok (), st\<lparr>bound := (bound st)(st_cell s := None), outside := w\<rparr>)))"

end
