(* ===== verification/ClientContext.thy ===== *)
theory ClientContext
  imports Client
begin

text \<open>
  The client's cubeb context (\<open>client/src/context.rs\<close>) and its entry point (\<open>client/src/lib.rs\<close>): starting the two
  threads and the connection, the operations of the context, and the server for device-collection changes.
  The constants of \<open>DeviceType\<close> and the conversion of a remote collection are in \<open>Cubeb\<close> and \<open>Messages\<close>.
\<close>

section \<open>State\<close>

record 'a dc_callbacks =
  input_cb :: "(nat \<Rightarrow> 'a \<Rightarrow> 'a) option"
  input_user_ptr :: nat
  output_cb :: "(nat \<Rightarrow> 'a \<Rightarrow> 'a) option"
  output_user_ptr :: nat

definition dc_callbacks_default :: "'a dc_callbacks" where
  "dc_callbacks_default = \<lparr>input_cb = None, input_user_ptr = 0, output_cb = None, output_user_ptr = 0\<rparr>"

record ('a, 'w) client_context =
  cx_rpc_thread :: "'w event_loop_thread"
  cx_callback_thread :: "'w event_loop_thread"
  cx_backend_id :: "byte list"
  device_collection_rpc :: bool
  device_collection_callbacks :: "'a dc_callbacks"

record 'w client_init_params =
  server_connection :: handle
  pool_size :: usize
  stack_size :: usize
  ci_create_callback :: "(string \<Rightarrow> 'w \<Rightarrow> 'w) option"
  ci_destroy_callback :: "('w \<Rightarrow> 'w) option"

section \<open>Device-collection changes\<close>

definition run_dc_callback :: "bool \<Rightarrow> (nat \<Rightarrow> 'a \<Rightarrow> 'a) option \<Rightarrow> nat \<Rightarrow> 'a client_thread \<Rightarrow> 'a client_thread" where
  "run_dc_callback wanted cb user_ptr t = (if wanted then
     (case cb of None \<Rightarrow> t | Some f \<Rightarrow> t\<lparr>app := f user_ptr (app t)\<rparr>) else t)"

definition device_collection_process ::
  "cubeb_abi \<Rightarrow> device_collection_req \<Rightarrow> 'a dc_callbacks \<times> 'a client_thread \<Rightarrow>
   (io_error, device_collection_resp) res \<times> 'a dc_callbacks \<times> 'a client_thread" where
  "device_collection_process K req st = (case req of CollReqDeviceChange ty \<Rightarrow>
     let devtype = device_type_truncate K ty in
     run_in_callback (\<lambda>(cbs, t).
       let t = run_dc_callback (device_type_contains K devtype (DEVICE_TYPE_INPUT K)) (input_cb cbs) (input_user_ptr cbs) t;
           t = run_dc_callback (device_type_contains K devtype (DEVICE_TYPE_OUTPUT K)) (output_cb cbs) (output_user_ptr cbs) t
       in (Ok CollRespDeviceChange, cbs, t)) st)"

definition set_dc_callbacks ::
  "cubeb_abi \<Rightarrow> u32 \<Rightarrow> (nat \<Rightarrow> 'a \<Rightarrow> 'a) option \<Rightarrow> nat \<Rightarrow> 'a dc_callbacks \<Rightarrow> 'a dc_callbacks" where
  "set_dc_callbacks K devtype cb user_ptr cbs =
     (let cbs = (if device_type_contains K devtype (DEVICE_TYPE_INPUT K)
                 then cbs\<lparr>input_cb := cb, input_user_ptr := user_ptr\<rparr> else cbs)
      in if device_type_contains K devtype (DEVICE_TYPE_OUTPUT K)
         then cbs\<lparr>output_cb := cb, output_user_ptr := user_ptr\<rparr> else cbs)"

text \<open>The operations of a context change it, so its state goes with the client's.\<close>

definition and_then_cx ::
  "(cubeb_error, 'x) res \<times> ('a, 'w) client_st \<Rightarrow> 'c \<Rightarrow>
   ('x \<Rightarrow> ('a, 'w) client_st \<Rightarrow> (cubeb_error, 'y) res \<times> 'c \<times> ('a, 'w) client_st) \<Rightarrow>
   (cubeb_error, 'y) res \<times> 'c \<times> ('a, 'w) client_st" where
  "and_then_cx m cx k = (case m of
     (Ok a, st) \<Rightarrow> k a st | (Err e, st) \<Rightarrow> (Err e, cx, st) | (Panic, st) \<Rightarrow> (Panic, cx, st))"

text \<open>The first registration sets up the connection on which the server reports changes.\<close>

definition setup_collection_server ::
  "cubeb_abi \<Rightarrow> 'w client_env \<Rightarrow> ('a, 'w, unit) client_op" where
  "setup_collection_server K E st =
     and_then (send_recv K E ContextSetupDeviceCollectionCallback
        (\<lambda>m. case m of ContextSetupDeviceCollectionCallbackDone d \<Rightarrow> Some d | _ \<Rightarrow> None) st) (\<lambda>d st.
       case fst (sh_take_handle (platform_handle d)) :: (unit, handle) res of
         Ok pipe \<Rightarrow> any_cubeb_error (on_outside (ce_bind_server E pipe) st)
       | _ \<Rightarrow> (Panic, st))"

definition register_device_collection_changed_op ::
  "cubeb_abi \<Rightarrow> 'w client_env \<Rightarrow> u32 \<Rightarrow> (nat \<Rightarrow> 'a \<Rightarrow> 'a) option \<Rightarrow> nat \<Rightarrow>
   ('a, 'w) client_context \<times> ('a, 'w) client_st \<Rightarrow>
   (cubeb_error, unit) res \<times> ('a, 'w) client_context \<times> ('a, 'w) client_st" where
  "register_device_collection_changed_op K E devtype cb user_ptr = (\<lambda>(cx, st).
     if in_callback (caller st) then (Panic, cx, st)
     else and_then_cx (if device_collection_rpc cx then (Ok (), st) else setup_collection_server K E st) cx (\<lambda>_ st.
       let cx = cx\<lparr>device_collection_rpc := True,
                   device_collection_callbacks := set_dc_callbacks K devtype cb user_ptr (device_collection_callbacks cx)\<rparr>
       in (case send_recv K E (ContextRegisterDeviceCollectionChanged devtype (cb \<noteq> None))
                  (expect ContextRegisteredDeviceCollectionChanged) st of (r, st) \<Rightarrow> (r, cx, st))))"

section \<open>Operations of a context\<close>

definition context_backend_id :: "('a, 'w) client_context \<Rightarrow> ('a, 'w, byte list) client_op" where
  "context_backend_id cx = guarded (\<lambda>st. (Ok (cx_backend_id cx), st))"

definition context_max_channel_count :: "cubeb_abi \<Rightarrow> 'w client_env \<Rightarrow> ('a, 'w, u32) client_op" where
  "context_max_channel_count K E = guarded (send_recv K E ContextGetMaxChannelCount
     (\<lambda>m. case m of ContextMaxChannelCount v \<Rightarrow> Some v | _ \<Rightarrow> None))"

definition context_min_latency :: "cubeb_abi \<Rightarrow> 'w client_env \<Rightarrow> stream_params \<Rightarrow> ('a, 'w, u32) client_op" where
  "context_min_latency K E params = guarded (send_recv K E (ContextGetMinLatency params)
     (\<lambda>m. case m of ContextMinLatency v \<Rightarrow> Some v | _ \<Rightarrow> None))"

definition context_preferred_sample_rate :: "cubeb_abi \<Rightarrow> 'w client_env \<Rightarrow> ('a, 'w, u32) client_op" where
  "context_preferred_sample_rate K E = guarded (send_recv K E ContextGetPreferredSampleRate
     (\<lambda>m. case m of ContextPreferredSampleRate v \<Rightarrow> Some v | _ \<Rightarrow> None))"

definition context_supported_input_processing_params :: "cubeb_abi \<Rightarrow> 'w client_env \<Rightarrow> ('a, 'w, u32) client_op" where
  "context_supported_input_processing_params K E = guarded (\<lambda>st.
     case send_recv K E ContextGetSupportedInputProcessingParams
            (\<lambda>m. case m of ContextSupportedInputProcessingParams v \<Rightarrow> Some v | _ \<Rightarrow> None) st of
       (r, st) \<Rightarrow> (map_ok (ce_input_processing_truncate E) r, st))"

definition context_enumerate_devices ::
  "cubeb_abi \<Rightarrow> 'w client_env \<Rightarrow> u32 \<Rightarrow> ('a, 'w, cubeb_device_info list) client_op" where
  "context_enumerate_devices K E devtype = guarded (\<lambda>st.
     case send_recv K E (ContextGetDeviceEnumeration devtype)
            (\<lambda>m. case m of ContextEnumeratedDevices v \<Rightarrow> Some v | _ \<Rightarrow> None) st of
       (r, st) \<Rightarrow> (map_ok (map ffi_of_device_info) r, st))"

text \<open>The strings that destroying a collection frees, in the order of the code.\<close>

definition device_strings :: "cubeb_device_info \<Rightarrow> byte list list" where
  "device_strings d = List.map_filter id [cdi_device_id d, cdi_group_id d, cdi_vendor_name d, cdi_friendly_name d]"

definition context_device_collection_destroy :: "cubeb_device_info list \<Rightarrow> ('a, 'w, byte list list) client_op" where
  "context_device_collection_destroy collection = guarded (\<lambda>st. (Ok (concat (map device_strings collection)), st))"

text \<open>The name of a stream is sent with its terminating zero.\<close>

definition create_request ::
  "byte list option \<Rightarrow> nat \<Rightarrow> stream_params option \<Rightarrow> nat \<Rightarrow> stream_params option \<Rightarrow> u32 \<Rightarrow> stream_create_params" where
  "create_request name in_dev in_params out_dev out_params latency =
     \<lparr>stream_name = map_option (\<lambda>n. n @ [0]) name, input_device = in_dev, input_stream_params = in_params,
      output_device = out_dev, output_stream_params = out_params, latency_frames = latency\<rparr>"

definition context_stream_init ::
  "cubeb_abi \<Rightarrow> 'w client_env \<Rightarrow> byte list option \<Rightarrow> nat \<Rightarrow> stream_params option \<Rightarrow> nat \<Rightarrow> stream_params option \<Rightarrow>
   u32 \<Rightarrow> 'a app_callbacks \<Rightarrow> nat \<Rightarrow> ('a, 'w, client_stream) client_op" where
  "context_stream_init K E name in_dev in_params out_dev out_params latency A user_ptr = guarded
     (client_stream_init K E (create_request name in_dev in_params out_dev out_params latency) A user_ptr)"

section \<open>Starting and ending\<close>

text \<open>On Linux the callback thread asks the server to promote it; the response is ignored.\<close>

definition promote_thread :: "'w client_env \<Rightarrow> 'w action" where
  "promote_thread E w = (case ce_thread_info E w of
     None \<Rightarrow> (Ok (), w)
   | Some info \<Rightarrow> (case ce_call E (PromoteThreadToRealTime info) w of
        (Panic, w) \<Rightarrow> (Panic, w) | (_, w) \<Rightarrow> (Ok (), w)))"

text \<open>On the other systems the thread promotes itself, and a failure is only traced.\<close>

definition promote_thread_local :: "('w \<Rightarrow> (unit, unit) res \<times> 'w) \<Rightarrow> 'w action" where
  "promote_thread_local promote_current w = (case promote_current w of
     (Panic, w) \<Rightarrow> (Panic, w) | (_, w) \<Rightarrow> (Ok (), w))"

definition promote_and_register_thread ::
  "'w client_env \<Rightarrow> (string \<Rightarrow> 'w \<Rightarrow> 'w) option \<Rightarrow> string option \<Rightarrow> 'w action" where
  "promote_and_register_thread E callback thread_name w =
     and_then (promote_thread E w) (\<lambda>_ w. register_thread callback thread_name w)"

definition remote_error :: "byte list" where
  "remote_error = map (\<lambda>c. of_nat (of_char c)) ''(remote error)''"

text \<open>
  \<open>ClientContext::init\<close> takes the parameters from the thread-local variable.  The errors of its first two requests
  are not reported.
\<close>

definition client_context_init ::
  "cubeb_abi \<Rightarrow> 'w client_env \<Rightarrow> 'w client_init_params option \<times> ('a, 'w) client_st \<Rightarrow>
   (cubeb_error, ('a, 'w) client_context) res \<times> 'w client_init_params option \<times> ('a, 'w) client_st" where
  "client_context_init K E = (\<lambda>(stored, st).
     if in_callback (caller st) then (Panic, stored, st)
     else (case stored of
       None \<Rightarrow> (Panic, None, st)
     | Some p \<Rightarrow>
         (case platform_handle_new (server_connection p) :: (unit, handle) res of
            Ok pipe \<Rightarrow>
              (let rpc_name = ''AudioIPC Client RPC''; callback_name = ''AudioIPC Client Callback'';
                   create = ci_create_callback p; destroy = ci_destroy_callback p
               in case
                 and_then (any_cubeb_error (on_outside (event_loop_thread_new (ce_threads E) rpc_name None
                     (register_thread create (Some rpc_name)) (unregister_thread destroy)) st)) (\<lambda>rpc_thread st.
                 and_then (any_cubeb_error (on_outside (ce_bind_client E (elt_thread rpc_thread) pipe) st)) (\<lambda>_ st.
                 (case send_recv K E ClientConnect (expect ClientConnected) st of
                    (Panic, st) \<Rightarrow> (Panic, st)
                  | (_, st) \<Rightarrow>
                      and_then (case send_recv K E ContextGetBackendId
                           (\<lambda>m. case m of ContextBackendId v \<Rightarrow> Some v | _ \<Rightarrow> None) st of
                         (r, st) \<Rightarrow> (unwrap_or_else (\<lambda>_. remote_error) r, st)) (\<lambda>backend st.
                      if 0 \<in> set backend then (Panic, st)
                      else and_then (any_cubeb_error (on_outside (event_loop_thread_new (ce_threads E) callback_name
                            (Some (unat (stack_size p))) (promote_and_register_thread E create (Some callback_name))
                            (unregister_thread destroy)) st)) (\<lambda>callback_thread st.
                        (Ok \<lparr>cx_rpc_thread = rpc_thread, cx_callback_thread = callback_thread, cx_backend_id = backend,
                             device_collection_rpc = False,
                             device_collection_callbacks = dc_callbacks_default\<rparr>, st)))))) of
                 (r, st) \<Rightarrow> (r, None, st))
          | _ \<Rightarrow> (Panic, None, st))))"

text \<open>\<open>Drop for ClientContext\<close>, before its fields (the connection and the threads) are dropped.\<close>

definition client_context_drop :: "cubeb_abi \<Rightarrow> 'w client_env \<Rightarrow> ('a, 'w, unit) client_op" where
  "client_context_drop K E st = (case send_recv K E ClientDisconnect (expect ClientDisconnected) st of
     (Panic, st) \<Rightarrow> (Panic, st) | (_, st) \<Rightarrow> (Ok (), st))"

text \<open>\<open>audioipc2_client_init\<close>, over \<open>capi_init\<close> of the cubeb backend crate, which runs the context's \<open>init\<close>.\<close>

definition audioipc2_client_init ::
  "cubeb_abi \<Rightarrow>
   ('w client_init_params option \<times> ('a, 'w) client_st \<Rightarrow>
     (unit, c_int) res \<times> 'w client_init_params option \<times> ('a, 'w) client_st) \<Rightarrow>
   'w client_init_params option \<Rightarrow> 'w client_init_params option \<times> ('a, 'w) client_st \<Rightarrow>
   (unit, c_int) res \<times> 'w client_init_params option \<times> ('a, 'w) client_st" where
  "audioipc2_client_init K capi_init init_params = (\<lambda>(stored, st). case init_params of
     None \<Rightarrow> (Ok (CUBEB_ERROR K), stored, st)
   | Some p \<Rightarrow> capi_init (Some p, st))"

end
