(* ===== verification/ServerSpec.thy ===== *)
theory ServerSpec
  imports Server
begin

text \<open>
  What \<open>Server\<close> adds up to: the invariant, the typing of responses, the life cycle of streams as an abstract
  specification, the requests that make the server panic, and the device-collection manager.
\<close>

section \<open>A concrete world\<close>

text \<open>
  The world of the examples is the list of registrations cubeb was asked for, the latest first.  Nothing
  fails in it, except that cubeb has no input latency.
\<close>

type_synonym demo_world = "(u32 \<times> bool) list"

definition quiet_os :: "'w shm_os" where
  "quiet_os = \<lparr>
     os_memfd_create = (\<lambda>_ w. (3, w)), os_create_new = (\<lambda>_ w. (Ok 4, w)), os_remove_file = (\<lambda>_ w. w),
     os_shm_open = (\<lambda>_ w. (5, w)), os_shm_unlink = (\<lambda>_ w. w), os_temp_dir = [], os_dev_shm = [],
     os_join = (@), os_set_len = (\<lambda>_ _ w. (Ok (), w)), os_fallocate = (\<lambda>_ _ w. (0, w)),
     os_posix_fallocate = (\<lambda>_ _ w. (0, w)), os_errno = (\<lambda>w. 5),
     os_mmap = (\<lambda>_ n w. (Ok (replicate n 0), w)), os_dup = (\<lambda>h w. (6, w)) \<rparr>"

definition demo_cubeb :: "demo_world cubeb_ops" where
  "demo_cubeb = \<lparr>
     ctx_init = (\<lambda>_ _ w. (Ok (), w)), ctx_backend_id = (\<lambda>_. [100]), ctx_max_channel_count = (\<lambda>w. (Ok 2, w)),
     ctx_min_latency = (\<lambda>_ _ _ _ w. (Ok 256, w)), ctx_preferred_sample_rate = (\<lambda>w. (Ok 48000, w)),
     ctx_supported_input_processing_params = (\<lambda>w. (Ok 0, w)), ctx_enumerate_devices = (\<lambda>_ w. (Ok [], w)),
     ctx_register_collection = (\<lambda>d e w. (Ok (), (d, e) # w)),
     ctx_stream_init = (\<lambda>_ _ _ _ _ _ _ w. (Ok 11, w)), stm_drop = (\<lambda>_ w. w),
     stm_start = (\<lambda>_ w. (Ok (), w)), stm_stop = (\<lambda>_ w. (Ok (), w)), stm_position = (\<lambda>_ w. (Ok 0, w)),
     stm_latency = (\<lambda>_ w. (Ok 256, w)), stm_input_latency = (\<lambda>_ w. (Err NotSupported, w)),
     stm_set_volume = (\<lambda>_ _ w. (Ok (), w)), stm_set_name = (\<lambda>_ _ w. (Ok (), w)),
     stm_current_device = (\<lambda>_ w. (Ok \<lparr>cd_output_name = None, cd_input_name = None\<rparr>, w)),
     stm_set_input_mute = (\<lambda>_ _ w. (Ok (), w)), stm_set_input_processing_params = (\<lambda>_ _ w. (Ok (), w)),
     stm_register_device_changed = (\<lambda>_ _ w. (Ok (), w)),
     channel_layout_of = (\<lambda>l. l), input_processing_truncate = (\<lambda>p. p) \<rparr>"

definition demo_env :: "demo_world server_env" where
  "demo_env = \<lparr>
     env_os = quiet_os, env_pid = 42, env_socket_pair = (\<lambda>w. (Ok (7, 8), w)),
     env_bind_callback = (\<lambda>_ w. (Ok 1, w)), env_bind_collection = (\<lambda>_ w. (Ok 2, w)),
     env_drop_proxies = (\<lambda>_ w. w), env_new_rc = (\<lambda>w. (1, w)),
     env_collection_call = (\<lambda>_ _ w. (Ok CollRespDeviceChange, w)),
     env_thread_info_pid = (\<lambda>_. 9), env_promote = (\<lambda>_ w. (Ok (), w)) \<rparr>"

definition demo_server :: "((nat \<times> server_stream) list, demo_world) server_st" where
  "demo_server = \<lparr>sv = cubeb_server_new list_slab 9 0, mgr = [], local_context = Some (Ok ()), shm_ids = 0,
     global_params = \<lparr>context_name = [97], backend_name = None\<rparr>, world = []\<rparr>"

lemma demo_server_inv: "server_inv cubeb_h list_slab (sv demo_server)"
  using new_server_inv [OF list_slab_contract] by (simp add: demo_server_def)

section \<open>Requests the server panics on\<close>

definition no_panic :: "('w \<Rightarrow> ('e, 'a) res \<times> 'w) \<Rightarrow> bool" where
  "no_panic f \<longleftrightarrow> (\<forall>w. fst (f w) \<noteq> Panic)"

text \<open>The calls into cubeb and the system return, and a socket is a valid descriptor.\<close>

definition cubeb_contract :: "'w cubeb_ops \<Rightarrow> bool" where
  "cubeb_contract C \<longleftrightarrow>
     no_panic (ctx_max_channel_count C) \<and> (\<forall>f r c l. no_panic (ctx_min_latency C f r c l)) \<and>
     no_panic (ctx_preferred_sample_rate C) \<and> no_panic (ctx_supported_input_processing_params C) \<and>
     (\<forall>d. no_panic (ctx_enumerate_devices C d)) \<and> (\<forall>d e. no_panic (ctx_register_collection C d e)) \<and>
     (\<forall>n i ip out op l u. no_panic (ctx_stream_init C n i ip out op l u)) \<and>
     (\<forall>s. no_panic (stm_start C s) \<and> no_panic (stm_stop C s) \<and> no_panic (stm_position C s) \<and>
        no_panic (stm_latency C s) \<and> no_panic (stm_input_latency C s) \<and> no_panic (stm_current_device C s)) \<and>
     (\<forall>s v. no_panic (stm_set_volume C s v)) \<and> (\<forall>s n. no_panic (stm_set_name C s n)) \<and>
     (\<forall>s b. no_panic (stm_set_input_mute C s b)) \<and> (\<forall>s p. no_panic (stm_set_input_processing_params C s p)) \<and>
     (\<forall>s b. no_panic (stm_register_device_changed C s b))"

definition env_contract :: "'w server_env \<Rightarrow> bool" where
  "env_contract E \<longleftrightarrow> shm_os_contract (env_os E) \<and>
     (\<forall>w. case fst (env_socket_pair E w) of Ok (server, client) \<Rightarrow> valid_handle client | Err _ \<Rightarrow> True | Panic \<Rightarrow> False) \<and>
     (\<forall>h. no_panic (env_bind_callback E h) \<and> no_panic (env_bind_collection E h)) \<and> (\<forall>i. no_panic (env_promote E i))"

text \<open>
  What a client has to do to bring the server down: use a stream that it created but has not initialized,
  initialize one with a device handle it was never given, or register for device changes before the setup.
\<close>

definition panic_request :: "cubeb_abi \<Rightarrow> ('s, server_stream) slab \<Rightarrow> 's cubeb_server \<Rightarrow> server_message \<Rightarrow> bool" where
  "panic_request K S s m \<longleftrightarrow>
     (\<exists>t ss. stream_op_token m = Some t \<and> sl_get S (streams s) t = Some ss \<and> ss_stream ss = None) \<or>
     (\<exists>t ss p. m = StreamInit t \<and> sl_get S (streams s) t = Some ss \<and> ss_stream ss = None \<and> ss_params ss = Some p \<and>
        \<not> (input_device p < length (devidmap s) \<and> output_device p < length (devidmap s))) \<or>
     (\<exists>d e. m = ContextRegisterDeviceCollectionChanged d e \<and> device_type_truncate K d \<noteq> DEVICE_TYPE_UNKNOWN K \<and>
        collection_callbacks s = None)"

lemma no_panic_on_world: "no_panic f \<Longrightarrow> fst (on_world f st) \<noteq> Panic"
  by (auto simp: on_world_def no_panic_def split: prod.splits) (metis fst_conv)

lemma reply_panic [simp]: "fst (reply K f m) = Panic \<longleftrightarrow> fst m = Panic"
  by (cases m) (simp add: reply_def)

lemma any_error_panic [simp]: "fst (any_error K m) = Panic \<longleftrightarrow> fst m = Panic"
  by (cases m) (simp add: any_error_def)

lemma and_then_panic:
  "fst (and_then m k) = Panic \<longleftrightarrow> fst m = Panic \<or> (\<exists>a s. m = (Ok a, s) \<and> fst (k a s) = Panic)"
  by (cases m; cases "fst m") (auto simp: and_then_def)

lemma io_error_of_panic [simp]: "fst (io_error_of m) = Panic \<longleftrightarrow> fst m = Panic"
  by (cases m; cases "fst m") (auto simp: io_error_of_def)

lemma try_stream_panic:
  assumes "\<And>s. no_panic (oper s)"
  shows "fst (try_stream K S t oper f st) = Panic \<longleftrightarrow> (\<exists>ss. sl_get S (streams (sv st)) t = Some ss \<and> ss_stream ss = None)"
  using assms no_panic_on_world by (auto simp: try_stream_def split: option.splits)

lemma make_pipe_pair_safe: "env_contract E \<Longrightarrow> no_panic (make_pipe_pair E)"
proof (unfold no_panic_def, intro allI)
  fix w assume E: "env_contract E"
  obtain r w1 where r: "env_socket_pair E w = (r, w1)" by fastforce
  from E have "case fst (env_socket_pair E w) of Ok (server, client) \<Rightarrow> valid_handle client | Err _ \<Rightarrow> True | Panic \<Rightarrow> False"
    by (simp add: env_contract_def)
  with r show "fst (make_pipe_pair E w) \<noteq> Panic"
    by (cases r) (auto simp: make_pipe_pair_def and_then_def platform_handle_new_def)
qed

lemma create_resources_safe:
  assumes E: "env_contract E" and i: "0 \<notin> set ident" and n: "unat n < 2 ^ 63"
  shows "no_panic (create_resources E ident n)"
proof -
  have "fst (shared_mem_new (env_os E) ident n w :: (unit ipc_error, shared_mem) res \<times> 'a) \<noteq> Panic" for w
    using E i n by (intro shared_mem_new_safe) (auto simp: env_contract_def)
  moreover have "fst (shm_make_handle (env_os E) shm w) \<noteq> Panic" for shm w
    by (auto simp: shm_make_handle_def platform_handle_duplicate_def platform_handle_new_def Let_def split: prod.splits)
  moreover have "fst (make_pipe_pair E w) \<noteq> Panic" for w using make_pipe_pair_safe [OF E] by (simp add: no_panic_def)
  moreover have "fst (env_bind_callback E h w) \<noteq> Panic" for h w using E by (simp add: env_contract_def no_panic_def)
  ultimately show ?thesis by (auto simp: no_panic_def create_resources_def and_then_panic)
qed

lemma shm_area_size_small:
  assumes "cubeb_abi_contract K" and "validate_stream_create_params K params = Ok ()" and "unat configured < 2 ^ 63"
  shows "unat (shm_area_size_for K configured params) < 2 ^ 63"
proof (cases "configured = 0")
  case True
  note e = shm_area_size_estimate [OF assms(1,2)]
  have "unat (shm_area_size_for K 0 params) < 2 ^ 32"
    unfolding e(1) by (rule order.strict_trans1 [OF div_times_less_eq_dividend e(2)])
  then show ?thesis by (simp add: True)
next
  case False
  then show ?thesis using assms(3) by (simp add: shm_area_size_for_def)
qed

lemma process_stream_create_safe:
  assumes K: "cubeb_abi_contract K" and E: "env_contract E" and inv: "server_inv K S (sv st)"
    and n: "unat (configured_shm_size (sv st)) < 2 ^ 63"
  shows "fst (process_stream_create K E S params st) \<noteq> Panic"
proof (cases "validate_stream_create_params K params = Ok ()")
  case False
  then have "validate_stream_create_params K params = Err InvalidParameter" using validate_create_cases by blast
  then show ?thesis by (simp add: process_stream_create_def and_then_def)
next
  case True
  obtain ident st1 where i: "take_shm_id E st = (ident, st1)" by fastforce
  have "ident = fst (get_shm_id (env_pid E) (shm_ids st))" and sv1: "sv st1 = sv st"
    using i by (auto simp: take_shm_id_def split: prod.splits)
  then have "0 \<notin> set ident" using shm_id_no_zero by simp
  then have "fst (on_world (create_resources E ident (shm_area_size_for K (configured_shm_size (sv st)) params)) st1) \<noteq> Panic"
    by (intro no_panic_on_world create_resources_safe [OF E] shm_area_size_small [OF K True n])
  then show ?thesis
    using True i inv sv1
    by (auto simp: process_stream_create_def and_then_panic Let_def unwrap_pid_def server_inv_def
        dest!: on_world_sv split: option.splits)
qed

lemma internal_register_safe: "cubeb_contract C \<Longrightarrow> fst (internal_register_dirs C enable dirs w) \<noteq> Panic"
  by (induction dirs arbitrary: w) (auto simp: and_then_panic cubeb_contract_def no_panic_def)

lemma manager_safe:
  assumes "cubeb_contract C"
  shows "fst (manager_register K C c d mw) \<noteq> Panic" and "fst (manager_unregister K C c d mw) \<noteq> Panic"
proof -
  have "fst (internal_register K C enable w) \<noteq> Panic" for enable w
    unfolding internal_register_def by (rule internal_register_safe [OF assms])
  then show "fst (manager_register K C c d mw) \<noteq> Panic" and "fst (manager_unregister K C c d mw) \<noteq> Panic"
    by (auto simp: manager_register_def manager_unregister_def Let_def split: prod.splits res.splits) (metis fst_conv)+
qed

lemma process_register_panic:
  assumes "cubeb_contract C"
  shows "fst (process_register_collection K C d enable st) = Panic \<longleftrightarrow>
    d \<noteq> DEVICE_TYPE_UNKNOWN K \<and> collection_callbacks (sv st) = None"
proof (cases "d = DEVICE_TYPE_UNKNOWN K \<or> collection_callbacks (sv st) = None")
  case True
  then show ?thesis by (auto simp: process_register_collection_def)
next
  case False
  then obtain c where "collection_callbacks (sv st) = Some c" by auto
  with False manager_safe [OF assms, of K c d "(mgr st, world st)"] show ?thesis
    by (cases enable) (auto simp: process_register_collection_def split: prod.splits)
qed

lemma init_stream_panic:
  assumes K: "cubeb_abi_contract K" and C: "cubeb_contract C" and v: "validate_stream_create_params K p = Ok ()"
  shows "fst (init_stream C u p st) = Panic \<longleftrightarrow>
    \<not> (input_device p < length (devidmap (sv st)) \<and> output_device p < length (devidmap (sv st)))"
proof -
  obtain q where q: "q \<in> directions p" using validate_create_Ok(1) [OF v] by (auto simp: directions_def)
  note vq = directions_valid [OF v q]
  obtain lat where "(stream_latency p :: (cubeb_error, u32) res) = Ok lat"
    using stream_latency_bounds [OF vq(2)] valid_paramsD [OF K vq(1)] by metis
  moreover have "fst (on_world (ctx_stream_init C n i ip out op l u) st) \<noteq> Panic" for n i ip out op l u
    using C by (intro no_panic_on_world) (simp add: cubeb_contract_def)
  ultimately show ?thesis by (auto simp: init_stream_def and_then_panic handle_to_id_def)
qed

lemma process_stream_init_panic:
  assumes K: "cubeb_abi_contract K" and C: "cubeb_contract C" and inv: "server_inv K S (sv st)"
  shows "fst (process_stream_init K C E S t st) = Panic \<longleftrightarrow>
    (\<exists>ss p. sl_get S (streams (sv st)) t = Some ss \<and> ss_stream ss = None \<and> ss_params ss = Some p \<and>
       \<not> (input_device p < length (devidmap (sv st)) \<and> output_device p < length (devidmap (sv st))))"
proof (cases "\<exists>ss. sl_get S (streams (sv st)) t = Some ss \<and> ss_stream ss = None")
  case False
  then show ?thesis by (auto simp: process_stream_init_def split: option.splits)
next
  case True
  then obtain ss where ss: "sl_get S (streams (sv st)) t = Some ss" "ss_stream ss = None" by blast
  then have "stream_ok K ss" using inv by (auto simp: server_inv_def)
  then obtain p h where p: "ss_params ss = Some p" "ss_client_pipe ss = Some h" "validate_stream_create_params K p = Ok ()"
    using stream_okD_uninit [OF _ ss(2)] by metis
  obtain pid where pid: "remote_pid (sv st) = Some pid" using inv by (auto simp: server_inv_def)
  have dev: "devidmap (sv (update_stream S t x st)) = devidmap (sv st)" for x by (simp add: update_stream_def)
  note i = init_stream_panic [OF K C p(3), of t "update_stream S t (ss\<lparr>ss_params := None\<rparr>) st"]
  show ?thesis
    by (cases rule: process_stream_init_cases [OF server_inv_contract [OF inv] pid ss p(1,2), of C K E])
      (use i ss p in \<open>auto simp: dev\<close>)
qed

lemma process_setup_safe:
  assumes E: "env_contract E" and inv: "server_inv K S (sv st)"
  shows "fst (process_setup_collection K E st) \<noteq> Panic"
proof -
  obtain r st1 where r: "on_world (make_pipe_pair E) st = (r, st1)" by fastforce
  have rn: "r \<noteq> Panic" using no_panic_on_world [OF make_pipe_pair_safe [OF E], of st] r by simp
  show ?thesis
  proof (cases r)
    case (Ok p)
    obtain server client where p: "p = (server, client)" by fastforce
    obtain r2 st2 where r2: "on_world (env_bind_collection E server) st1 = (r2, st2)" by fastforce
    have "fst (on_world (env_bind_collection E server) st1) \<noteq> Panic"
      using E by (intro no_panic_on_world) (simp add: env_contract_def)
    with r r2 Ok p inv on_world_sv [OF r] on_world_sv [OF r2] show ?thesis
      by (cases r2) (auto simp: process_setup_collection_def Let_def unwrap_pid_def server_inv_def
          split: prod.splits option.splits)
  qed (use r rn in \<open>auto simp: process_setup_collection_def\<close>)
qed

lemma process_promote_safe:
  assumes E: "env_contract E" and inv: "server_inv K S (sv st)"
  shows "fst (process_promote E info st) \<noteq> Panic"
proof -
  have "fst (on_world (env_promote E info) st) \<noteq> Panic"
    using E by (intro no_panic_on_world) (simp add: env_contract_def)
  with inv show ?thesis
    by (auto simp: process_promote_def unwrap_pid_def server_inv_def split: prod.splits res.splits)
qed

lemma process_enumeration_safe:
  assumes "cubeb_contract C"
  shows "fst (process_enumeration K C d st) \<noteq> Panic"
proof -
  have "fst (on_world (ctx_enumerate_devices C (device_type_truncate K d)) st) \<noteq> Panic"
    using assms by (intro no_panic_on_world) (simp add: cubeb_contract_def)
  then show ?thesis by (auto simp: process_enumeration_def and_then_panic split: prod.splits)
qed

lemma process_stream_msg_panic:
  assumes C: "cubeb_contract C" and m: "stream_op_token m = Some t"
  shows "fst (process_stream_msg K C E S m st) = Panic \<longleftrightarrow>
    (\<exists>ss. sl_get S (streams (sv st)) t = Some ss \<and> ss_stream ss = None)"
  using m C
  by (cases m; simp add: process_stream_msg_def stream_op_token_def; subst try_stream_panic)
    (auto simp: cubeb_contract_def)

lemma process_msg_panic:
  assumes K: "cubeb_abi_contract K" and C: "cubeb_contract C" and E: "env_contract E" and inv: "server_inv K S (sv st)"
    and n: "unat (configured_shm_size (sv st)) < 2 ^ 63"
  shows "fst (process_msg K C E S m st) = Panic \<longleftrightarrow> panic_request K S (sv st) m"
proof (cases "stream_op_token m")
  case (Some t)
  then have e: "process_msg K C E S m st = process_stream_msg K C E S m st"
    by (cases m) (simp_all add: process_msg_def stream_op_token_def)
  show ?thesis
    unfolding e process_stream_msg_panic [OF C Some] panic_request_def
    using Some by (auto simp: stream_op_token_def)
next
  case None
  have ask: "fst (on_world (ctx_max_channel_count C) st) \<noteq> Panic" "fst (on_world (ctx_min_latency C f r c l) st) \<noteq> Panic"
    "fst (on_world (ctx_preferred_sample_rate C) st) \<noteq> Panic"
    "fst (on_world (ctx_supported_input_processing_params C) st) \<noteq> Panic" for f r c l
    using C by (simp_all add: cubeb_contract_def no_panic_on_world)
  show ?thesis
    using None ask inv
    by (cases m) (auto simp: process_msg_def panic_request_def process_stream_msg_def stream_op_token_def server_inv_def
        case_prod_beta process_register_panic [OF C] process_enumeration_safe [OF C]
        process_stream_create_safe [OF K E inv n] process_stream_init_panic [OF K C inv]
        process_setup_safe [OF E inv] process_promote_safe [OF E inv])
qed

section \<open>Runs of a server\<close>

text \<open>The requests of one client, in order; \<open>None\<close> once the server has panicked.\<close>

fun server_run ::
  "cubeb_abi \<Rightarrow> 'w cubeb_ops \<Rightarrow> 'w server_env \<Rightarrow> ('s, server_stream) slab \<Rightarrow> server_message list \<Rightarrow>
   ('s, 'w) server_st \<Rightarrow> (serializable_handle client_message list \<times> ('s, 'w) server_st) option" where
  "server_run K C E S [] st = Some ([], st)"
| "server_run K C E S (m # ms) st = (case server_process K C E S m st of
     (Ok r, st) \<Rightarrow> (case server_run K C E S ms st of None \<Rightarrow> None | Some (rs, st) \<Rightarrow> Some (r # rs, st))
   | _ \<Rightarrow> None)"

inductive life_run ::
  "(server_message \<times> 'h client_message) list \<Rightarrow> (nat \<rightharpoonup> life) \<Rightarrow> (nat \<rightharpoonup> life) \<Rightarrow> bool" where
  life_nil: "life_run [] l l"
| life_cons: "life_step m r l l1 \<Longrightarrow> life_run tr l1 l2 \<Longrightarrow> life_run ((m, r) # tr) l l2"

inductive_cases life_runE: "life_run (x # tr) l l'"
inductive_simps life_run_nil [simp]: "life_run [] l l'"

lemma server_run_ok:
  assumes "server_run K C E S ms st = Some (rs, st')" and "server_inv K S (sv st)"
  shows "server_inv K S (sv st') \<and> list_all2 response_for ms rs \<and> list_all cm_sendable rs \<and>
    life_run (zip ms rs) (life_of S (sv st)) (life_of S (sv st'))"
  using assms
proof (induction ms arbitrary: st rs)
  case Nil
  then show ?case by simp
next
  case (Cons m ms)
  obtain r st1 rs1 where r: "server_process K C E S m st = (Ok r, st1)"
    and rest: "server_run K C E S ms st1 = Some (rs1, st')" and rs: "rs = r # rs1"
    using Cons.prems(1) by (auto split: prod.splits res.splits option.splits)
  from server_process_ok [OF Cons.prems(2), of m C E] r have
    1: "server_inv K S (sv st1)" "response_for m r" "cm_sendable r" "life_step m r (life_of S (sv st)) (life_of S (sv st1))"
    by (auto simp: step_ok_def)
  from Cons.IH [OF rest 1(1)] 1 rs show ?case by (auto intro: life_cons)
qed

lemma life_run_append: "life_run (xs @ ys) l l' \<longleftrightarrow> (\<exists>l1. life_run xs l l1 \<and> life_run ys l1 l')"
proof (induction xs arbitrary: l)
  case Nil
  then show ?case by simp
next
  case (Cons x xs)
  show ?case
  proof
    assume "life_run ((x # xs) @ ys) l l'"
    then obtain m r l2 where "x = (m, r)" "life_step m r l l2" "life_run (xs @ ys) l2 l'"
      by (auto elim: life_runE)
    with Cons.IH show "\<exists>l1. life_run (x # xs) l l1 \<and> life_run ys l1 l'" by (blast intro: life_cons)
  next
    assume "\<exists>l1. life_run (x # xs) l l1 \<and> life_run ys l1 l'"
    then obtain l1 m r l2 where "x = (m, r)" "life_step m r l l2" "life_run xs l2 l1" "life_run ys l1 l'"
      by (auto elim: life_runE)
    with Cons.IH show "life_run ((x # xs) @ ys) l l'" by (auto intro: life_cons)
  qed
qed

text \<open>A stream is ready only since its last initialization.\<close>

lemma ready_initialized:
  "life_run tr Map.empty l \<Longrightarrow> l t = Some Ready \<Longrightarrow>
   \<exists>as h bs. tr = as @ (StreamInit t, StreamInitialized h) # bs \<and> (StreamDestroy t, StreamDestroyed) \<notin> set bs"
proof (induction tr arbitrary: l rule: rev_induct)
  case Nil
  then show ?case by simp
next
  case (snoc x tr)
  obtain m r where x: "x = (m, r)" by fastforce
  then obtain l1 where l1: "life_run tr Map.empty l1" "life_step m r l1 l"
    using snoc.prems(1) by (auto simp: life_run_append elim!: life_runE)
  show ?case
  proof (cases "l1 t = Some Ready \<and> (m, r) \<noteq> (StreamDestroy t, StreamDestroyed)")
    case True
    then obtain as h bs where "tr = as @ (StreamInit t, StreamInitialized h) # bs" "(StreamDestroy t, StreamDestroyed) \<notin> set bs"
      using snoc.IH [OF l1(1)] by blast
    with True x show ?thesis
      by (intro exI [of _ as] exI [of _ h] exI [of _ "bs @ [x]"]) auto
  next
    case False
    with l1(2) snoc.prems(2) obtain h where "m = StreamInit t" "r = StreamInitialized h"
      by cases (auto simp: message_kinds split: if_splits)
    with x show ?thesis by (intro exI [of _ tr] exI [of _ h] exI [of _ "[]"]) simp
  qed
qed

section \<open>Properties\<close>

text \<open>
  C10: whatever the client asks and whatever cubeb and the system answer, a server keeps its invariant: every
  stream is either created (parameters and client pipe in place, not connected, no cubeb stream) or initialized
  (connected, with its cubeb stream, parameters and pipe handed over), its shared memory is as long as
  recorded, and the device map stays a bijection with the default device at 0.
\<close>

theorem server_keeps_invariant:
  assumes "server_inv K S (sv st)" and "server_run K C E S ms st = Some (rs, st')"
  shows "server_inv K S (sv st')"
  using server_run_ok [OF assms(2,1)] by blast

text \<open>
  C17: every request of a run is answered by the response of its own kind or by an error, and every platform handle
  in a response is a valid descriptor for the client, ready to be sent.
\<close>

theorem server_responses_typed:
  assumes "server_inv K S (sv st)" and "server_run K C E S ms st = Some (rs, st')"
  shows "length rs = length ms \<and> list_all2 response_for ms rs \<and> list_all cm_sendable rs"
  using server_run_ok [OF assms(2,1)] list_all2_lengthD by fastforce

text \<open>
  C5: the server implements the abstract life cycle of streams: its requests and responses are a run of the
  specification between the abstractions of its states; a stream operation that is not answered by an
  error was preceded by the initialization of its token, with no destruction of that token in between.
\<close>

theorem server_refines_lifecycle:
  assumes "slab_contract S" and "sv st = cubeb_server_new S pid n" and "server_run K C E S ms st = Some (rs, st')"
  shows "life_run (zip ms rs) Map.empty (life_of S (sv st')) \<and>
    (\<forall>i t. i < length ms \<and> stream_op_token (ms ! i) = Some t \<and> (\<nexists>e. rs ! i = ErrorMsg e) \<longrightarrow>
       (\<exists>as h bs. zip (take i ms) (take i rs) = as @ (StreamInit t, StreamInitialized h) # bs \<and>
          (StreamDestroy t, StreamDestroyed) \<notin> set bs))"
proof (intro conjI allI impI)
  have "life_of S (sv st) = Map.empty"
    using assms(1,2) by (simp add: life_of_def cubeb_server_new_def slab_laws fun_eq_iff)
  then have run: "life_run (zip ms rs) Map.empty (life_of S (sv st'))" and len: "length rs = length ms"
    using server_run_ok [OF assms(3)] new_server_inv [OF assms(1)] assms(2) list_all2_lengthD by fastforce+
  show "life_run (zip ms rs) Map.empty (life_of S (sv st'))" by (rule run)
  fix i t assume i: "i < length ms \<and> stream_op_token (ms ! i) = Some t \<and> (\<nexists>e. rs ! i = ErrorMsg e)"
  have "zip ms rs = zip (take i ms) (take i rs) @ (ms ! i, rs ! i) # drop (Suc i) (zip ms rs)"
    using i len id_take_nth_drop [of i "zip ms rs"] by (simp add: take_zip)
  with run have "life_run (zip (take i ms) (take i rs) @ (ms ! i, rs ! i) # drop (Suc i) (zip ms rs)) Map.empty
      (life_of S (sv st'))" by simp
  then obtain l1 where l0: "life_run (zip (take i ms) (take i rs)) Map.empty l1"
    "life_run ((ms ! i, rs ! i) # drop (Suc i) (zip ms rs)) l1 (life_of S (sv st'))"
    unfolding life_run_append by blast
  from l0(2) obtain l2 where l1: "life_step (ms ! i) (rs ! i) l1 l2" by (rule life_runE) auto
  from l1 i have "l1 t = Some Ready" by cases (auto simp: message_kinds)
  with ready_initialized [OF l0(1)]
  show "\<exists>as h bs. zip (take i ms) (take i rs) = as @ (StreamInit t, StreamInitialized h) # bs \<and>
          (StreamDestroy t, StreamDestroyed) \<notin> set bs" by blast
qed

text \<open>
  C15: with cubeb, the system and the other threads behaving, the requests that make a server panic are exactly
  these: using a stream that is not initialized yet, initializing one with a device handle the server never
  gave out, and registering for device changes without the setup.
\<close>

theorem server_panics_iff:
  assumes "cubeb_abi_contract K" and "cubeb_contract C" and "env_contract E" and "server_inv K S (sv st)"
    and "unat (configured_shm_size (sv st)) < 2 ^ 63" and "local_context st = Some (Ok ())"
  shows "fst (server_process K C E S m st) = Panic \<longleftrightarrow> panic_request K S (sv st) m"
proof -
  have "with_local_context C st = (Ok (), st)" using assms(6) by (cases st) (simp add: with_local_context_def)
  then have "server_process K C E S m st = process_msg K C E S m st" by (simp add: server_process_def)
  with process_msg_panic [OF assms(1-5)] show ?thesis by simp
qed

section \<open>The device-collection manager\<close>

text \<open>
  \<open>watching w d\<close>: whether cubeb has a callback for direction \<open>d\<close>.  A successful call sets it, a failed one
  leaves everything as it was.
\<close>

definition watch_contract :: "'w cubeb_ops \<Rightarrow> ('w \<Rightarrow> u32 \<Rightarrow> bool) \<Rightarrow> bool" where
  "watch_contract C watching \<longleftrightarrow> (\<forall>d e w. case ctx_register_collection C d e w of
     (Ok _, w') \<Rightarrow> watching w' = (watching w)(d := e) | (_, w') \<Rightarrow> watching w' = watching w)"

definition manager_inv :: "cubeb_abi \<Rightarrow> ('w \<Rightarrow> u32 \<Rightarrow> bool) \<Rightarrow> manager \<times> 'w \<Rightarrow> bool" where
  "manager_inv K watching mw \<longleftrightarrow> (case mw of (servers, w) \<Rightarrow>
     \<forall>d \<in> {DEVICE_TYPE_INPUT K, DEVICE_TYPE_OUTPUT K}. watching w d \<longleftrightarrow> servers \<noteq> [])"

lemma internal_register_dirs_Ok:
  assumes "watch_contract C watching" and "internal_register_dirs C enable dirs w = (Ok u, w')"
  shows "watching w' = (\<lambda>d. if d \<in> set dirs then enable else watching w d)"
  using assms(2)
proof (induction dirs arbitrary: w)
  case Nil
  then show ?case by simp
next
  case (Cons dir dirs)
  then obtain w1 where 1: "ctx_register_collection C dir enable w = (Ok (), w1)"
    "internal_register_dirs C enable dirs w1 = (Ok u, w')" by (auto simp: and_then_Ok)
  have "case ctx_register_collection C dir enable w of
     (Ok _, w') \<Rightarrow> watching w' = (watching w)(dir := enable) | (_, w') \<Rightarrow> watching w' = watching w"
    using assms(1) unfolding watch_contract_def by (elim allE)
  with 1 have "watching w1 = (watching w)(dir := enable)" by simp
  with Cons.IH [OF 1(2)] show ?case by (auto simp: fun_eq_iff)
qed

lemma internal_register_Ok:
  "watch_contract C watching \<Longrightarrow> internal_register K C enable w = (Ok u, w') \<Longrightarrow>
   d \<in> {DEVICE_TYPE_INPUT K, DEVICE_TYPE_OUTPUT K} \<Longrightarrow> watching w' d = enable"
  unfolding internal_register_def by (drule (1) internal_register_dirs_Ok) auto


text \<open>Dropping a server unregisters each direction by itself.\<close>

lemma remove_stream_mgr [simp]:
  "mgr (remove_stream C E S t st) = mgr st" "collection_callbacks (sv (remove_stream C E S t st)) = collection_callbacks (sv st)"
  by (simp_all add: remove_stream_def split: option.splits)

lemma fold_remove_stream_mgr [simp]: "mgr (fold (remove_stream C E S) ts st) = mgr st"
  by (induction ts arbitrary: st) auto

lemma unregister_ignored_keeps:
  "(c', d) \<in> set (mgr st) \<Longrightarrow> d \<noteq> devtype \<Longrightarrow> (c', d) \<in> set (mgr (unregister_ignored K C c devtype st))"
  by (auto simp: unregister_ignored_def manager_unregister_def Let_def filter_empty_conv split: prod.splits res.splits)

text \<open>
  C40: a server that registered for both directions at once stays registered when it is dropped: the drop
  unregisters input and output each by itself, and neither equals the combined type.  The manager's
  own drop then fails its assertion.
\<close>

theorem drop_keeps_combined_registration:
  assumes "(c, d) \<in> set (mgr st)" and "d \<noteq> DEVICE_TYPE_INPUT K" and "d \<noteq> DEVICE_TYPE_OUTPUT K"
  shows "(c, d) \<in> set (mgr (cubeb_server_drop K C E S st)) \<and>
    (manager_drop (mgr (cubeb_server_drop K C E S st)) :: (unit, unit) res) = Panic"
proof -
  have "(c, d) \<in> set (mgr (cubeb_server_drop K C E S st))"
    using assms
    by (auto simp: cubeb_server_drop_def Let_def split: option.splits res.splits intro!: unregister_ignored_keeps)
  then show ?thesis by (auto simp: manager_drop_def)
qed

section \<open>Examples\<close>

lemma demo_contracts: "cubeb_contract demo_cubeb" "env_contract demo_env"
proof -
  show "cubeb_contract demo_cubeb" by (simp add: cubeb_contract_def no_panic_def demo_cubeb_def)
  show "env_contract demo_env"
    by (simp add: env_contract_def shm_os_contract_def no_panic_def demo_env_def quiet_os_def valid_handle_def)
qed

text \<open>The first stream of the example server, created and then initialized, for any valid parameters.\<close>

definition demo_stream_for :: "stream_create_params \<Rightarrow> server_stream" where
  "demo_stream_for P = new_stream cubeb_h P
     \<lparr>shm_file = 3, shm_size = shm_area_size_for cubeb_h 0 P, shm_bytes = replicate (unat (shm_area_size_for cubeb_h 0 P)) 0\<rparr> 1 8"

lemma demo_resources:
  assumes "0 \<notin> set ident" and "unat n < 2 ^ 63"
  shows "create_resources demo_env ident n w =
    (Ok (\<lparr>shm_file = 3, shm_size = n, shm_bytes = replicate (unat n) 0\<rparr>, 6, 8, 1), w)"
  using assms
  by (simp add: create_resources_def and_then_def shared_mem_new_def open_shm_file_def open_shm_file_impl_def
      allocate_file_def map_shm_def shm_make_handle_def platform_handle_duplicate_def platform_handle_new_def
      make_pipe_pair_def io_error_of_def demo_env_def quiet_os_def valid_handle_def)

lemma demo_created_for:
  assumes v: "validate_stream_create_params cubeb_h P = Ok ()"
  shows "\<exists>st'. server_process cubeb_h demo_cubeb demo_env list_slab (StreamCreate P) demo_server =
     (Ok (StreamCreated (StreamCreateMk 0 (Owned 6 (Some 9)) (shm_area_size_for cubeb_h 0 P))), st') \<and>
     streams (sv st') = [(0, demo_stream_for P)] \<and> remote_pid (sv st') = Some 9 \<and> devidmap (sv st') = [0] \<and>
     local_context st' = Some (Ok ())"
proof -
  have small: "unat (shm_area_size_for cubeb_h 0 P) < 2 ^ 63" using shm_area_size_aligned [OF cubeb_h_contract v] by simp
  obtain i n where i: "get_shm_id 42 0 = (i, n)" by fastforce
  then have "0 \<notin> set i" using shm_id_no_zero [of 42 0] by simp
  moreover have "env_pid demo_env = 42" by (simp add: demo_env_def)
  ultimately show ?thesis using i
    by (simp add: server_process_def with_local_context_def process_msg_def process_stream_create_def v
        and_then_def take_shm_id_def demo_server_def cubeb_server_new_def on_world_def
        demo_resources [OF _ small] unwrap_pid_def any_error_def list_slab_def serializable_handle_new_def
        demo_stream_for_def dev_id_map_new_def Let_def)
qed

lemma context_ready: "local_context st = Some (Ok u) \<Longrightarrow> with_local_context C st = (Ok u, st)"
  by (cases st) (simp add: with_local_context_def)

lemma demo_latency: "(stream_latency demo_create :: (cubeb_error, u32) res) = Ok 256"
proof -
  have "bit_length 239 = 8" by (simp add: bit_length.simps)
  then have "round_up_pow2 240 = (Ok 256 :: (cubeb_error, u32) res)"
    by (simp add: round_up_pow2_def leading_zeros_def push_bit_eq_mult)
  then show ?thesis
    by (simp add: stream_latency_def stream_rate_def clamp_def demo_create_def demo_playback_def)
qed

lemma demo_started_for:
  assumes v: "validate_stream_create_params cubeb_h P = Ok ()"
    and i: "\<And>st :: ((nat \<times> server_stream) list, demo_world) server_st. devidmap (sv st) = [0] \<Longrightarrow>
      init_stream demo_cubeb 0 P st = (Ok 11, st)"
  shows "\<exists>st1 st2. server_process cubeb_h demo_cubeb demo_env list_slab (StreamCreate P) demo_server =
     (Ok (StreamCreated (StreamCreateMk 0 (Owned 6 (Some 9)) (shm_area_size_for cubeb_h 0 P))), st1) \<and>
     server_process cubeb_h demo_cubeb demo_env list_slab (StreamInit 0) st1 =
       (Ok (StreamInitialized (Owned 8 (Some 9))), st2) \<and>
     streams (sv st2) = [(0, initialized (demo_stream_for P) 11)] \<and> local_context st2 = Some (Ok ())"
proof -
  let ?s = "demo_stream_for P"
  obtain st1 where 1: "server_process cubeb_h demo_cubeb demo_env list_slab (StreamCreate P) demo_server =
     (Ok (StreamCreated (StreamCreateMk 0 (Owned 6 (Some 9)) (shm_area_size_for cubeb_h 0 P))), st1)"
    "streams (sv st1) = [(0, ?s)]" "remote_pid (sv st1) = Some 9" "devidmap (sv st1) = [0]"
    "local_context st1 = Some (Ok ())"
    using demo_created_for [OF v] by blast
  have fields: "ss_stream ?s = None" "ss_params ?s = Some P" "ss_client_pipe ?s = Some 8"
    by (simp_all add: demo_stream_for_def new_stream_def)
  define st2 where "st2 = update_stream list_slab 0 (initialized ?s 11)
    (update_stream list_slab 0 (?s\<lparr>ss_params := None, ss_stream := Some 11\<rparr>)
      (update_stream list_slab 0 (?s\<lparr>ss_params := None\<rparr>) st1))"
  have get: "sl_get list_slab (streams (sv st1)) 0 = Some ?s" using 1(2) by (simp add: list_slab_def)
  have upd: "devidmap (sv (update_stream list_slab 0 x st)) = devidmap (sv st)"
    "remote_pid (sv (update_stream list_slab 0 x st)) = remote_pid (sv st)" for x and st :: "((nat \<times> server_stream) list, demo_world) server_st"
    by (simp_all add: update_stream_def)
  have alt: "?s\<lparr>ss_params := None, ss_stream := Some 11, ss_client_pipe := None,
      ss_cbs := (ss_cbs ?s)\<lparr>connected := True\<rparr>\<rparr> = initialized ?s 11"
    by (cases ?s) (simp add: initialized_def)
  have 2: "server_process cubeb_h demo_cubeb demo_env list_slab (StreamInit 0) st1 =
      (Ok (StreamInitialized (Owned 8 (Some 9))), st2)"
    using 1(3-5) fields
    by (simp add: server_process_def context_ready process_msg_def any_error_def process_stream_init_def
        Let_def unwrap_pid_def st2_def serializable_handle_new_def alt upd get i)
  have "streams (sv st2) = [(0, initialized ?s 11)]" "local_context st2 = Some (Ok ())"
    using 1 by (simp_all add: st2_def update_stream_def list_slab_def)
  with 1 2 show ?thesis by blast
qed

definition demo_size :: usize where
  "demo_size = shm_area_size_for cubeb_h 0 demo_create"

definition demo_stream :: server_stream where
  "demo_stream = demo_stream_for demo_create"

lemma demo_create_init:
  "devidmap (sv st) = [0] \<Longrightarrow> init_stream demo_cubeb 0 demo_create st = (Ok 11, st)"
  by (cases st)
    (simp add: init_stream_def and_then_def handle_to_id_def demo_latency on_world_def demo_cubeb_def, simp add: demo_create_def)

lemma demo_started:
  "\<exists>st1 st2. server_process cubeb_h demo_cubeb demo_env list_slab (StreamCreate demo_create) demo_server =
     (Ok (StreamCreated (StreamCreateMk 0 (Owned 6 (Some 9)) demo_size)), st1) \<and>
     server_process cubeb_h demo_cubeb demo_env list_slab (StreamInit 0) st1 =
       (Ok (StreamInitialized (Owned 8 (Some 9))), st2) \<and>
     streams (sv st2) = [(0, initialized demo_stream 11)] \<and> local_context st2 = Some (Ok ())"
  unfolding demo_size_def demo_stream_def by (rule demo_started_for [OF demo_create_valid demo_create_init])

definition demo_requests :: "server_message list" where
  "demo_requests = [StreamCreate demo_create, StreamInit 0, StreamStart 0]"

definition demo_responses :: "serializable_handle client_message list" where
  "demo_responses = [StreamCreated (StreamCreateMk 0 (Owned 6 (Some 9)) demo_size), StreamInitialized (Owned 8 (Some 9)),
     StreamStarted]"

lemma demo_run:
  "\<exists>st'. server_run cubeb_h demo_cubeb demo_env list_slab demo_requests demo_server = Some (demo_responses, st') \<and>
     life_of list_slab (sv st') = [0 \<mapsto> Ready]"
proof -
  obtain st1 st2 where 1: "server_process cubeb_h demo_cubeb demo_env list_slab (StreamCreate demo_create) demo_server =
     (Ok (StreamCreated (StreamCreateMk 0 (Owned 6 (Some 9)) demo_size)), st1)"
    and 2: "server_process cubeb_h demo_cubeb demo_env list_slab (StreamInit 0) st1 =
       (Ok (StreamInitialized (Owned 8 (Some 9))), st2)"
    and s2: "streams (sv st2) = [(0, initialized demo_stream 11)]" "local_context st2 = Some (Ok ())"
    using demo_started by blast
  then have "server_process cubeb_h demo_cubeb demo_env list_slab (StreamStart 0) st2 = (Ok StreamStarted, st2)"
    by (cases st2) (simp add: server_process_def context_ready process_msg_def process_stream_msg_def try_stream_def
        list_slab_def initialized_def reply_def on_world_def demo_cubeb_def)
  moreover have "life_of list_slab (sv st2) = [0 \<mapsto> Ready]"
    using s2 by (auto simp: life_of_def list_slab_def initialized_def fun_eq_iff)
  ultimately show ?thesis using 1(1) 2 by (simp add: demo_requests_def demo_responses_def)
qed

theorem server_keeps_invariant_witness:
  "\<exists>rs st'. server_run cubeb_h demo_cubeb demo_env list_slab demo_requests demo_server = Some (rs, st') \<and>
     server_inv cubeb_h list_slab (sv st') \<and> sl_get list_slab (streams (sv st')) 0 \<noteq> None"
proof -
  obtain st' where st': "server_run cubeb_h demo_cubeb demo_env list_slab demo_requests demo_server = Some (demo_responses, st')"
    "life_of list_slab (sv st') = [0 \<mapsto> Ready]" using demo_run by blast
  from server_keeps_invariant [OF demo_server_inv st'(1)] st' show ?thesis
    by (auto simp: life_of_def fun_eq_iff split: if_splits)
qed

theorem server_responses_typed_witness:
  "list_all2 response_for demo_requests demo_responses \<and> list_all cm_sendable demo_responses"
  using demo_run server_responses_typed [OF demo_server_inv] by blast

theorem server_refines_lifecycle_witness:
  "life_run (zip demo_requests demo_responses) Map.empty [0 \<mapsto> Ready] \<and>
   (\<exists>as h bs. zip (take 2 demo_requests) (take 2 demo_responses) = as @ (StreamInit 0, StreamInitialized h) # bs)"
proof -
  obtain st' where st': "server_run cubeb_h demo_cubeb demo_env list_slab demo_requests demo_server = Some (demo_responses, st')"
    "life_of list_slab (sv st') = [0 \<mapsto> Ready]" using demo_run by blast
  have "sv demo_server = cubeb_server_new list_slab 9 0" by (simp add: demo_server_def)
  note t = server_refines_lifecycle [OF list_slab_contract this st'(1)]
  have "2 < length demo_requests \<and> stream_op_token (demo_requests ! 2) = Some 0 \<and> (\<nexists>e. demo_responses ! 2 = ErrorMsg e)"
    by (simp add: demo_requests_def demo_responses_def stream_op_token_def)
  with t st'(2) show ?thesis by metis
qed

theorem server_panics_iff_witness:
  "fst (server_process cubeb_h demo_cubeb demo_env list_slab (ContextRegisterDeviceCollectionChanged 1 True) demo_server) = Panic \<and>
   fst (server_process cubeb_h demo_cubeb demo_env list_slab (StreamStart 0) demo_server) \<noteq> Panic"
proof -
  have s: "unat (configured_shm_size (sv demo_server)) < 2 ^ 63" "local_context demo_server = Some (Ok ())"
    "collection_callbacks (sv demo_server) = None" "sl_get list_slab (streams (sv demo_server)) 0 = None"
    by (simp_all add: demo_server_def cubeb_server_new_def list_slab_def)
  note p = server_panics_iff [OF cubeb_h_contract demo_contracts demo_server_inv s(1,2)]
  have "panic_request cubeb_h list_slab (sv demo_server) (ContextRegisterDeviceCollectionChanged 1 True)"
    using s by (auto simp: panic_request_def cubeb_h_def)
  moreover have "\<not> panic_request cubeb_h list_slab (sv demo_server) (StreamStart 0)"
    using s by (auto simp: panic_request_def stream_op_token_def)
  ultimately show ?thesis using p by blast
qed

definition demo_watching :: "demo_world \<Rightarrow> u32 \<Rightarrow> bool" where
  "demo_watching w d \<longleftrightarrow> map_of w d = Some True"

lemma demo_watch_contract: "watch_contract demo_cubeb demo_watching"
  by (auto simp: watch_contract_def demo_cubeb_def demo_watching_def fun_eq_iff)


theorem drop_keeps_combined_registration_witness:
  "(manager_drop (mgr (cubeb_server_drop cubeb_h demo_cubeb demo_env list_slab
      (demo_server\<lparr>mgr := [(\<lparr>cc_ptr = 1, cc_rpc = 2\<rparr>, or 1 2)]\<rparr>))) :: (unit, unit) res) = Panic"
proof -
  have "or 1 2 \<noteq> DEVICE_TYPE_INPUT cubeb_h" "or 1 2 \<noteq> DEVICE_TYPE_OUTPUT cubeb_h" by (simp_all add: cubeb_h_def)
  from drop_keeps_combined_registration [OF _ this, of "\<lparr>cc_ptr = 1, cc_rpc = 2\<rparr>"
      "demo_server\<lparr>mgr := [(\<lparr>cc_ptr = 1, cc_rpc = 2\<rparr>, or 1 2)]\<rparr>" demo_cubeb demo_env list_slab]
  show ?thesis by simp
qed

end
