(* ===== verification/AudioPath.thy ===== *)
theory AudioPath
  imports ServerCallbacks ClientCallbacks
begin

text \<open>
  The way of the audio data: cubeb's data callback in the server (\<open>server/src/server.rs\<close>), served over the
  callback connection by the client's callback server (\<open>client/src/stream.rs\<close>) on the same shared
  memory.  Both sides keep their own view of the mapping; its bytes are the same.
\<close>

text \<open>
  A call over the connection: the client's callback server handles the request; if it panics the
  connection goes down and the call fails (the response is lost).
\<close>

definition client_rpc ::
  "cubeb_abi \<Rightarrow> 'w app_callbacks \<Rightarrow> ('w callback_server \<times> 'w client_thread) callback_rpc" where
  "client_rpc K A req bytes st = (case st of (cs, t) \<Rightarrow>
     (case callback_process K A req (cs\<lparr>cs_shm := (cs_shm cs)\<lparr>shm_bytes := bytes\<rparr>\<rparr>, t) of (r, cs', t') \<Rightarrow>
        (if r = Panic then Err (io_other ''proxy recv error'') else r, shm_bytes (cs_shm cs'), cs', t')))"

text \<open>The two ends of one stream: the same frame sizes and the same size of the shared memory.\<close>

definition stream_ends :: "server_stream_callbacks \<Rightarrow> 'w callback_server \<Rightarrow> bool" where
  "stream_ends cbs cs \<longleftrightarrow> cbs_inv cbs \<and> callback_server_inv cs \<and>
     input_frame_size cs = scb_input_frame_size cbs \<and> output_frame_size cs = scb_output_frame_size cbs \<and>
     shm_size (cs_shm cs) = shm_size (scb_shm cbs)"

lemma frame_bytes_or_zero: "frame_bytes fs = unat (or_zero fs)"
  by (simp add: frame_bytes_def or_zero_def split: option.splits)

lemma sframes_le:
  fixes r nframes :: isize
  assumes "0 \<le> sint r" and "sint r \<le> sint nframes"
  shows "unat r \<le> unat nframes"
  using assms uint_of_nonneg_sint [of r] uint_of_nonneg_sint [of nframes]
  by (simp flip: nat_uint_eq add: nat_mono)

lemma copy_output_frames:
  assumes inv: "cbs_inv cbs" and n: "0 \<le> sint nframes"
    and len: "length out = unat nframes * frame_bytes (scb_output_frame_size cbs)"
      "length out \<le> unat (shm_size (scb_shm cbs))"
  shows "copy_output K cbs out nframes (Ok (RespData r)) =
     (if 0 \<le> sint r \<and> sint r \<le> sint nframes then
        (Ok r, (case scb_output_frame_size cbs of
           None \<Rightarrow> out
         | Some fs \<Rightarrow> take (unat r * unat fs) (shm_bytes (scb_shm cbs)) @ drop (unat r * unat fs) out))
      else (Ok (cubeb_error_frames K), out))"
proof (cases "0 \<le> sint r \<and> sint r \<le> sint nframes")
  case False
  then show ?thesis by (auto simp: copy_output_def Let_def not_le)
next
  case True
  then have le: "unat r \<le> unat nframes" by (blast intro: sframes_le)
  show ?thesis
  proof (cases "scb_output_frame_size cbs")
    case None
    with True show ?thesis by (simp add: copy_output_def usize_of_isize_def)
  next
    case (Some fs)
    with len le have b: "unat r * unat fs \<le> length out" by (simp add: frame_bytes_def)
    with len have "unat r * unat fs < 2 ^ 64" using unat_lt_2p [of "shm_size (scb_shm cbs)"] by simp
    moreover from this have "unat (r * fs) = unat r * unat fs" by (rule unat_mult_small)
    ultimately show ?thesis using True Some b len inv
      by (simp add: copy_output_def usize_of_isize_def checked_mul_def get_slice_def get_size_def
          word_le_nat_alt word_less_nat_alt)
  qed
qed

text \<open>The client's half of a data callback: what it answers, and what it leaves in the shared memory.\<close>

lemma client_answers:
  assumes ends: "stream_ends cbs cs" and idle: "\<not> in_callback t"
    and A: "app_contract A" "data_cb A = Some cb"
    and n: "0 < sint nframes"
    and shm: "shm_inv shm" "shm_size shm = shm_size (scb_shm cbs)"
      "scb_input_frame_size cbs \<noteq> None \<Longrightarrow> take (length input) (shm_bytes shm) = input"
    and input: "length input = unat nframes * frame_bytes (scb_input_frame_size cbs)"
      "length input \<le> unat (shm_size (scb_shm cbs))"
    and out: "olen = unat nframes * frame_bytes (scb_output_frame_size cbs)"
      "olen \<le> unat (shm_size (scb_shm cbs))"
    and run: "cb (if scb_input_frame_size cbs = None then None else Some input)
        (if scb_output_frame_size cbs = None then None else Some (take olen (shm_bytes shm))) nframes (app t)
       = (r, written, w)"
  obtains cs' where
    "client_rpc K A (ReqData nframes) (shm_bytes shm) (cs, t)
      = (Ok (RespData r), shm_bytes (cs_shm cs'), cs', t\<lparr>app := w\<rparr>)"
    "callback_server_inv cs'" "input_frame_size cs' = scb_input_frame_size cbs"
    "output_frame_size cs' = scb_output_frame_size cbs" "shm_size (cs_shm cs') = shm_size shm"
    "shm_bytes (cs_shm cs') = (if scb_output_frame_size cbs = None then shm_bytes shm
       else written @ drop olen (shm_bytes shm))"
proof -
  have sizes: "input_frame_size cs = scb_input_frame_size cbs"
    "output_frame_size cs = scb_output_frame_size cbs" "shm_size (cs_shm cs) = shm_size (scb_shm cbs)"
    using ends by (auto simp: stream_ends_def)
  define cs1 where "cs1 = cs\<lparr>cs_shm := (cs_shm cs)\<lparr>shm_bytes := shm_bytes shm\<rparr>\<rparr>"
  have inv1: "callback_server_inv cs1"
    using ends shm sizes by (auto simp: stream_ends_def callback_server_inv_def cs1_def shm_inv_def split: option.splits)
  have nb: "unat nframes * unat (or_zero (input_frame_size cs1)) = length input"
    "unat nframes * unat (or_zero (output_frame_size cs1)) = olen"
    using input out sizes by (simp_all add: cs1_def frame_bytes_or_zero)
  have nz: "nframes \<noteq> 0" and n0: "0 \<le> sint nframes" using n by auto
  have inp: "(if input_frame_size cs1 = None then None else Some (take (length input) (shm_bytes (cs_shm cs1)))) =
      (if scb_input_frame_size cbs = None then None else Some input)"
    using shm(3) sizes by (auto simp: cs1_def)
  have outp: "(if output_frame_size cs1 = None then None else Some (take olen (shm_bytes (cs_shm cs1)))) =
      (if scb_output_frame_size cbs = None then None else Some (take olen (shm_bytes shm)))"
    using sizes by (simp add: cs1_def)
  have "\<exists>cs'. callback_data K A nframes (cs1, t) = (Ok (RespData r), cs', t\<lparr>app := w\<rparr>) \<and>
     callback_server_inv cs' \<and> input_frame_size cs' = input_frame_size cs1 \<and>
     output_frame_size cs' = output_frame_size cs1 \<and> (duplex_input cs' = None \<longleftrightarrow> duplex_input cs1 = None) \<and>
     cs_shm cs' = (cs_shm cs1)\<lparr>shm_bytes :=
       if output_frame_size cs1 = None then shm_bytes (cs_shm cs1)
       else written @ drop olen (shm_bytes (cs_shm cs1))\<rparr>"
    unfolding nb(2) [symmetric]
    by (rule callback_data_run [OF inv1 idle n0 _ _ nz A(2,1)], unfold nb inp outp)
      (use run input(2) out(2) sizes(3) in \<open>simp_all add: cs1_def\<close>)
  then show thesis
    using sizes shm(2) by (auto simp: client_rpc_def callback_process_def cs1_def intro!: that)
qed

text \<open>The server's half: what it makes of the client's answer.\<close>

lemma server_takes_answer:
  assumes conn: "connected cbs" and copied: "copy_input cbs input = Ok shm"
    and call: "rpc (ReqData nframes) (shm_bytes shm) c = (Ok (RespData r), mem, c')"
    and inv: "cbs_inv (cbs\<lparr>scb_shm := shm\<lparr>shm_bytes := mem\<rparr>\<rparr>)" "shm_size shm = shm_size (scb_shm cbs)"
    and n: "0 < sint nframes" and input: "length input \<le> unat (shm_size (scb_shm cbs))"
    and out: "length out = unat nframes * frame_bytes (scb_output_frame_size cbs)"
      "length out \<le> unat (shm_size (scb_shm cbs))" "scb_output_frame_size cbs \<noteq> Some 0"
  shows "data_callback K rpc cbs input out nframes c =
     (Ok (if 0 \<le> sint r \<and> sint r \<le> sint nframes then r else cubeb_error_frames K),
      cbs\<lparr>scb_shm := shm\<lparr>shm_bytes := mem\<rparr>\<rparr>,
      (if 0 \<le> sint r \<and> sint r \<le> sint nframes
       then (case scb_output_frame_size cbs of None \<Rightarrow> out
         | Some fs \<Rightarrow> take (unat r * unat fs) mem @ drop (unat r * unat fs) out)
       else out), c')"
proof -
  let ?cbs = "cbs\<lparr>scb_shm := shm\<lparr>shm_bytes := mem\<rparr>\<rparr>"
  have nz: "nframes \<noteq> 0" and n0: "0 \<le> sint nframes" using n by auto
  have nonempty: "scb_output_frame_size cbs \<noteq> None \<Longrightarrow> out \<noteq> []"
    using out nz by (auto simp: frame_bytes_def unat_eq_0)
  have db: "data_callback K rpc cbs input out nframes c =
     (case copy_output K ?cbs out nframes (Ok (RespData r)) of (r, out') \<Rightarrow> (r, ?cbs, out', c'))"
    using conn input out(2) nonempty nz copied inv(2) call
    by (auto simp: data_callback_def Let_def get_size_def)
  have co: "copy_output K ?cbs out nframes (Ok (RespData r)) =
     (if 0 \<le> sint r \<and> sint r \<le> sint nframes then
        (Ok r, (case scb_output_frame_size cbs of
           None \<Rightarrow> out
         | Some fs \<Rightarrow> take (unat r * unat fs) mem @ drop (unat r * unat fs) out))
      else (Ok (cubeb_error_frames K), out))"
    using copy_output_frames [OF inv(1) n0, of out K r] out inv(2)
    by (cases "scb_output_frame_size cbs") simp_all
  show ?thesis unfolding db co by simp
qed

text \<open>The run of one data callback through both ends.\<close>

lemma data_callback_run:
  assumes ends: "stream_ends cbs cs" and conn: "connected cbs" and idle: "\<not> in_callback t"
    and A: "app_contract A" "data_cb A = Some cb"
    and n: "0 < sint nframes"
    and input: "length input = unat nframes * frame_bytes (scb_input_frame_size cbs)"
      "length input \<le> unat (shm_size (scb_shm cbs))"
    and out: "length out = unat nframes * frame_bytes (scb_output_frame_size cbs)"
      "length out \<le> unat (shm_size (scb_shm cbs))" "scb_output_frame_size cbs \<noteq> Some 0"
  shows "\<exists>mem r written w frames cbs' out' cs'.
     cb (if scb_input_frame_size cbs = None then None else Some input)
        (if scb_output_frame_size cbs = None then None else Some (take (length out) mem)) nframes (app t)
       = (r, written, w) \<and> length mem = unat (shm_size (scb_shm cbs)) \<and>
     data_callback K (client_rpc K A) cbs input out nframes (cs, t)
       = (Ok frames, cbs', out', cs', t\<lparr>app := w\<rparr>) \<and> stream_ends cbs' cs' \<and>
     (if 0 \<le> sint r \<and> sint r \<le> sint nframes
      then frames = r \<and> out' = (case scb_output_frame_size cbs of
             None \<Rightarrow> out | Some fs \<Rightarrow> take (unat r * unat fs) written @ drop (unat r * unat fs) out)
      else frames = cubeb_error_frames K \<and> out' = out)"
proof -
  have inv: "cbs_inv cbs" using ends by (simp add: stream_ends_def)
  obtain shm where shm: "copy_input cbs input = Ok shm" "shm_inv shm" "shm_size shm = shm_size (scb_shm cbs)"
    "scb_input_frame_size cbs \<noteq> None \<Longrightarrow> take (length input) (shm_bytes shm) = input"
    using copy_input_cases [OF inv, of input] input by (metis append_eq_conv_conj get_size_def)
  obtain r written w where run: "cb (if scb_input_frame_size cbs = None then None else Some input)
        (if scb_output_frame_size cbs = None then None else Some (take (length out) (shm_bytes shm))) nframes (app t)
       = (r, written, w)" by (metis prod.exhaust)
  obtain cs' where cs': "client_rpc K A (ReqData nframes) (shm_bytes shm) (cs, t)
      = (Ok (RespData r), shm_bytes (cs_shm cs'), cs', t\<lparr>app := w\<rparr>)"
    "callback_server_inv cs'" "input_frame_size cs' = scb_input_frame_size cbs"
    "output_frame_size cs' = scb_output_frame_size cbs" "shm_size (cs_shm cs') = shm_size shm"
    "shm_bytes (cs_shm cs') = (if scb_output_frame_size cbs = None then shm_bytes shm
       else written @ drop (length out) (shm_bytes shm))"
    by (rule client_answers [OF ends idle A n shm(2,3) shm(4) input out(1,2) run])
  let ?cbs = "cbs\<lparr>scb_shm := shm\<lparr>shm_bytes := shm_bytes (cs_shm cs')\<rparr>\<rparr>"
  have inv2: "cbs_inv ?cbs" and ends2: "stream_ends ?cbs cs'"
    using cs' by (auto simp: cbs_inv_def callback_server_inv_def shm_inv_def stream_ends_def)
  have mem: "length (shm_bytes shm) = unat (shm_size (scb_shm cbs))" using shm by (simp add: shm_inv_def)
  have take: "take (unat r * unat fs) (shm_bytes (cs_shm cs')) = take (unat r * unat fs) written"
    if "scb_output_frame_size cbs = Some fs" and r: "0 \<le> sint r" "sint r \<le> sint nframes" for fs
  proof -
    have "length written = length (take (length out) (shm_bytes shm))"
      using A that(1) run by (fastforce simp: app_contract_def split: prod.splits)
    then have "length written = length out" using mem out by simp
    moreover have "unat r * unat fs \<le> length out"
      using sframes_le [OF r] out(1) that(1) by (simp add: frame_bytes_def)
    ultimately show ?thesis using cs'(6) that(1) by simp
  qed
  note db = server_takes_answer [where rpc = "client_rpc K A" and mem = "shm_bytes (cs_shm cs')" and K = K,
      OF conn shm(1) cs'(1) inv2 shm(3) n input(2) out]
  show ?thesis
    by (intro exI conjI, rule run, rule mem, rule db, rule ends2)
      (use take in \<open>auto split: option.split\<close>)
qed

text \<open>
  A data callback of the server, for frames that fit the shared memory, runs the application's data
  callback exactly once: on exactly the input cubeb delivered, and with room for exactly the output
  cubeb asked for.  When the application returns between 0 and \<open>nframes\<close> frames, the server returns
  that number, cubeb's output buffer begins with the frames the application wrote, and the rest of the buffer is
  as before; any other result is reported as an error with the output untouched.
\<close>

theorem audio_path:
  assumes "stream_ends cbs cs" and "connected cbs" and "\<not> in_callback t"
    and "app_contract A" "data_cb A = Some cb"
    and "0 < sint nframes"
    and "length input = unat nframes * frame_bytes (scb_input_frame_size cbs)"
      "length input \<le> unat (shm_size (scb_shm cbs))"
    and "length out = unat nframes * frame_bytes (scb_output_frame_size cbs)"
      "length out \<le> unat (shm_size (scb_shm cbs))" "scb_output_frame_size cbs \<noteq> Some 0"
  shows "\<exists>mem r written w frames cbs' out' cs'.
     cb (if scb_input_frame_size cbs = None then None else Some input)
        (if scb_output_frame_size cbs = None then None else Some (take (length out) mem)) nframes (app t)
       = (r, written, w) \<and> length mem = unat (shm_size (scb_shm cbs)) \<and>
     data_callback K (client_rpc K A) cbs input out nframes (cs, t)
       = (Ok frames, cbs', out', cs', t\<lparr>app := w\<rparr>) \<and> stream_ends cbs' cs' \<and>
     (if 0 \<le> sint r \<and> sint r \<le> sint nframes
      then frames = r \<and> out' = (case scb_output_frame_size cbs of
             None \<Rightarrow> out | Some fs \<Rightarrow> take (unat r * unat fs) written @ drop (unat r * unat fs) out)
      else frames = cubeb_error_frames K \<and> out' = out)"
  by (rule data_callback_run [OF assms])

text \<open>The other end of the duplex stream of \<open>demo_callback_server\<close>.\<close>

definition demo_duplex :: server_stream_callbacks where
  "demo_duplex = \<lparr>scb_input_frame_size = Some 2, scb_output_frame_size = Some 2,
     scb_shm = \<lparr>shm_file = 5, shm_size = 4, shm_bytes = [0, 0, 0, 0]\<rparr>, scb_rpc = 1, connected = True\<rparr>"

theorem audio_path_witness:
  "\<exists>cbs' cs'. data_callback cubeb_h (client_rpc cubeb_h demo_app) demo_duplex [5, 6] [0, 0] 1
      (demo_callback_server, \<lparr>in_callback = False, app = 0\<rparr>)
    = (Ok 1, cbs', [9, 9], cs', \<lparr>in_callback = False, app = 1\<rparr>) \<and> stream_ends cbs' cs'"
proof -
  have ends: "stream_ends demo_duplex demo_callback_server"
    using demo_callback_server_inv
    by (simp add: stream_ends_def cbs_inv_def shm_inv_def demo_duplex_def demo_callback_server_def)
  have "data_cb demo_app = Some (\<lambda>inp out n w. (n, replicate (case out of None \<Rightarrow> 0 | Some mem \<Rightarrow> length mem) 9, w + 1))"
    by (simp add: demo_app_def)
  from audio_path [OF ends _ _ demo_app_contract this, where t = "\<lparr>in_callback = False, app = 0\<rparr>"
      and K = cubeb_h and nframes = 1 and input = "[5, 6]" and out = "[0, 0]"]
  moreover have "replicate 2 (9 :: byte) = [9, 9]" by (simp add: numeral_2_eq_2)
  moreover have "scb_input_frame_size demo_duplex = Some 2" "scb_output_frame_size demo_duplex = Some 2"
    "shm_size (scb_shm demo_duplex) = 4" "connected demo_duplex" by (simp_all add: demo_duplex_def)
  ultimately show ?thesis by (auto simp: frame_bytes_def)
qed

end
