(* ===== verification/Remote.thy ===== *)
theory Remote
  imports ClientContext ServerSpec AudioPath
begin

text \<open>
  The client on a server: the client's calls are the server's requests.  That the responses come back in order with
  their descriptors is proved in \<open>Connection\<close> and \<open>RpcSystem\<close>; here a call runs the server's \<open>process\<close> on its thread and
  returns the response as the client receives it (\<open>cm_received\<close>).  A server that panicked answers no call.
\<close>

section \<open>Calls\<close>

text \<open>\<open>fd\<close> is the descriptor under which the client's kernel installs the handle of a response.\<close>

definition served_call ::
  "cubeb_abi \<Rightarrow> 'w cubeb_ops \<Rightarrow> 'w server_env \<Rightarrow> ('s, server_stream) slab \<Rightarrow> (('s, 'w) server_st \<Rightarrow> handle) \<Rightarrow>
   server_message \<Rightarrow> ('s, 'w) server_st option \<Rightarrow>
   (io_error, serializable_handle client_message) res \<times> ('s, 'w) server_st option" where
  "served_call K C SE S fd m server = (case server of
     None \<Rightarrow> (Err (io_other ''proxy recv error''), None)
   | Some sst \<Rightarrow> (case server_process K C SE S m sst of
        (Ok resp, sst') \<Rightarrow> (Ok (cm_received resp (fd sst')), Some sst')
      | (_, sst') \<Rightarrow> (Err (io_other ''proxy recv error''), None)))"

text \<open>
  A client environment on the server: its calls are served, its other operations leave the server alone, and
  memory that was reserved is as long as asked for.  The client's own world is the second component.
\<close>

definition keeps_server :: "('x \<times> 'v \<Rightarrow> 'r \<times> 'x \<times> 'v) \<Rightarrow> bool" where
  "keeps_server f \<longleftrightarrow> (\<forall>x v. fst (snd (f (x, v))) = x)"

definition served ::
  "cubeb_abi \<Rightarrow> 'w cubeb_ops \<Rightarrow> 'w server_env \<Rightarrow> ('s, server_stream) slab \<Rightarrow> (('s, 'w) server_st \<Rightarrow> handle) \<Rightarrow>
   (('s, 'w) server_st option \<times> 'v) client_env \<Rightarrow> bool" where
  "served K C SE S fd E \<longleftrightarrow>
     (\<forall>m x v. ce_call E m (x, v) = (case served_call K C SE S fd m x of (r, x') \<Rightarrow> (r, x', v))) \<and>
     (\<forall>h n. keeps_server (os_mmap (ce_os E) h n)) \<and>
     (\<forall>n. keeps_server (ce_reserve E n)) \<and> (\<forall>n w buf w'. ce_reserve E n w = (Some buf, w') \<longrightarrow> unat n \<le> length buf) \<and>
     keeps_server (ce_new_arc E) \<and> (\<forall>h. keeps_server (ce_bind_server E h))"

lemma served_ce_call: "served K C SE S fd E \<Longrightarrow>
  ce_call E m (x, v) = (case served_call K C SE S fd m x of (r, x') \<Rightarrow> (r, x', v))"
  by (simp add: served_def)

section \<open>The remote backend is the local one\<close>

text \<open>The response to an operation of cubeb, read by the client, is the operation's own result.\<close>

lemma recv_reply:
  assumes "cubeb_abi_contract K" and "\<And>v. want (cm_received (f v) h) = Some (g v)"
    and "\<And>c. want (ErrorMsg c) = None" and "r \<noteq> Panic"
  shows "recv_response K want (map_ok (\<lambda>m. cm_received m h) (unwrap_or_else (error_message K) (map_ok f r) :: (io_error, _) res))
     = map_ok g r"
proof (cases r)
  case (Err e)
  with assms show ?thesis
    by (simp add: recv_response_def error_message_def cm_received_def err_of_def)
qed (use assms in \<open>simp_all add: recv_response_def\<close>)

text \<open>
  \<open>run_local f st\<close>: the operation \<open>f\<close> of cubeb run by the server for the client \<open>st\<close>, as if the client called it.
\<close>

definition run_local ::
  "('w \<Rightarrow> ('e, 'r) res \<times> 'w) \<Rightarrow> ('a, ('s, 'w) server_st option \<times> 'v) client_st \<Rightarrow>
   ('e, 'r) res \<times> ('a, ('s, 'w) server_st option \<times> 'v) client_st" where
  "run_local f st = (case outside st of
     (Some sst, v) \<Rightarrow> (case f (world sst) of (r, w) \<Rightarrow> (r, st\<lparr>outside := (Some (sst\<lparr>world := w\<rparr>), v)\<rparr>))
   | (None, v) \<Rightarrow> (Panic, st))"

text \<open>A client outside callbacks whose server is up, with its cubeb context made.\<close>

definition online ::
  "cubeb_abi \<Rightarrow> ('s, server_stream) slab \<Rightarrow> ('a, ('s, 'w) server_st option \<times> 'v) client_st \<Rightarrow> ('s, 'w) server_st \<Rightarrow> bool" where
  "online K S st sst \<longleftrightarrow> \<not> in_callback (caller st) \<and> fst (outside st) = Some sst \<and> local_context sst = Some (Ok ()) \<and>
     server_inv K S (sv sst)"

lemma onlineE:
  assumes "online K S st sst"
  obtains v where "outside st = (Some sst, v)" and "\<not> in_callback (caller st)"
    and "with_local_context C sst = (Ok (), sst)"
  using assms by (cases "outside st") (auto simp: online_def context_ready)

lemma guarded_idle [simp]: "\<not> in_callback (caller st) \<Longrightarrow> guarded f st = f st"
  by (simp add: guarded_def assert_not_in_callback_def)

lemma send_recv_reply:
  assumes K: "cubeb_abi_contract K" and E: "served K C SE S fd E" and up: "online K S st sst"
    and m: "process_msg K C SE S m sst = reply K f (on_world oper sst)"
    and want: "\<And>v h. want (cm_received (f v) h) = Some (g v)" "\<And>c. want (ErrorMsg c) = None"
    and np: "no_panic oper"
  shows "send_recv K E m want st = (case run_local oper st of (r, st') \<Rightarrow> (map_ok g r, st'))"
proof -
  obtain v where o: "outside st = (Some sst, v)" "with_local_context C sst = (Ok (), sst)"
    using up by (rule onlineE)
  obtain r w where r: "oper (world sst) = (r, w)" by fastforce
  then have "r \<noteq> Panic" using np by (metis no_panic_def fst_conv)
  let ?sst = "sst\<lparr>world := w\<rparr>"
  have p: "server_process K C SE S m sst = (unwrap_or_else (error_message K) (map_ok f r), ?sst)"
    using o m r by (simp add: server_process_def reply_def on_world_def)
  moreover obtain resp where resp: "unwrap_or_else (error_message K) (map_ok f r) = (Ok resp :: (io_error, _) res)"
    using \<open>r \<noteq> Panic\<close> by (cases r) auto
  moreover have "recv_response K want
      (map_ok (\<lambda>m. cm_received m (fd ?sst)) (unwrap_or_else (error_message K) (map_ok f r) :: (io_error, _) res)) = map_ok g r"
    by (rule recv_reply [OF K]) (use want \<open>r \<noteq> Panic\<close> in simp_all)
  ultimately show ?thesis using o r served_ce_call [OF E, of m "Some sst" v]
    by (simp add: send_recv_def served_call_def run_local_def)
qed

lemma map_ok_id [simp]: "map_ok (\<lambda>x. x) r = r"
  by (cases r) simp_all

lemma map_ok_unit [simp]: "map_ok (\<lambda>_. ()) r = r"
  by (cases r) simp_all

lemma map_ok_comp: "map_ok f (map_ok g r) = map_ok (\<lambda>x. f (g x)) r"
  by (cases r) simp_all

text \<open>The same for an operation of a stream that is initialized; most of them have no value.\<close>

lemma stream_op_reply:
  assumes K: "cubeb_abi_contract K" and E: "served K C SE S fd E" and up: "online K S st sst"
    and ss: "sl_get S (streams (sv sst)) t = Some ss" "ss_stream ss = Some x"
    and m: "process_msg K C SE S m sst = try_stream K S t oper f sst"
    and np: "no_panic (oper x)"
    and want: "\<And>v h. want (cm_received (f v) h) = Some (g v)" "\<And>c. want (ErrorMsg c) = None"
  shows "guarded (send_recv K E m want) st = (case run_local (oper x) st of (r, st') \<Rightarrow> (map_ok g r, st'))"
proof -
  have "process_msg K C SE S m sst = reply K f (on_world (oper x) sst)"
    using m ss by (simp add: try_stream_def)
  from send_recv_reply [OF K E up this want np] up show ?thesis by (simp add: online_def)
qed

lemma stream_op_unit:
  assumes K: "cubeb_abi_contract K" and E: "served K C SE S fd E" and up: "online K S st sst"
    and ss: "sl_get S (streams (sv sst)) t = Some ss" "ss_stream ss = Some x"
    and m: "process_msg K C SE S m sst = try_stream K S t oper (\<lambda>_ :: unit. resp) sst"
    and np: "no_panic (oper x)" and resp: "set_client_message resp = {}" "\<And>c. resp \<noteq> ErrorMsg c"
  shows "guarded (send_recv K E m (expect resp)) st = run_local (oper x) st"
proof -
  have "cm_received resp h = resp" for h
    using client_message.map_cong0 [of resp "\<lambda>_. Owned h None" id] resp(1)
    by (simp add: cm_received_def client_message.map_id)
  moreover have "ErrorMsg c \<noteq> resp" for c using resp(2) [of c] by metis
  ultimately have "guarded (send_recv K E m (expect resp)) st = (case run_local (oper x) st of (r, st') \<Rightarrow> (map_ok (\<lambda>v. v) r, st'))"
    by (intro stream_op_reply [OF K E up ss m np]) (simp_all add: expect_def)
  then show ?thesis by simp
qed

lemma cubeb_stream_safe:
  assumes "cubeb_contract C"
  shows "no_panic (stm_start C x)" "no_panic (stm_stop C x)" "no_panic (stm_position C x)" "no_panic (stm_latency C x)"
    "no_panic (stm_input_latency C x)" "no_panic (stm_set_volume C x v)" "no_panic (stm_set_name C x n)"
    "no_panic (stm_current_device C x)" "no_panic (stm_set_input_mute C x b)"
    "no_panic (stm_set_input_processing_params C x p)" "no_panic (stm_register_device_changed C x b)"
  using assms by (simp_all add: cubeb_contract_def)

text \<open>
  C8: on a stream that is initialized, every operation of the client is the same operation of the server's
  cubeb stream: the same result, value or error, and the same effect on the world, in one call and
  nothing else.  The names of the current device are C strings allocated anew; a device-change
  callback is registered with cubeb exactly if the client gives one.
\<close>

theorem remote_stream_ops:
  assumes K: "cubeb_abi_contract K" and C: "cubeb_contract C" and E: "served K C SE S fd E"
    and up: "online K S st sst"
    and ss: "sl_get S (streams (sv sst)) (st_token s) = Some ss" "ss_stream ss = Some x"
  shows "stream_start K E s st = run_local (stm_start C x) st \<and>
    stream_stop K E s st = run_local (stm_stop C x) st \<and>
    stream_position K E s st = run_local (stm_position C x) st \<and>
    stream_latency_op K E s st = run_local (stm_latency C x) st \<and>
    stream_input_latency K E s st = run_local (stm_input_latency C x) st \<and>
    stream_set_volume K E s volume st = run_local (stm_set_volume C x volume) st \<and>
    stream_set_name K E s name st = run_local (stm_set_name C x name) st \<and>
    stream_current_device K E s st =
      (case run_local (stm_current_device C x) st of (r, st') \<Rightarrow> (map_ok (\<lambda>d. ffi_of_device (device_of_ffi d)) r, st')) \<and>
    stream_set_input_mute K E s mute st = run_local (stm_set_input_mute C x mute) st \<and>
    stream_set_input_processing_params K E s p st =
      run_local (stm_set_input_processing_params C x (input_processing_truncate C p)) st \<and>
    stream_register_device_changed K E s cb st =
      run_local (stm_register_device_changed C x (cb \<noteq> None))
        (set_device_change_cb (st_cell s) (map_option (\<lambda>f. f (st_user_ptr s)) cb) st)"
proof -
  note u = stream_op_unit [OF K E up ss] and r = stream_op_reply [OF K E up ss] and safe = cubeb_stream_safe [OF C]
  note defs = process_msg_def process_stream_msg_def
  have idle: "\<not> in_callback (caller st)" using up by (simp add: online_def)
  have 1: "stream_start K E s st = run_local (stm_start C x) st"
    unfolding stream_start_def by (rule u) (simp_all add: defs safe)
  have 2: "stream_stop K E s st = run_local (stm_stop C x) st"
    unfolding stream_stop_def by (rule u) (simp_all add: defs safe)
  have 3: "stream_position K E s st = run_local (stm_position C x) st"
    using r [of "StreamGetPosition (st_token s)" "stm_position C" StreamPosition
        "\<lambda>m. case m of StreamPosition v \<Rightarrow> Some v | _ \<Rightarrow> None" "\<lambda>v. v"]
    by (simp add: stream_position_def defs safe cm_received_def)
  have 4: "stream_latency_op K E s st = run_local (stm_latency C x) st"
    using r [of "StreamGetLatency (st_token s)" "stm_latency C" StreamLatency
        "\<lambda>m. case m of StreamLatency v \<Rightarrow> Some v | _ \<Rightarrow> None" "\<lambda>v. v"]
    by (simp add: stream_latency_op_def defs safe cm_received_def)
  have 5: "stream_input_latency K E s st = run_local (stm_input_latency C x) st"
    using r [of "StreamGetInputLatency (st_token s)" "stm_input_latency C" StreamInputLatency
        "\<lambda>m. case m of StreamInputLatency v \<Rightarrow> Some v | _ \<Rightarrow> None" "\<lambda>v. v"]
    by (simp add: stream_input_latency_def defs safe cm_received_def)
  have 6: "stream_set_volume K E s volume st = run_local (stm_set_volume C x volume) st"
    unfolding stream_set_volume_def by (rule u) (simp_all add: defs safe)
  have 7: "stream_set_name K E s name st = run_local (stm_set_name C x name) st"
    unfolding stream_set_name_def by (rule u) (simp_all add: defs safe)
  have 9: "stream_set_input_mute K E s mute st = run_local (stm_set_input_mute C x mute) st"
    unfolding stream_set_input_mute_def by (rule u) (simp_all add: defs safe)
  have 10: "stream_set_input_processing_params K E s p st =
      run_local (stm_set_input_processing_params C x (input_processing_truncate C p)) st"
    unfolding stream_set_input_processing_params_def
    by (rule u [where oper = "\<lambda>y. stm_set_input_processing_params C y (input_processing_truncate C p)"])
      (simp_all add: defs safe)
  have 8: "stream_current_device K E s st =
      (case run_local (stm_current_device C x) st of (r, st') \<Rightarrow> (map_ok (\<lambda>d. ffi_of_device (device_of_ffi d)) r, st'))"
    using r [of "StreamGetCurrentDevice (st_token s)" "stm_current_device C" "\<lambda>d. StreamCurrentDevice (device_of_ffi d)"
        "\<lambda>m. case m of StreamCurrentDevice d \<Rightarrow> Some d | _ \<Rightarrow> None" "device_of_ffi"] idle
    by (simp add: stream_current_device_def defs safe cm_received_def map_ok_comp split: prod.splits)
  have up2: "online K S (set_device_change_cb c d st) sst" for c d
    using up by (simp add: online_def set_device_change_cb_def split: option.splits prod.splits)
  have 11: "stream_register_device_changed K E s cb st =
      run_local (stm_register_device_changed C x (cb \<noteq> None))
        (set_device_change_cb (st_cell s) (map_option (\<lambda>f. f (st_user_ptr s)) cb) st)"
    using stream_op_unit [OF K E up2 ss, where m = "StreamRegisterDeviceChangeCallback (st_token s) (cb \<noteq> None)"
        and oper = "\<lambda>y. stm_register_device_changed C y (cb \<noteq> None)" and resp = StreamRegisterDeviceChangeCallbackDone]
      up2 idle
    by (simp add: stream_register_device_changed_def defs safe online_def)
  show ?thesis using 1 2 3 4 5 6 7 8 9 10 11 by (intro conjI)
qed

section \<open>The context\<close>

lemma cubeb_context_safe:
  assumes "cubeb_contract C"
  shows "no_panic (ctx_max_channel_count C)" "no_panic (ctx_min_latency C f r c l)"
    "no_panic (ctx_preferred_sample_rate C)" "no_panic (ctx_supported_input_processing_params C)"
    "no_panic (ctx_enumerate_devices C d)"
  using assms by (simp_all add: cubeb_contract_def)

text \<open>The queries without an effect on the server, like those of a stream.\<close>

lemma remote_context_queries:
  assumes K: "cubeb_abi_contract K" and C: "cubeb_contract C" and E: "served K C SE S fd E"
    and up: "online K S st sst"
  shows "context_max_channel_count K E st = run_local (ctx_max_channel_count C) st" (is ?A)
    and "context_min_latency K E p st = run_local (ctx_min_latency C (sample_format_of K (format p)) (rate p) (channels p)
       (channel_layout_of C (layout p))) st" (is ?B)
    and "context_preferred_sample_rate K E st = run_local (ctx_preferred_sample_rate C) st" (is ?C)
    and "context_supported_input_processing_params K E st = (case run_local (ctx_supported_input_processing_params C) st of
       (r, st') \<Rightarrow> (map_ok (ce_input_processing_truncate E) r, st'))" (is ?D)
proof -
  have idle: "\<not> in_callback (caller st)" using up by (simp add: online_def)
  note r = send_recv_reply [OF K E up] and safe = cubeb_context_safe [OF C]
  show ?A
    using r [of ContextGetMaxChannelCount ContextMaxChannelCount "ctx_max_channel_count C"
        "\<lambda>m. case m of ContextMaxChannelCount v \<Rightarrow> Some v | _ \<Rightarrow> None" "\<lambda>v. v"] idle
    by (simp add: context_max_channel_count_def process_msg_def safe cm_received_def)
  show ?B
    using r [of "ContextGetMinLatency p" ContextMinLatency "ctx_min_latency C (sample_format_of K (format p)) (rate p)
         (channels p) (channel_layout_of C (layout p))"
        "\<lambda>m. case m of ContextMinLatency v \<Rightarrow> Some v | _ \<Rightarrow> None" "\<lambda>v. v"] idle
    by (simp add: context_min_latency_def process_msg_def safe cm_received_def)
  show ?C
    using r [of ContextGetPreferredSampleRate ContextPreferredSampleRate "ctx_preferred_sample_rate C"
        "\<lambda>m. case m of ContextPreferredSampleRate v \<Rightarrow> Some v | _ \<Rightarrow> None" "\<lambda>v. v"] idle
    by (simp add: context_preferred_sample_rate_def process_msg_def safe cm_received_def)
  show ?D
    using r [of ContextGetSupportedInputProcessingParams ContextSupportedInputProcessingParams
        "ctx_supported_input_processing_params C"
        "\<lambda>m. case m of ContextSupportedInputProcessingParams v \<Rightarrow> Some v | _ \<Rightarrow> None" "\<lambda>v. v"] idle
    by (simp add: context_supported_input_processing_params_def process_msg_def safe cm_received_def split: prod.splits)
qed

text \<open>An enumeration makes the handles of its devices one after the other.\<close>

lemma enumerated_devices_handles:
  assumes "make_handles devices (map cdi_devid infos) = (hs, devices')"
  shows "enumerated_devices devices infos =
    (map (\<lambda>(i, h). (device_info_of_ffi i)\<lparr>devid := h\<rparr>) (zip infos hs), devices')"
  using assms
proof (induction infos arbitrary: devices hs)
  case Nil
  then show ?case by simp
next
  case (Cons i infos)
  obtain h devices1 where h: "make_handle devices (cdi_devid i) = (h, devices1)" by fastforce
  obtain hs1 where hs: "make_handles devices1 (map cdi_devid infos) = (hs1, devices')" "hs = h # hs1"
    using Cons.prems h by (auto split: prod.splits)
  have "devid (device_info_of_ffi i) = cdi_devid i" by (simp add: device_info_of_ffi_def)
  with h hs Cons.IH [OF hs(1)] show ?case by (simp add: Let_def)
qed

text \<open>What the client's copy of a device holds: the same numbers, C strings allocated anew, and a handle.\<close>

definition client_device :: "cubeb_device_info \<Rightarrow> nat \<Rightarrow> cubeb_device_info" where
  "client_device i h = (ffi_of_device_info (device_info_of_ffi i))\<lparr>cdi_devid := h\<rparr>"

lemma client_device_eq: "ffi_of_device_info ((device_info_of_ffi i)\<lparr>devid := h\<rparr>) = client_device i h"
  by (simp add: client_device_def ffi_of_device_info_def device_info_of_ffi_def)

text \<open>A C string survives: what is read up to its terminator is copied and terminated again.\<close>

lemma c_string_copied: "opt_str (dup_str p) = map_option (\<lambda>mem. takeWhile (\<lambda>b. b \<noteq> 0) mem @ [0]) p"
  by (cases p) (auto simp: opt_str_def dup_str_def dest: set_takeWhileD)

text \<open>
  C20: the devices a client enumerates are the devices cubeb has, in order, with the same properties and names; the
  id of each is replaced by a handle, which the server maps back to that very device for as long as it
  lives (its map only grows).  Destroying the collection frees every string of it once.
\<close>

theorem remote_devices:
  assumes K: "cubeb_abi_contract K" and E: "served K C SE S fd E" and up: "online K S st sst"
    and infos: "ctx_enumerate_devices C (device_type_truncate K d) (world sst) = (Ok infos, w)"
    and o: "outside st = (Some sst, v)"
  shows "\<exists>hs devices. context_enumerate_devices K E d st = (Ok (map (\<lambda>(i, h). client_device i h) (zip infos hs)),
        st\<lparr>outside := (Some (sst\<lparr>world := w, sv := (sv sst)\<lparr>devidmap := devices\<rparr>\<rparr>), v)\<rparr>) \<and>
     length hs = length infos \<and>
     (\<forall>more hs' later. make_handles devices more = (hs', later) \<longrightarrow>
        map (handle_to_id later) hs = (map Ok (map cdi_devid infos) :: (unit, nat) res list)) \<and>
     (\<forall>i h. device_strings (client_device i h) =
        map (\<lambda>s. takeWhile (\<lambda>b. b \<noteq> 0) s @ [0]) (device_strings i))"
proof -
  obtain hs devices where hs: "make_handles (devidmap (sv sst)) (map cdi_devid infos) = (hs, devices)" by fastforce
  from up have ready: "with_local_context C sst = (Ok (), sst)" and idle: "\<not> in_callback (caller st)"
    by (simp_all add: online_def context_ready)
  let ?sst = "sst\<lparr>world := w, sv := (sv sst)\<lparr>devidmap := devices\<rparr>\<rparr>"
  let ?ds = "map (\<lambda>(i, h). (device_info_of_ffi i)\<lparr>devid := h\<rparr>) (zip infos hs)"
  have len: "length hs = length infos"
    and dev: "\<And>i. i < length infos \<Longrightarrow> hs ! i < length devices \<and> devices ! (hs ! i) = cdi_devid (infos ! i)"
    using make_handles_result [OF hs] by simp_all
  have "server_process K C SE S (ContextGetDeviceEnumeration d) sst = (Ok (ContextEnumeratedDevices ?ds), ?sst)"
    using ready infos enumerated_devices_handles [OF hs]
    by (simp add: server_process_def process_msg_def process_enumeration_def reply_def and_then_def on_world_def)
  then have "context_enumerate_devices K E d st = (Ok (map ffi_of_device_info ?ds), st\<lparr>outside := (Some ?sst, v)\<rparr>)"
    using idle o served_ce_call [OF E, of "ContextGetDeviceEnumeration d" "Some sst" v]
    by (simp add: context_enumerate_devices_def send_recv_def served_call_def recv_response_def cm_received_def)
  moreover have "map ffi_of_device_info ?ds = map (\<lambda>(i, h). client_device i h) (zip infos hs)"
    by (auto simp: client_device_eq)
  moreover have "map (handle_to_id later) hs = (map Ok (map cdi_devid infos) :: (unit, nat) res list)"
    if m: "make_handles devices more = (hs', later)" for more hs' later
  proof -
    obtain new where "later = devices @ new" using make_handles_result [OF m] by blast
    with dev len show ?thesis by (intro nth_equalityI) (auto simp: handle_to_id_def nth_append trans_less_add1)
  qed
  moreover have "device_strings (client_device i h) = map (\<lambda>s. takeWhile (\<lambda>b. b \<noteq> 0) s @ [0]) (device_strings i)" for i h
    by (simp add: device_strings_def client_device_def ffi_of_device_info_def device_info_of_ffi_def c_string_copied
        map_filter_simps split: option.splits)
  ultimately show ?thesis using len by (intro exI [of _ hs] exI [of _ devices] conjI allI impI) simp_all
qed

section \<open>Creating a stream\<close>

text \<open>A response other than an error comes from \<open>process_msg\<close>, run on the state with the cubeb context made.\<close>

lemma send_recv_process:
  assumes E: "served K C SE S fd E" and o: "outside st = (Some sst, v)"
    and sr: "send_recv K E m want st = (Ok r, st')" and want: "\<And>c. want (ErrorMsg c) = None"
  obtains resp sst0 sst' where "sv sst0 = sv sst" and "process_msg K C SE S m sst0 = (Ok resp, sst')"
    and "want (cm_received resp (fd sst')) = Some r" and "st' = st\<lparr>outside := (Some sst', v)\<rparr>"
proof -
  obtain q sst0 where q: "with_local_context C sst = (q, sst0)" by fastforce
  note s0 = with_local_context_sv [OF q]
  obtain p sst' where p: "server_process K C SE S m sst = (p, sst')" by fastforce
  note ce = served_ce_call [OF E, of m "Some sst" v]
  have err: "err_of K c \<noteq> Ok r" for c by (simp add: err_of_def split: option.splits)
  show thesis
  proof (cases p)
    case (Ok resp)
    then have rr: "recv_response K want (Ok (cm_received resp (fd sst'))) = Ok r" "st' = st\<lparr>outside := (Some sst', v)\<rparr>"
      using p sr o ce by (auto simp: send_recv_def served_call_def)
    then have w: "want (cm_received resp (fd sst')) = Some r"
      using err by (auto simp: recv_response_def split: option.splits client_message.splits)
    have "q = Ok ()"
    proof (cases q)
      case (Err e)
      then have "resp = ErrorMsg (error_code K CubebError)" using p q Ok by (simp add: server_process_def error_message_def)
      then show ?thesis using w want by (simp add: cm_received_def)
    qed (use p q Ok in \<open>simp_all add: server_process_def\<close>)
    then have "process_msg K C SE S m sst0 = (Ok resp, sst')" using p q Ok by (simp add: server_process_def)
    from that [OF s0 this w rr(2)] show thesis .
  qed (use p sr o ce err in \<open>simp_all add: send_recv_def served_call_def recv_response_def\<close>)
qed

lemma init_stream_Ok:
  assumes "init_stream C u p st = (Ok x, st')"
  obtains latency w' where "stream_latency p = (Ok latency :: (cubeb_error, u32) res)"
    and "input_device p < length (devidmap (sv st))" and "output_device p < length (devidmap (sv st))"
    and "ctx_stream_init C (Option.bind (stream_name p) cstr_from_bytes_with_nul)
      (devidmap (sv st) ! input_device p) (input_stream_params p) (devidmap (sv st) ! output_device p)
      (output_stream_params p) latency u (world st) = (Ok x, w')"
proof -
  obtain latency where l: "handle_to_id (devidmap (sv st)) (input_device p) \<noteq> (Panic :: (cubeb_error, nat) res)"
    "handle_to_id (devidmap (sv st)) (output_device p) \<noteq> (Panic :: (cubeb_error, nat) res)"
    "stream_latency p = (Ok latency :: (cubeb_error, u32) res)"
    using assms by (auto simp: init_stream_def and_then_Ok handle_to_id_def split: if_splits)
  then have "input_device p < length (devidmap (sv st))" "output_device p < length (devidmap (sv st))"
    by (auto simp: handle_to_id_def split: if_splits)
  with l(3) assms show thesis
    by (cases "ctx_stream_init C (Option.bind (stream_name p) cstr_from_bytes_with_nul)
        (devidmap (sv st) ! input_device p) (input_stream_params p) (devidmap (sv st) ! output_device p)
        (output_stream_params p) latency u (world st)")
      (auto simp: init_stream_def and_then_def handle_to_id_def on_world_def intro: that)
qed

lemma cstr_terminated: "0 \<notin> set n \<Longrightarrow> cstr_from_bytes_with_nul (n @ [0]) = Some n"
  by (simp add: cstr_from_bytes_with_nul_def)

lemma any_error_reply:
  assumes "any_error K m = (Ok resp, st)" and "\<And>c. resp \<noteq> ErrorMsg c"
  shows "m = (Ok resp, st)"
  using assms by (cases m; cases "fst m") (auto simp: any_error_def error_message_def)

lemma cm_received_error: "cm_received m h = ErrorMsg c \<longleftrightarrow> m = ErrorMsg c"
  by (cases m) (simp_all add: cm_received_def)

text \<open>What the server's two requests leave behind.\<close>

lemma created_by:
  assumes "process_msg K C SE S (StreamCreate params) sst = (Ok resp, sst')"
    and "want_created (cm_received resp h) = Some d"
  obtains shm rpc pipe where "validate_stream_create_params K params = Ok ()" and "shm_inv shm"
    and "valid_handle pipe" and "d = StreamCreateMk (sl_vacant_key S (streams (sv sst))) (Owned h None) (shm_size shm)"
    and "sv sst' = (sv sst)\<lparr>streams := sl_insert S (streams (sv sst)) (new_stream K params shm rpc pipe)\<rparr>"
    and "shm_size shm = shm_area_size_for K (configured_shm_size (sv sst)) params"
proof -
  have "any_error K (process_stream_create K SE S params sst) = (Ok resp, sst')"
    using assms(1) by (simp add: process_msg_def)
  moreover have "resp \<noteq> ErrorMsg c" for c using assms(2) by (auto simp: want_created_def cm_received_def)
  ultimately have "process_stream_create K SE S params sst = (Ok resp, sst')" by (rule any_error_reply)
  then show thesis
  proof (cases rule: process_stream_create_Ok)
    case (1 shm shm_fd client_pipe rpc pid)
    have d: "d = StreamCreateMk (sl_vacant_key S (streams (sv sst))) (Owned h None) (shm_size shm)"
      using assms(2) 1(5,7) by (simp add: want_created_def cm_received_def)
    show thesis by (rule that [OF 1(1,2,4) d 1(8,5)])
  qed
qed

lemma initialized_by:
  assumes S: "slab_contract S" and pid: "remote_pid (sv sst) \<noteq> None"
    and new: "sl_get S (streams (sv sst)) t = Some (new_stream K params shm rpc pipe)"
    and p: "process_msg K C SE S (StreamInit t) sst = (Ok resp, sst')" and want: "want_initialized (cm_received resp h) = Some d"
  obtains x latency w w' where "d = Owned h None"
    and "stream_latency params = (Ok latency :: (cubeb_error, u32) res)"
    and "input_device params < length (devidmap (sv sst))" and "output_device params < length (devidmap (sv sst))"
    and "ctx_stream_init C (Option.bind (stream_name params) cstr_from_bytes_with_nul)
      (devidmap (sv sst) ! input_device params) (input_stream_params params) (devidmap (sv sst) ! output_device params)
      (output_stream_params params) latency t w = (Ok x, w')"
    and "changed_stream S t (Some (initialized (new_stream K params shm rpc pipe) x)) (sv sst) (sv sst')"
proof -
  let ?ss = "new_stream K params shm rpc pipe"
  have fields: "ss_stream ?ss = None" "ss_params ?ss = Some params" "ss_client_pipe ?ss = Some pipe"
    by (simp_all add: new_stream_def)
  obtain q where q: "remote_pid (sv sst) = Some q" using pid by blast
  have "any_error K (process_stream_init K C SE S t sst) = (Ok resp, sst')"
    using p by (simp add: process_msg_def)
  moreover have "resp \<noteq> ErrorMsg c" for c using want by (auto simp: want_initialized_def cm_received_def)
  ultimately have i: "process_stream_init K C SE S t sst = (Ok resp, sst')" by (rule any_error_reply)
  show thesis
  proof (cases rule: process_stream_init_cases [OF S q new fields, of C K SE, case_names panic failed initialized])
    case (initialized x st1 st2)
    from initialized(2) i have eq: "resp = StreamInitialized (serializable_handle_new pipe q)" "st2 = sst'" by simp_all
    have sv: "devidmap (sv (update_stream S t (?ss\<lparr>ss_params := None\<rparr>) sst)) = devidmap (sv sst)"
      by (simp add: update_stream_def)
    have d: "d = Owned h None" using want eq(1) by (simp add: want_initialized_def cm_received_def)
    show thesis
    proof (cases rule: init_stream_Ok [OF initialized(1)])
      case (1 latency w')
      show thesis by (rule that [OF d 1(1) 1(2-4) [unfolded sv] initialized(3) [unfolded eq(2)]])
    qed
  qed (use i in simp_all)
qed

lemma served_keeps:
  assumes "served K C SE S fd E"
  shows "keeps_server (os_mmap (ce_os E) h k)" "keeps_server (ce_reserve E n)" "keeps_server (ce_new_arc E)"
    "keeps_server (ce_bind_server E h)" "ce_reserve E n w = (Some buf, w') \<Longrightarrow> unat n \<le> length buf"
  using assms unfolding served_def by blast+

lemma keeps_serverE:
  assumes "keeps_server f" and "f (x, v) = (r, w)"
  obtains v' where "w = (x, v')"
proof -
  have "fst (snd (f (x, v))) = x" using assms(1) unfolding keeps_server_def by blast
  with assms(2) have "w = (x, snd w)" by (metis prod.collapse snd_conv)
  then show thesis by (rule that)
qed

lemma map_client_shm_Ok:
  assumes E: "served K C SE S fd E" and m: "map_client_shm E (Owned h None) n (x, v) = (Ok shm, w)"
  obtains v' where "w = (x, v')" and "shm_inv shm" and "shm_size shm = n"
proof -
  have f: "shared_mem_from (ce_os E) h n (x, v) = (Ok shm :: (unit ipc_error, shared_mem) res, w)"
    using m by (auto simp: map_client_shm_def sh_take_handle_def any_cubeb_error_def split: prod.splits)
  then have "shm_inv shm \<and> shm_size shm = n" by (simp add: shared_mem_from_def map_shm_inv)
  moreover have "\<exists>r. os_mmap (ce_os E) h (unat n) (x, v) = (r, w)"
    using f by (auto simp: shared_mem_from_def map_shm_def split: prod.splits res.splits if_splits)
  ultimately show thesis using served_keeps(1) [OF E] that by (metis keeps_serverE)
qed

lemma reserve_duplex_Ok:
  assumes E: "served K C SE S fd E" and r: "reserve_duplex E params n (x, v) = (Ok duplex, w)"
  obtains v' where "w = (x, v')"
    and "case duplex of None \<Rightarrow> True
      | Some buf \<Rightarrow> input_stream_params params \<noteq> None \<and> output_stream_params params \<noteq> None \<and> unat n \<le> length buf"
proof (cases "input_stream_params params \<noteq> None \<and> output_stream_params params \<noteq> None")
  case True
  then obtain buf where "ce_reserve E n (x, v) = (Some buf, w)" "duplex = Some buf"
    using r by (auto simp: reserve_duplex_def split: prod.splits option.splits)
  note buf = this
  obtain v' where "w = (x, v')" by (rule keeps_serverE [OF served_keeps(2) [OF E] buf(1)])
  with True buf(2) served_keeps(5) [OF E buf(1)] show thesis by (intro that [of v']) simp_all
next
  case False
  with r have "w = (x, v)" "duplex = None" by (auto simp: reserve_duplex_def)
  then show thesis by (intro that [of v]) simp_all
qed

lemma bind_callback_server_Ok:
  assumes E: "served K C SE S fd E" and b: "bind_callback_server E pipe A cs st = (Ok cell, st')"
    and o: "outside st = (x, v)"
  obtains v' where "outside st' = (x, v')" and "bound st' = (bound st)(cell \<mapsto> (A, cs))"
proof -
  obtain c w where c: "ce_new_arc E (x, v) = (c, w)" by (rule prod.exhaust)
  obtain v1 where v1: "w = (x, v1)" by (rule keeps_serverE [OF served_keeps(3) [OF E] c])
  obtain r w2 where r: "ce_bind_server E pipe (x, v1) = (r, w2)" by (rule prod.exhaust)
  obtain v2 where "w2 = (x, v2)" by (rule keeps_serverE [OF served_keeps(4) [OF E] r])
  with b o c v1 r show thesis by (cases r) (auto simp: bind_callback_server_def intro: that)
qed

text \<open>The callback server of a stream with valid parameters is well-formed.\<close>

lemma new_callback_server_inv:
  assumes K: "cubeb_abi_contract K" and "validate_stream_create_params K params = Ok ()" and "shm_inv shm"
    and "case duplex of None \<Rightarrow> True
      | Some buf \<Rightarrow> input_stream_params params \<noteq> None \<and> output_stream_params params \<noteq> None \<and> unat (shm_size shm) \<le> length buf"
  shows "callback_server_inv \<lparr>cs_shm = shm, input_frame_size = map_option (frame_size_in_bytes K) (input_stream_params params),
    output_frame_size = map_option (frame_size_in_bytes K) (output_stream_params params),
    duplex_input = duplex, device_change_cb = None\<rparr>"
proof -
  have "frame_size_in_bytes K p \<noteq> 0" if "input_stream_params params = Some p" for p
    using valid_paramsD(3) [OF K validate_create_Ok(2) [OF assms(2) that]] by auto
  with assms(3,4) show ?thesis by (auto simp: callback_server_inv_def split: option.splits)
qed

text \<open>The steps of a creation that succeeds.\<close>

lemma ok_case:
  "(case r of Ok a \<Rightarrow> f a | Err e \<Rightarrow> (Panic, st) | Panic \<Rightarrow> (Panic, st)) = (Ok b, st') \<longleftrightarrow>
   (\<exists>a. r = Ok a \<and> f a = (Ok b, st'))"
  by (cases r) auto

lemma on_outside_Ok:
  assumes "on_outside f st = (Ok r, st')"
  obtains w where "f (outside st) = (Ok r, w)" and "st' = st\<lparr>outside := w\<rparr>"
  using assms by (auto simp: on_outside_def split: prod.splits)

lemma guarded_Ok: "guarded f st = (Ok r, st') \<Longrightarrow> f st = (Ok r, st')"
  by (auto simp: guarded_def split: res.splits)

lemma client_stream_init_Ok:
  assumes "client_stream_init K E P A user_ptr st = (Ok s, st')"
  obtains d st1 shm st2 duplex st3 h st4 pipe cell where
    "send_recv K E (StreamCreate P) want_created st = (Ok d, st1)" and
    "on_outside (map_client_shm E (shm_handle d) (shm_area_size d)) st1 = (Ok shm, st2)" and
    "on_outside (reserve_duplex E P (shm_area_size d)) st2 = (Ok duplex, st3)" and
    "send_recv K E (StreamInit (token d)) want_initialized st3 = (Ok h, st4)" and
    "(fst (sh_take_handle h) :: (unit, handle) res) = Ok pipe" and
    "bind_callback_server E pipe A \<lparr>cs_shm = shm, input_frame_size = map_option (frame_size_in_bytes K) (input_stream_params P),
      output_frame_size = map_option (frame_size_in_bytes K) (output_stream_params P),
      duplex_input = duplex, device_change_cb = None\<rparr> st4 = (Ok cell, st')" and
    "s = \<lparr>st_user_ptr = user_ptr, st_token = token d, st_cell = cell\<rparr>"
  using guarded_Ok [OF assms [unfolded client_stream_init_def]]
  unfolding and_then_Ok ok_case Let_def prod.inject res.inject
  by (elim exE conjE, hypsubst) (rule that; (assumption | rule refl))

text \<open>The creation of a stream on the server: the answers to the client's two requests.\<close>

lemma stream_made_by_server:
  assumes inv: "server_inv K S (sv sst0)"
    and made: "process_msg K C SE S (StreamCreate P) sst0 = (Ok resp, sst1)"
      "want_created (cm_received resp (fd sst1)) = Some d"
    and same: "sv sst2 = sv sst1"
    and init: "process_msg K C SE S (StreamInit (token d)) sst2 = (Ok resp2, sst')"
      "want_initialized (cm_received resp2 (fd sst')) = Some h"
  obtains ss x lat w w' where "server_inv K S (sv sst')"
    "sl_get S (streams (sv sst0)) (token d) = None"
    "sl_get S (streams (sv sst')) = (sl_get S (streams (sv sst0)))(token d \<mapsto> ss)"
    "ss_stream ss = Some x" "connected (ss_cbs ss)" "stream_ok K ss"
    "validate_stream_create_params K P = Ok ()" "shm_handle d = Owned (fd sst1) None"
    "shm_size (scb_shm (ss_cbs ss)) = shm_area_size d"
    "shm_area_size d = shm_area_size_for K (configured_shm_size (sv sst0)) P"
    "scb_input_frame_size (ss_cbs ss) = map_option (frame_size_in_bytes K) (input_stream_params P)"
    "scb_output_frame_size (ss_cbs ss) = map_option (frame_size_in_bytes K) (output_stream_params P)"
    "stream_latency P = (Ok lat :: (cubeb_error, u32) res)"
    "input_device P < length (devidmap (sv sst0))" "output_device P < length (devidmap (sv sst0))"
    "ctx_stream_init C (Option.bind (stream_name P) cstr_from_bytes_with_nul) (devidmap (sv sst0) ! input_device P)
       (input_stream_params P) (devidmap (sv sst0) ! output_device P) (output_stream_params P) lat (token d) w = (Ok x, w')"
proof -
  note S = server_inv_contract [OF inv]
  obtain shm rpc pipe where c: "validate_stream_create_params K P = Ok ()" "shm_inv shm" "valid_handle pipe"
    "d = StreamCreateMk (sl_vacant_key S (streams (sv sst0))) (Owned (fd sst1) None) (shm_size shm)"
    "sv sst1 = (sv sst0)\<lparr>streams := sl_insert S (streams (sv sst0)) (new_stream K P shm rpc pipe)\<rparr>"
    "shm_size shm = shm_area_size_for K (configured_shm_size (sv sst0)) P"
    by (rule created_by [OF made])
  let ?t = "token d" and ?new = "new_stream K P shm rpc pipe"
  have new: "stream_ok K ?new" by (rule new_stream_ok [OF c(2,3,1)])
  have t: "sl_get S (streams (sv sst0)) ?t = None"
    "sl_get S (streams (sv sst1)) = (sl_get S (streams (sv sst0)))(?t \<mapsto> ?new)"
    using c(4,5) S by (simp_all add: slab_laws)
  have inv1: "server_inv K S (sv sst1)" using server_inv_insert [OF inv new] c(5) by simp
  have "remote_pid (sv sst2) \<noteq> None" "sl_get S (streams (sv sst2)) ?t = Some ?new"
    using inv1 same t(2) by (simp_all add: server_inv_def)
  note i = initialized_by [OF S this init]
  have dev: "devidmap (sv sst1) = devidmap (sv sst0)" using c(5) by simp
  obtain x lat w w' where r: "stream_latency P = (Ok lat :: (cubeb_error, u32) res)"
    "input_device P < length (devidmap (sv sst0))" "output_device P < length (devidmap (sv sst0))"
    "ctx_stream_init C (Option.bind (stream_name P) cstr_from_bytes_with_nul) (devidmap (sv sst0) ! input_device P)
       (input_stream_params P) (devidmap (sv sst0) ! output_device P) (output_stream_params P) lat ?t w = (Ok x, w')"
    "changed_stream S ?t (Some (initialized ?new x)) (sv sst1) (sv sst')"
    by (rule i) (use dev same in simp)
  have ok: "stream_ok K (initialized ?new x)" by (rule initialized_ok [OF new])
  have inv': "server_inv K S (sv sst')" by (rule changed_stream_inv [OF r(5) inv1]) (simp add: ok)
  have get: "sl_get S (streams (sv sst')) = (sl_get S (streams (sv sst0)))(?t \<mapsto> initialized ?new x)"
    using r(5) t(2) by (simp add: changed_stream_def)
  show thesis
    by (rule that [OF inv' t(1) get _ _ ok c(1) _ _ _ _ _ r(1-4)])
      (use c(4,6) in \<open>simp_all add: initialized_def new_stream_def\<close>)
qed

text \<open>The creation of a stream, from both sides.\<close>

lemma created_stream:
  assumes K: "cubeb_abi_contract K" and E: "served K C SE S fd E" and o: "outside st = (Some sst, v)" and inv: "server_inv K S (sv sst)"
    and name: "\<And>n. name = Some n \<Longrightarrow> 0 \<notin> set n"
    and init: "context_stream_init K E name in_dev in_params out_dev out_params latency A user_ptr st = (Ok s, st')"
  shows "\<exists>sst' v' ss cs x lat w w'. outside st' = (Some sst', v') \<and> server_inv K S (sv sst') \<and>
     sl_get S (streams (sv sst)) (st_token s) = None \<and>
     sl_get S (streams (sv sst')) = (sl_get S (streams (sv sst)))(st_token s \<mapsto> ss) \<and>
     ss_stream ss = Some x \<and> connected (ss_cbs ss) \<and>
     stream_latency (create_request name in_dev in_params out_dev out_params latency) = (Ok lat :: (cubeb_error, u32) res) \<and>
     ctx_stream_init C name (devidmap (sv sst) ! in_dev) in_params (devidmap (sv sst) ! out_dev) out_params lat
        (st_token s) w = (Ok x, w') \<and> in_dev < length (devidmap (sv sst)) \<and> out_dev < length (devidmap (sv sst)) \<and>
     bound st' = (bound st)(st_cell s \<mapsto> (A, cs)) \<and> stream_ends (ss_cbs ss) cs \<and> device_change_cb cs = None \<and>
     validate_stream_create_params K (create_request name in_dev in_params out_dev out_params latency) = Ok () \<and>
     shm_size (scb_shm (ss_cbs ss)) = shm_area_size_for K (configured_shm_size (sv sst))
       (create_request name in_dev in_params out_dev out_params latency) \<and>
     scb_input_frame_size (ss_cbs ss) = map_option (frame_size_in_bytes K) in_params \<and>
     scb_output_frame_size (ss_cbs ss) = map_option (frame_size_in_bytes K) out_params"
proof -
  define P where "P = create_request name in_dev in_params out_dev out_params latency"
  have P: "input_device P = in_dev" "output_device P = out_dev" "input_stream_params P = in_params"
    "output_stream_params P = out_params" "Option.bind (stream_name P) cstr_from_bytes_with_nul = name"
    using name by (cases name; simp add: P_def create_request_def cstr_terminated)+
  have init: "client_stream_init K E P A user_ptr st = (Ok s, st')"
    unfolding P_def by (rule guarded_Ok [OF init [unfolded context_stream_init_def]])
  then obtain d st1 shm st2 duplex st3 h st4 pipe cell where
    c1: "send_recv K E (StreamCreate P) want_created st = (Ok d, st1)" and
    c2: "on_outside (map_client_shm E (shm_handle d) (shm_area_size d)) st1 = (Ok shm, st2)" and
    c3: "on_outside (reserve_duplex E P (shm_area_size d)) st2 = (Ok duplex, st3)" and
    c4: "send_recv K E (StreamInit (token d)) want_initialized st3 = (Ok h, st4)" and
    c5: "(fst (sh_take_handle h) :: (unit, handle) res) = Ok pipe" and
    c6: "bind_callback_server E pipe A \<lparr>cs_shm = shm, input_frame_size = map_option (frame_size_in_bytes K) (input_stream_params P),
      output_frame_size = map_option (frame_size_in_bytes K) (output_stream_params P),
      duplex_input = duplex, device_change_cb = None\<rparr> st4 = (Ok cell, st')" and
    s: "s = \<lparr>st_user_ptr = user_ptr, st_token = token d, st_cell = cell\<rparr>"
    by (rule client_stream_init_Ok)
  obtain resp sst0 sst1 where 1: "sv sst0 = sv sst" "process_msg K C SE S (StreamCreate P) sst0 = (Ok resp, sst1)"
    "want_created (cm_received resp (fd sst1)) = Some d" "st1 = st\<lparr>outside := (Some sst1, v)\<rparr>"
    by (rule send_recv_process [OF E o c1]) (auto simp: want_created_def)
  obtain w1 where w1: "map_client_shm E (shm_handle d) (shm_area_size d) (Some sst1, v) = (Ok shm, w1)"
    "st2 = st\<lparr>outside := w1\<rparr>"
    using 1(4) by (auto intro: on_outside_Ok [OF c2])
  have sd: "shm_handle d = Owned (fd sst1) None" using created_by [OF 1(2,3)] by force
  obtain v1 where 3: "st2 = st\<lparr>outside := (Some sst1, v1)\<rparr>" "shm_inv shm" "shm_size shm = shm_area_size d"
    using map_client_shm_Ok [OF E w1(1) [unfolded sd]] w1(2) by metis
  obtain w2 where w2: "reserve_duplex E P (shm_area_size d) (Some sst1, v1) = (Ok duplex, w2)" "st3 = st\<lparr>outside := w2\<rparr>"
    using 3(1) by (auto intro: on_outside_Ok [OF c3])
  then obtain v2 where 4: "st3 = st\<lparr>outside := (Some sst1, v2)\<rparr>" "case duplex of None \<Rightarrow> True
      | Some buf \<Rightarrow> input_stream_params P \<noteq> None \<and> output_stream_params P \<noteq> None \<and> unat (shm_size shm) \<le> length buf"
    using reserve_duplex_Ok [OF E w2(1)] 3(3) by metis
  obtain resp2 sst2 sst' where 5: "sv sst2 = sv sst1" "process_msg K C SE S (StreamInit (token d)) sst2 = (Ok resp2, sst')"
    "want_initialized (cm_received resp2 (fd sst')) = Some h" "st4 = st3\<lparr>outside := (Some sst', v2)\<rparr>"
    by (rule send_recv_process [OF E _ c4]) (use 4 in \<open>auto simp: want_initialized_def\<close>)
  have inv0: "server_inv K S (sv sst0)" using inv 1(1) by simp
  note made = stream_made_by_server [OF inv0 1(2,3) 5(1-3), unfolded P 1(1)]
  obtain ss x lat w w' where m: "server_inv K S (sv sst')" "sl_get S (streams (sv sst)) (token d) = None"
    "sl_get S (streams (sv sst')) = (sl_get S (streams (sv sst)))(token d \<mapsto> ss)"
    "ss_stream ss = Some x" "connected (ss_cbs ss)" "stream_ok K ss" "validate_stream_create_params K P = Ok ()"
    "shm_size (scb_shm (ss_cbs ss)) = shm_area_size d"
    "shm_area_size d = shm_area_size_for K (configured_shm_size (sv sst)) P"
    "scb_input_frame_size (ss_cbs ss) = map_option (frame_size_in_bytes K) in_params"
    "scb_output_frame_size (ss_cbs ss) = map_option (frame_size_in_bytes K) out_params"
    "stream_latency P = (Ok lat :: (cubeb_error, u32) res)"
    "in_dev < length (devidmap (sv sst))" "out_dev < length (devidmap (sv sst))"
    "ctx_stream_init C name (devidmap (sv sst) ! in_dev) in_params (devidmap (sv sst) ! out_dev) out_params lat
       (token d) w = (Ok x, w')"
    by (rule made)
  let ?cs = "\<lparr>cs_shm = shm, input_frame_size = map_option (frame_size_in_bytes K) (input_stream_params P),
      output_frame_size = map_option (frame_size_in_bytes K) (output_stream_params P),
      duplex_input = duplex, device_change_cb = None\<rparr>"
  have "callback_server_inv ?cs" by (rule new_callback_server_inv [OF K m(7) 3(2) 4(2)])
  then have ends: "stream_ends (ss_cbs ss) ?cs"
    using m(6,8,10,11) 3(3) P by (simp add: stream_ends_def stream_ok_def cbs_inv_def)
  obtain v' where b: "outside st' = (Some sst', v')" "bound st' = (bound st)(cell \<mapsto> (A, ?cs))"
    by (rule bind_callback_server_Ok [OF E c6, of "Some sst'" v2]) (use 4(1) 5(4) in auto)
  show ?thesis
    by (intro exI [of _ sst'] exI [of _ v'] exI [of _ ss] exI [of _ ?cs] exI [of _ x] exI [of _ lat]
        exI [of _ w] exI [of _ w'] conjI)
      (use b m P_def ends s in simp_all)
qed

text \<open>
  C2: when the client's creation of a stream succeeds, the server has a stream that it did not have before, at the
  token of the client's, initialized and connected; cubeb was asked for it with the name, the devices
  (those of the handles) and the parameters the application gave, and a latency within bounds; and the callbacks of
  the server's stream and the callback server that the client has bound for the application are the
  two ends of one stream: what \<open>audio_path\<close> needs.  Nothing else of the server's streams changes.
\<close>

theorem remote_stream_init:
  assumes K: "cubeb_abi_contract K" and E: "served K C SE S fd E" and o: "outside st = (Some sst, v)" and inv: "server_inv K S (sv sst)"
    and name: "\<And>n. name = Some n \<Longrightarrow> 0 \<notin> set n"
    and init: "context_stream_init K E name in_dev in_params out_dev out_params latency A user_ptr st = (Ok s, st')"
  shows "\<exists>sst' v' ss cs x lat w w'. outside st' = (Some sst', v') \<and> server_inv K S (sv sst') \<and>
     sl_get S (streams (sv sst)) (st_token s) = None \<and>
     sl_get S (streams (sv sst')) = (sl_get S (streams (sv sst)))(st_token s \<mapsto> ss) \<and>
     ss_stream ss = Some x \<and> connected (ss_cbs ss) \<and>
     stream_latency (create_request name in_dev in_params out_dev out_params latency) = (Ok lat :: (cubeb_error, u32) res) \<and>
     ctx_stream_init C name (devidmap (sv sst) ! in_dev) in_params (devidmap (sv sst) ! out_dev) out_params lat
        (st_token s) w = (Ok x, w') \<and> in_dev < length (devidmap (sv sst)) \<and> out_dev < length (devidmap (sv sst)) \<and>
     bound st' = (bound st)(st_cell s \<mapsto> (A, cs)) \<and> stream_ends (ss_cbs ss) cs \<and> device_change_cb cs = None"
  using created_stream [OF assms] by blast

text \<open>With the memory that the server computes for valid parameters a second of frames always fits.\<close>

lemma a_second_fits:
  assumes K: "cubeb_abi_contract K"
    and valid: "validate_stream_create_params K (create_request name in_dev in_params out_dev out_params latency) = Ok ()"
    and second: "\<And>p. in_params = Some p \<or> out_params = Some p \<Longrightarrow> n \<le> unat (rate p)"
    and q: "q = in_params \<or> q = out_params"
  shows "n * frame_bytes (map_option (frame_size_in_bytes K) q)
    \<le> unat (shm_area_size_for K 0 (create_request name in_dev in_params out_dev out_params latency))"
proof (cases q)
  case (Some p)
  have "n * unat (frame_size_in_bytes K p) \<le> unat (rate p) * unat (frame_size_in_bytes K p)"
    using second [of p] q Some by (intro mult_le_mono1) auto
  also have "\<dots> \<le> unat (shm_area_size_for K 0 (create_request name in_dev in_params out_dev out_params latency))"
    using q Some by (intro second_fits [OF K valid]) (auto simp: directions_def create_request_def)
  finally show ?thesis using Some by (simp add: frame_bytes_def)
qed (simp add: frame_bytes_def)

text \<open>
  A stream that the client has created plays: when cubeb calls the server back for at most a second of frames, the
  application's data callback runs once, on exactly the input and with room for exactly the output, and what it
  returns is what cubeb gets.  No size has to be assumed: with the memory that the server computes for valid
  parameters a second of frames always fits.
\<close>

theorem remote_stream_plays:
  assumes K: "cubeb_abi_contract K" and E: "served K C SE S fd E" and o: "outside st = (Some sst, v)"
    and inv: "server_inv K S (sv sst)" and size: "configured_shm_size (sv sst) = 0"
    and name: "\<And>n. name = Some n \<Longrightarrow> 0 \<notin> set n"
    and init: "context_stream_init K E name in_dev in_params out_dev out_params latency A user_ptr st = (Ok s, st')"
    and A: "app_contract A" "data_cb A = Some cb" and idle: "\<not> in_callback t" and n: "0 < sint nframes"
    and second: "\<And>p. in_params = Some p \<or> out_params = Some p \<Longrightarrow> unat nframes \<le> unat (rate p)"
    and input: "length input = unat nframes * frame_bytes (map_option (frame_size_in_bytes K) in_params)"
    and out: "length out = unat nframes * frame_bytes (map_option (frame_size_in_bytes K) out_params)"
  shows "\<exists>sst' v' ss cs mem r written w frames cbs' out' cs'. outside st' = (Some sst', v') \<and>
     sl_get S (streams (sv sst')) (st_token s) = Some ss \<and> bound st' (st_cell s) = Some (A, cs) \<and> length out \<le> length mem \<and>
     cb (if in_params = None then None else Some input) (if out_params = None then None else Some (take (length out) mem))
       nframes (app t) = (r, written, w) \<and>
     data_callback K (client_rpc K A) (ss_cbs ss) input out nframes (cs, t)
       = (Ok frames, cbs', out', cs', t\<lparr>app := w\<rparr>) \<and> stream_ends cbs' cs' \<and>
     (if 0 \<le> sint r \<and> sint r \<le> sint nframes
      then frames = r \<and> out' = (case out_params of None \<Rightarrow> out
          | Some p \<Rightarrow> take (unat r * unat (frame_size_in_bytes K p)) written @ drop (unat r * unat (frame_size_in_bytes K p)) out)
      else frames = cubeb_error_frames K \<and> out' = out)"
proof -
  let ?P = "create_request name in_dev in_params out_dev out_params latency"
  obtain sst' v' ss cs where c: "outside st' = (Some sst', v')" "sl_get S (streams (sv sst')) (st_token s) = Some ss"
    "bound st' (st_cell s) = Some (A, cs)" "connected (ss_cbs ss)" "stream_ends (ss_cbs ss) cs"
    and valid: "validate_stream_create_params K ?P = Ok ()"
    and shm: "shm_size (scb_shm (ss_cbs ss)) = shm_area_size_for K 0 ?P"
    and fs: "scb_input_frame_size (ss_cbs ss) = map_option (frame_size_in_bytes K) in_params"
      "scb_output_frame_size (ss_cbs ss) = map_option (frame_size_in_bytes K) out_params"
    using created_stream [OF K E o inv name init] size by auto
  have P: "input_stream_params ?P = in_params" "output_stream_params ?P = out_params" by (simp_all add: create_request_def)
  have fits: "unat nframes * frame_bytes (map_option (frame_size_in_bytes K) q) \<le> unat (shm_size (scb_shm (ss_cbs ss)))"
    if q: "q = in_params \<or> q = out_params" for q
    unfolding shm by (rule a_second_fits [OF K valid second q])
  have "scb_output_frame_size (ss_cbs ss) \<noteq> Some 0"
    using valid_paramsD(3) [OF K validate_create_Ok(3) [OF valid]] by (auto simp: fs P)
  note run = data_callback_run [OF c(5,4) idle A n, of input out K, unfolded fs, OF input _ out _ this [unfolded fs]]
  from run fits input out obtain mem r written w frames cbs' out' cs' where d:
    "cb (if in_params = None then None else Some input) (if out_params = None then None else Some (take (length out) mem))
       nframes (app t) = (r, written, w)" "length mem = unat (shm_size (scb_shm (ss_cbs ss)))"
    "data_callback K (client_rpc K A) (ss_cbs ss) input out nframes (cs, t) = (Ok frames, cbs', out', cs', t\<lparr>app := w\<rparr>)"
    "stream_ends cbs' cs'"
    "if 0 \<le> sint r \<and> sint r \<le> sint nframes
      then frames = r \<and> out' = (case map_option (frame_size_in_bytes K) out_params of None \<Rightarrow> out
          | Some f \<Rightarrow> take (unat r * unat f) written @ drop (unat r * unat f) out)
      else frames = cubeb_error_frames K \<and> out' = out" by auto
  have "(case map_option (frame_size_in_bytes K) out_params of None \<Rightarrow> out
          | Some f \<Rightarrow> take (unat r * unat f) written @ drop (unat r * unat f) out) =
        (case out_params of None \<Rightarrow> out
          | Some p \<Rightarrow> take (unat r * unat (frame_size_in_bytes K p)) written @ drop (unat r * unat (frame_size_in_bytes K p)) out)"
    by (cases out_params) simp_all
  note d5 = d(5) [unfolded this]
  have room: "length out \<le> length mem" using fits [of out_params] d(2) out by simp
  show ?thesis
    by (rule exI [of _ sst'], rule exI [of _ v'], rule exI [of _ ss], rule exI [of _ cs], rule exI [of _ mem],
        rule exI [of _ r], rule exI [of _ written], rule exI [of _ w], rule exI [of _ frames], rule exI [of _ cbs'],
        rule exI [of _ out'], rule exI [of _ cs']) (intro conjI c(1-3) room d(1,3,4) d5)
qed

text \<open>
  C37: when the client cannot map the shared memory of a stream that the server has created for it, the creation fails,
  and the stream stays on the server: the client asks for nothing more and has no stream whose drop
  would ask for its destruction.
\<close>

theorem failed_init_leaks_stream:
  assumes E: "served K C SE S fd E" and o: "outside st = (Some sst, v)" and inv: "server_inv K S (sv sst)"
    and idle: "\<not> in_callback (caller st)"
    and created: "server_process K C SE S (StreamCreate params) sst = (Ok (StreamCreated d), sst1)"
    and unmapped: "os_mmap (ce_os E) (fd sst1) (unat (shm_area_size d)) (Some sst1, v) = (Err e, Some sst1, v1)"
  shows "client_stream_init K E params A user_ptr st = (Err CubebError, st\<lparr>outside := (Some sst1, v1)\<rparr>) \<and>
     sl_get S (streams (sv sst)) (token d) = None \<and> sl_get S (streams (sv sst1)) (token d) \<noteq> None"
proof -
  let ?d = "StreamCreateMk (token d) (Owned (fd sst1) None) (shm_area_size d)"
  have c1: "send_recv K E (StreamCreate params) want_created st = (Ok ?d, st\<lparr>outside := (Some sst1, v)\<rparr>)"
    using created o served_ce_call [OF E, of "StreamCreate params" "Some sst" v]
    by (cases d) (simp add: send_recv_def served_call_def recv_response_def want_created_def cm_received_def)
  have m: "on_outside (map_client_shm E (shm_handle ?d) (shm_area_size ?d)) (st\<lparr>outside := (Some sst1, v)\<rparr>) =
      (Err CubebError, st\<lparr>outside := (Some sst1, v1)\<rparr>)"
    using unmapped
    by (simp add: on_outside_def map_client_shm_def sh_take_handle_def shared_mem_from_def map_shm_def any_cubeb_error_def)
  have "client_stream_init K E params A user_ptr st = (Err CubebError, st\<lparr>outside := (Some sst1, v1)\<rparr>)"
    using c1 m idle by (simp add: client_stream_init_def and_then_def)
  moreover have "sl_get S (streams (sv sst)) (token d) = None \<and> sl_get S (streams (sv sst1)) (token d) \<noteq> None"
  proof (rule send_recv_process [OF E o c1])
    fix resp sst0 sst' assume a: "sv sst0 = sv sst" "process_msg K C SE S (StreamCreate params) sst0 = (Ok resp, sst')"
      "want_created (cm_received resp (fd sst')) = Some ?d" "st\<lparr>outside := (Some sst1, v)\<rparr> = st\<lparr>outside := (Some sst', v)\<rparr>"
    have "sst' = sst1" using arg_cong [OF a(4), of outside] by simp
    show ?thesis
    proof (rule created_by [OF a(2,3)])
      fix shm rpc pipe
      assume b: "?d = StreamCreateMk (sl_vacant_key S (streams (sv sst0))) (Owned (fd sst') None) (shm_size shm)"
        "sv sst' = (sv sst0)\<lparr>streams := sl_insert S (streams (sv sst0)) (new_stream K params shm rpc pipe)\<rparr>"
      then show ?thesis using \<open>sst' = sst1\<close> a(1) server_inv_contract [OF inv] by (simp add: slab_laws)
    qed
  qed (simp add: want_created_def)
  ultimately show ?thesis by blast
qed

section \<open>Device-collection changes reach the application\<close>

text \<open>What a client's callbacks do for a direction, and how a registration changes it.\<close>

definition notification :: "cubeb_abi \<Rightarrow> u32 \<Rightarrow> 'a dc_callbacks \<Rightarrow> 'a \<Rightarrow> 'a" where
  "notification K dir cbs = (if dir = DEVICE_TYPE_INPUT K
     then (case input_cb cbs of None \<Rightarrow> id | Some f \<Rightarrow> f (input_user_ptr cbs))
     else (case output_cb cbs of None \<Rightarrow> id | Some f \<Rightarrow> f (output_user_ptr cbs)))"

lemma abi_directions:
  assumes "cubeb_abi_contract K"
  shows "DEVICE_TYPE_INPUT K \<noteq> DEVICE_TYPE_OUTPUT K" "device_type_contains K d d"
    "\<not> device_type_contains K (DEVICE_TYPE_INPUT K) (DEVICE_TYPE_OUTPUT K)"
    "\<not> device_type_contains K (DEVICE_TYPE_OUTPUT K) (DEVICE_TYPE_INPUT K)"
    "device_type_truncate K (DEVICE_TYPE_INPUT K) = DEVICE_TYPE_INPUT K"
    "device_type_truncate K (DEVICE_TYPE_OUTPUT K) = DEVICE_TYPE_OUTPUT K"
  using assms unfolding cubeb_abi_contract_def by blast+

lemma notification_set:
  assumes "cubeb_abi_contract K" and "dir \<in> {DEVICE_TYPE_INPUT K, DEVICE_TYPE_OUTPUT K}"
  shows "notification K dir (set_dc_callbacks K devtype cb user_ptr cbs) =
    (if device_type_contains K devtype dir then (case cb of None \<Rightarrow> id | Some f \<Rightarrow> f user_ptr)
     else notification K dir cbs)"
  using abi_directions(1) [OF assms(1)] assms(2)
  by (elim insertE emptyE) (simp_all add: notification_def set_dc_callbacks_def Let_def split: option.split)

text \<open>The clients by the proxy of their collection connection: each serves its own callbacks.\<close>

type_synonym 'a collection_clients = "nat \<Rightarrow> 'a dc_callbacks \<times> 'a client_thread"

definition collection_served :: "cubeb_abi \<Rightarrow> 'a collection_clients server_env \<Rightarrow> bool" where
  "collection_served K E \<longleftrightarrow> (\<forall>rpc req w. snd (env_collection_call E rpc req w) =
     w(rpc := snd (device_collection_process K req (w rpc))))"

lemma device_collection_process_dir:
  assumes K: "cubeb_abi_contract K" and dir: "dir \<in> {DEVICE_TYPE_INPUT K, DEVICE_TYPE_OUTPUT K}" and idle: "\<not> in_callback t"
  shows "device_collection_process K (CollReqDeviceChange dir) (cbs, t) =
    (Ok CollRespDeviceChange, cbs, t\<lparr>app := notification K dir cbs (app t)\<rparr>)"
proof -
  let ?run = "\<lambda>(cbs, t).
       let t = run_dc_callback (device_type_contains K dir (DEVICE_TYPE_INPUT K)) (input_cb cbs) (input_user_ptr cbs) t;
           t = run_dc_callback (device_type_contains K dir (DEVICE_TYPE_OUTPUT K)) (output_cb cbs) (output_user_ptr cbs) t
       in (Ok CollRespDeviceChange, cbs, t)"
  have "?run (cbs, t\<lparr>in_callback := True\<rparr>) =
      (Ok CollRespDeviceChange, cbs, t\<lparr>in_callback := True, app := notification K dir cbs (app t)\<rparr>)"
    using dir abi_directions [OF K]
    by (cases t) (elim insertE emptyE; simp add: run_dc_callback_def notification_def split: option.splits)
  from run_in_callback_Ok [of t ?run cbs, OF idle this] idle
  have "run_in_callback ?run (cbs, t) = (Ok CollRespDeviceChange, cbs, t\<lparr>app := notification K dir cbs (app t)\<rparr>)"
    by (cases t) simp
  moreover have "device_type_truncate K dir = dir" using dir abi_directions(5,6) [OF K] by blast
  ultimately show ?thesis by (simp add: device_collection_process_def Let_def)
qed

text \<open>
  C28: when cubeb reports a change of the devices of a direction, every client's application is called back once for
  each of its registrations that contains the direction, with the callback and the user pointer of
  its latest registration for it, and clients without such a registration are left alone.
\<close>

theorem collection_changes_reach_clients:
  assumes K: "cubeb_abi_contract K" and E: "collection_served K E"
    and dir: "dir \<in> {DEVICE_TYPE_INPUT K, DEVICE_TYPE_OUTPUT K}" and idle: "\<And>rpc. \<not> in_callback (snd (w rpc))"
  shows "device_collection_changed_callback K E dir (servers, w) rpc =
     (case w rpc of (cbs, t) \<Rightarrow>
        (cbs, t\<lparr>app := (notification K dir cbs ^^
           length (filter (\<lambda>(s, d). cc_rpc s = rpc \<and> device_type_contains K d dir) servers)) (app t)\<rparr>)) \<and>
     notification K dir (set_dc_callbacks K devtype (Some f) user_ptr cbs) =
       (if device_type_contains K devtype dir then f user_ptr else notification K dir cbs)"
proof (rule conjI)
  have trunc: "device_type_truncate K dir = dir" using dir abi_directions(5,6) [OF K] by blast
  show "device_collection_changed_callback K E dir (servers, w) rpc =
     (case w rpc of (cbs, t) \<Rightarrow>
        (cbs, t\<lparr>app := (notification K dir cbs ^^
           length (filter (\<lambda>(s, d). cc_rpc s = rpc \<and> device_type_contains K d dir) servers)) (app t)\<rparr>))"
    using idle
  proof (induction servers arbitrary: w)
    case Nil
    then show ?case by (simp add: device_collection_changed_callback_def split: prod.splits)
  next
    case (Cons sd servers)
    obtain s d where sd: "sd = (s, d)" by fastforce
    obtain cbs t where wt: "w (cc_rpc s) = (cbs, t)" by fastforce
    let ?w = "if device_type_contains K d dir
      then w(cc_rpc s := (cbs, t\<lparr>app := notification K dir cbs (app t)\<rparr>)) else w"
    have t: "\<not> in_callback t" using Cons.prems [of "cc_rpc s"] wt by simp
    have step: "device_collection_changed_callback K E dir (sd # servers, w) =
        device_collection_changed_callback K E dir (servers, ?w)"
      using E wt device_collection_process_dir [OF K dir t, of cbs]
      by (simp add: device_collection_changed_callback_def collection_changed_callback_def collection_served_def sd trunc)
    have idle': "\<not> in_callback (snd (?w rpc))" for rpc using Cons.prems [of rpc] t by auto
    show ?case
      unfolding step Cons.IH [OF idle'] using wt
      by (auto simp: sd funpow_swap1 split: prod.splits)
  qed
  show "notification K dir (set_dc_callbacks K devtype (Some f) user_ptr cbs) =
       (if device_type_contains K devtype dir then f user_ptr else notification K dir cbs)"
    using notification_set [OF K dir, of devtype "Some f"] by simp
qed

section \<open>Examples\<close>

definition demo_client_env ::
  "demo_world cubeb_ops \<Rightarrow> (((nat \<times> server_stream) list, demo_world) server_st option \<times> unit) shm_os \<Rightarrow>
   (((nat \<times> server_stream) list, demo_world) server_st option \<times> unit) client_env" where
  "demo_client_env C os = \<lparr>
     ce_call = (\<lambda>m (x, v). case served_call cubeb_h C demo_env list_slab (\<lambda>_. 20) m x of (r, x') \<Rightarrow> (r, x', v)),
     ce_os = os, ce_reserve = (\<lambda>n w. (Some (replicate (unat n) 0), w)), ce_new_arc = (\<lambda>w. (5, w)),
     ce_bind_server = (\<lambda>_ w. (Ok (), w)), ce_shutdown_recv = (\<lambda>_ w. Some w), ce_input_processing_truncate = (\<lambda>p. p),
     ce_threads = \<lparr>th_loop_new = (\<lambda>_ w. (Ok (), w)), th_spawn = (\<lambda>_ _ w. (Ok 0, w)), th_drop = (\<lambda>_ w. w)\<rparr>,
     ce_bind_client = (\<lambda>_ _ w. (Ok (), w)), ce_thread_info = (\<lambda>_. None)\<rparr>"

lemma demo_served:
  "(\<And>h n. keeps_server (os_mmap os h n)) \<Longrightarrow> served cubeb_h C demo_env list_slab (\<lambda>_. 20) (demo_client_env C os)"
  by (auto simp: served_def demo_client_env_def keeps_server_def)

lemma quiet_keeps: "keeps_server (os_mmap quiet_os h n)"
  by (simp add: keeps_server_def quiet_os_def)

definition demo_client ::
  "((nat \<times> server_stream) list, demo_world) server_st \<Rightarrow>
   (nat, ((nat \<times> server_stream) list, demo_world) server_st option \<times> unit) client_st" where
  "demo_client sst = \<lparr>bound = Map.empty, caller = \<lparr>in_callback = False, app = 0\<rparr>, outside = (Some sst, ())\<rparr>"

lemma demo_client_online:
  "server_inv cubeb_h list_slab (sv sst) \<Longrightarrow> local_context sst = Some (Ok ()) \<Longrightarrow>
   online cubeb_h list_slab (demo_client sst) sst"
  by (simp add: online_def demo_client_def)

lemma demo_create_request: "create_request None 0 None 0 (Some demo_playback) 128 = demo_create"
  by (simp add: create_request_def demo_create_def)

lemma demo_client_started_for:
  assumes v: "validate_stream_create_params cubeb_h (create_request name 0 None 0 out latency) = Ok ()"
    and i: "\<And>st :: ((nat \<times> server_stream) list, demo_world) server_st. devidmap (sv st) = [0] \<Longrightarrow>
      init_stream demo_cubeb 0 (create_request name 0 None 0 out latency) st = (Ok 11, st)"
    and o: "outside st = (Some demo_server, ())" and idle: "\<not> in_callback (caller st)"
  shows "\<exists>st' sst'. context_stream_init cubeb_h (demo_client_env demo_cubeb quiet_os) name 0 None 0 out latency A u st =
      (Ok \<lparr>st_user_ptr = u, st_token = 0, st_cell = 5\<rparr>, st') \<and>
     outside st' = (Some sst', ()) \<and> streams (sv sst') = [(0, initialized (demo_stream_for (create_request name 0 None 0 out latency)) 11)] \<and>
     local_context sst' = Some (Ok ()) \<and> caller st' = caller st"
proof -
  define P where "P = create_request name 0 None 0 out latency"
  obtain st1 st2 where 1: "server_process cubeb_h demo_cubeb demo_env list_slab (StreamCreate P) demo_server =
     (Ok (StreamCreated (StreamCreateMk 0 (Owned 6 (Some 9)) (shm_area_size_for cubeb_h 0 P))), st1)"
    and 2: "server_process cubeb_h demo_cubeb demo_env list_slab (StreamInit 0) st1 =
       (Ok (StreamInitialized (Owned 8 (Some 9))), st2)"
    and s2: "streams (sv st2) = [(0, initialized (demo_stream_for P) 11)]" "local_context st2 = Some (Ok ())"
    using demo_started_for [OF v i] unfolding P_def by blast
  have e: "input_stream_params P = None" by (simp add: P_def create_request_def)
  show ?thesis
    by (simp add: context_stream_init_def client_stream_init_def send_recv_def o idle P_def [symmetric]
        demo_client_env_def served_call_def 1 2 s2 e recv_response_def want_created_def want_initialized_def cm_received_def
        and_then_def on_outside_def map_client_shm_def sh_take_handle_def shared_mem_from_def map_shm_def quiet_os_def
        any_cubeb_error_def reserve_duplex_def bind_callback_server_def Let_def)
qed

lemma demo_client_started:
  "\<exists>st' sst'. context_stream_init cubeb_h (demo_client_env demo_cubeb quiet_os) None 0 None 0 (Some demo_playback) 128 demo_app 7
      (demo_client demo_server) = (Ok \<lparr>st_user_ptr = 7, st_token = 0, st_cell = 5\<rparr>, st') \<and>
     outside st' = (Some sst', ()) \<and> streams (sv sst') = [(0, initialized demo_stream 11)]"
proof -
  have "outside (demo_client demo_server) = (Some demo_server, ())" "\<not> in_callback (caller (demo_client demo_server))"
    by (simp_all add: demo_client_def)
  from demo_client_started_for [of None "Some demo_playback" 128, unfolded demo_create_request, OF demo_create_valid demo_create_init this]
  show ?thesis unfolding demo_stream_def by blast
qed

lemmas demo_keeps_served = demo_served [OF quiet_keeps]

theorem remote_stream_init_witness:
  "\<exists>st' sst' ss cs. context_stream_init cubeb_h (demo_client_env demo_cubeb quiet_os) None 0 None 0
       (Some demo_playback) 128 demo_app 7 (demo_client demo_server) = (Ok \<lparr>st_user_ptr = 7, st_token = 0, st_cell = 5\<rparr>, st') \<and>
     outside st' = (Some sst', ()) \<and> sl_get list_slab (streams (sv sst')) 0 = Some ss \<and>
     ss_stream ss = Some 11 \<and> bound st' 5 = Some (demo_app, cs) \<and> stream_ends (ss_cbs ss) cs"
proof -
  obtain st' sst' where 1: "context_stream_init cubeb_h (demo_client_env demo_cubeb quiet_os) None 0 None 0
      (Some demo_playback) 128 demo_app 7 (demo_client demo_server) = (Ok \<lparr>st_user_ptr = 7, st_token = 0, st_cell = 5\<rparr>, st')"
    "outside st' = (Some sst', ())" "streams (sv sst') = [(0, initialized demo_stream 11)]"
    using demo_client_started by blast
  have o: "outside (demo_client demo_server) = (Some demo_server, ())" by (simp add: demo_client_def)
  from remote_stream_init [OF cubeb_h_contract demo_keeps_served o demo_server_inv _ 1(1)] 1(2)
  obtain ss cs where r: "sl_get list_slab (streams (sv sst')) = (sl_get list_slab (streams (sv demo_server)))(0 \<mapsto> ss)"
    "bound st' = (bound (demo_client demo_server))(5 \<mapsto> (demo_app, cs))" "stream_ends (ss_cbs ss) cs" by auto
  from arg_cong [OF r(1), of "\<lambda>m. m 0"] 1(3) have "ss = initialized demo_stream 11" by (simp add: list_slab_def)
  moreover have "ss_stream (initialized demo_stream 11) = Some 11" by (simp add: initialized_def)
  ultimately show ?thesis using r 1(1,2) by (intro exI [of _ st'] exI [of _ sst'] exI [of _ ss] exI [of _ cs]) simp
qed

text \<open>Two frames of the example's stream, which has no input.\<close>

theorem remote_stream_plays_witness:
  "\<exists>st' sst' ss cs cbs' cs'. context_stream_init cubeb_h (demo_client_env demo_cubeb quiet_os) None 0 None 0
       (Some demo_playback) 128 demo_app 7 (demo_client demo_server) = (Ok \<lparr>st_user_ptr = 7, st_token = 0, st_cell = 5\<rparr>, st') \<and>
     outside st' = (Some sst', ()) \<and> sl_get list_slab (streams (sv sst')) 0 = Some ss \<and> bound st' 5 = Some (demo_app, cs) \<and>
     data_callback cubeb_h (client_rpc cubeb_h demo_app) (ss_cbs ss) [] (replicate 16 0) 2 (cs, \<lparr>in_callback = False, app = 0\<rparr>)
       = (Ok 2, cbs', replicate 16 9, cs', \<lparr>in_callback = False, app = 1\<rparr>)"
proof -
  obtain st' sst' where 1: "context_stream_init cubeb_h (demo_client_env demo_cubeb quiet_os) None 0 None 0
      (Some demo_playback) 128 demo_app 7 (demo_client demo_server) = (Ok \<lparr>st_user_ptr = 7, st_token = 0, st_cell = 5\<rparr>, st')"
    "outside st' = (Some sst', ())" "streams (sv sst') = [(0, initialized demo_stream 11)]"
    using demo_client_started by blast
  have o: "outside (demo_client demo_server) = (Some demo_server, ())" by (simp add: demo_client_def)
  have size: "configured_shm_size (sv demo_server) = 0" by (simp add: demo_server_def cubeb_server_new_def)
  have cb: "data_cb demo_app = Some (\<lambda>inp out n w. (n, replicate (case out of None \<Rightarrow> 0 | Some mem \<Rightarrow> length mem) 9, w + 1))"
    by (simp add: demo_app_def)
  have fs: "frame_size_in_bytes cubeb_h demo_playback = 8"
    by (simp add: frame_size_in_bytes_def demo_playback_def cubeb_h_def cubeb_h_format_def Let_def)
  have "unat (2 :: isize) \<le> unat (rate p)" if "None = Some p \<or> Some demo_playback = Some p" for p
    using that by (auto simp: demo_playback_def)
  note r = remote_stream_plays [OF cubeb_h_contract demo_keeps_served o demo_server_inv size _ 1(1) demo_app_contract cb _ _ this,
      of "\<lparr>in_callback = False, app = 0\<rparr>" "[]" "replicate 16 0"]
  have fb: "frame_bytes None = 0" "frame_bytes (Some 8) = 8" by (simp_all add: frame_bytes_def)
  show ?thesis using r 1(1) by (simp add: fb fs min_absorb2 cong: conj_cong) blast
qed

theorem remote_stream_ops_witness:
  "\<exists>sst. let st = demo_client sst; s = \<lparr>st_user_ptr = 7, st_token = 0, st_cell = 5\<rparr> in
     fst (stream_start cubeb_h (demo_client_env demo_cubeb quiet_os) s st) = Ok () \<and>
     fst (stream_input_latency cubeb_h (demo_client_env demo_cubeb quiet_os) s st) = Err NotSupported"
proof -
  obtain st1 sst where 1: "server_process cubeb_h demo_cubeb demo_env list_slab (StreamCreate demo_create) demo_server =
     (Ok (StreamCreated (StreamCreateMk 0 (Owned 6 (Some 9)) demo_size)), st1)"
    "server_process cubeb_h demo_cubeb demo_env list_slab (StreamInit 0) st1 = (Ok (StreamInitialized (Owned 8 (Some 9))), sst)"
    "streams (sv sst) = [(0, initialized demo_stream 11)]" "local_context sst = Some (Ok ())"
    using demo_started by blast
  then have "server_run cubeb_h demo_cubeb demo_env list_slab [StreamCreate demo_create, StreamInit 0] demo_server =
      Some ([StreamCreated (StreamCreateMk 0 (Owned 6 (Some 9)) demo_size), StreamInitialized (Owned 8 (Some 9))], sst)" by simp
  then have "server_inv cubeb_h list_slab (sv sst)" using server_run_ok demo_server_inv by blast
  then have up: "online cubeb_h list_slab (demo_client sst) sst" using 1(4) by (rule demo_client_online)
  have ss: "sl_get list_slab (streams (sv sst)) (st_token \<lparr>st_user_ptr = 7, st_token = 0, st_cell = 5\<rparr>) =
      Some (initialized demo_stream 11)" "ss_stream (initialized demo_stream 11) = Some 11"
    using 1(3) by (simp_all add: list_slab_def initialized_def)
  from remote_stream_ops [OF cubeb_h_contract demo_contracts(1) demo_keeps_served up ss]
  have "stream_start cubeb_h (demo_client_env demo_cubeb quiet_os) \<lparr>st_user_ptr = 7, st_token = 0, st_cell = 5\<rparr> (demo_client sst) =
      run_local (stm_start demo_cubeb 11) (demo_client sst)"
    "stream_input_latency cubeb_h (demo_client_env demo_cubeb quiet_os) \<lparr>st_user_ptr = 7, st_token = 0, st_cell = 5\<rparr> (demo_client sst) =
      run_local (stm_input_latency demo_cubeb 11) (demo_client sst)" by blast+
  then show ?thesis by (intro exI [of _ sst]) (simp add: run_local_def demo_client_def demo_cubeb_def)
qed

text \<open>A device that cubeb names \<open>hi\<close>, in a buffer longer than its name.\<close>

definition demo_device :: cubeb_device_info where
  "demo_device = \<lparr>cdi_devid = 77, cdi_device_id = Some [104, 105, 0, 99], cdi_friendly_name = None, cdi_group_id = None,
     cdi_vendor_name = None, cdi_device_type = 2, cdi_state = 2, cdi_preferred = 0, cdi_format = 0, cdi_default_format = 0,
     cdi_max_channels = 2, cdi_default_rate = 48000, cdi_max_rate = 48000, cdi_min_rate = 48000, cdi_latency_lo = 0,
     cdi_latency_hi = 0\<rparr>"

definition demo_devices :: "demo_world cubeb_ops" where
  "demo_devices = demo_cubeb\<lparr>ctx_enumerate_devices := \<lambda>_ w. (Ok [demo_device], w)\<rparr>"

theorem remote_devices_witness:
  "\<exists>h st'. context_enumerate_devices cubeb_h (demo_client_env demo_devices quiet_os) 2 (demo_client demo_server) =
     (Ok [client_device demo_device h], st') \<and> device_strings (client_device demo_device h) = [[104, 105, 0]]"
proof -
  have up: "online cubeb_h list_slab (demo_client demo_server) demo_server"
    by (rule demo_client_online [OF demo_server_inv]) (simp add: demo_server_def)
  have "ctx_enumerate_devices demo_devices (device_type_truncate cubeb_h 2) (world demo_server) = (Ok [demo_device], [])"
    by (simp add: demo_devices_def demo_server_def)
  from remote_devices [OF cubeb_h_contract demo_keeps_served up this, of "()"] obtain hs st' where
    "context_enumerate_devices cubeb_h (demo_client_env demo_devices quiet_os) 2 (demo_client demo_server) =
      (Ok (map (\<lambda>(i, h). client_device i h) (zip [demo_device] hs)), st')" "length hs = 1"
    "\<And>i h. device_strings (client_device i h) = map (\<lambda>s. takeWhile (\<lambda>b. b \<noteq> 0) s @ [0]) (device_strings i)"
    by (auto simp: demo_client_def)
  then show ?thesis by (cases hs) (auto simp: device_strings_def demo_device_def map_filter_simps)
qed

definition unmapped_os :: "'w shm_os" where
  "unmapped_os = quiet_os\<lparr>os_mmap := \<lambda>_ _ w. (Err (io_other []), w)\<rparr>"

theorem failed_init_leaks_stream_witness:
  "\<exists>sst1. client_stream_init cubeb_h (demo_client_env demo_cubeb unmapped_os) demo_create demo_app 7 (demo_client demo_server)
      = (Err CubebError, demo_client sst1) \<and> sl_get list_slab (streams (sv sst1)) 0 \<noteq> None"
proof -
  obtain sst1 where c: "server_process cubeb_h demo_cubeb demo_env list_slab (StreamCreate demo_create) demo_server =
     (Ok (StreamCreated (StreamCreateMk 0 (Owned 6 (Some 9)) demo_size)), sst1)"
    using demo_started by blast
  have served: "served cubeb_h demo_cubeb demo_env list_slab (\<lambda>_. 20) (demo_client_env demo_cubeb unmapped_os)"
    by (rule demo_served) (simp add: keeps_server_def unmapped_os_def)
  have o: "outside (demo_client demo_server) = (Some demo_server, ())" and idle: "\<not> in_callback (caller (demo_client demo_server))"
    by (simp_all add: demo_client_def)
  have m: "os_mmap (ce_os (demo_client_env demo_cubeb unmapped_os)) 20 (unat (shm_area_size (StreamCreateMk 0 (Owned 6 (Some 9)) demo_size)))
      (Some sst1, ()) = (Err (io_other []), Some sst1, ())"
    by (simp add: demo_client_env_def unmapped_os_def)
  from failed_init_leaks_stream [OF served o demo_server_inv idle c m, of demo_app 7] show ?thesis
    by (intro exI [of _ sst1]) (simp add: demo_client_def)
qed

definition collection_env :: "'a collection_clients server_env" where
  "collection_env = \<lparr>
     env_os = quiet_os, env_pid = 42, env_socket_pair = (\<lambda>w. (Ok (7, 8), w)),
     env_bind_callback = (\<lambda>_ w. (Ok 1, w)), env_bind_collection = (\<lambda>_ w. (Ok 2, w)),
     env_drop_proxies = (\<lambda>_ w. w), env_new_rc = (\<lambda>w. (1, w)),
     env_collection_call = (\<lambda>rpc req w. case device_collection_process cubeb_h req (w rpc) of (r, s) \<Rightarrow> (r, w(rpc := s))),
     env_thread_info_pid = (\<lambda>_. 9), env_promote = (\<lambda>_ w. (Ok (), w)) \<rparr>"

text \<open>A client registered twice for input is called back twice.\<close>

theorem collection_changes_reach_clients_witness:
  "let cbs = set_dc_callbacks cubeb_h 1 (Some (\<lambda>p n. n + p)) 5 dc_callbacks_default in
   app (snd (device_collection_changed_callback cubeb_h collection_env 1
     ([(\<lparr>cc_ptr = 1, cc_rpc = 2\<rparr>, 1), (\<lparr>cc_ptr = 1, cc_rpc = 2\<rparr>, 3)], \<lambda>_. (cbs, \<lparr>in_callback = False, app = 0\<rparr>)) 2)) = (10 :: nat)"
proof -
  have served: "collection_served cubeb_h collection_env"
    by (simp add: collection_served_def collection_env_def split: prod.splits)
  have dir: "1 \<in> {DEVICE_TYPE_INPUT cubeb_h, DEVICE_TYPE_OUTPUT cubeb_h}" by (simp add: cubeb_h_def)
  have n: "notification cubeb_h 1 (set_dc_callbacks cubeb_h 1 (Some (\<lambda>p n. n + p)) 5 dc_callbacks_default) = (\<lambda>n. n + 5)"
    by (simp add: notification_def set_dc_callbacks_def cubeb_h_def)
  have c: "device_type_contains cubeb_h 1 1" "device_type_contains cubeb_h 3 1" by (simp_all add: cubeb_h_def)
  note r = collection_changes_reach_clients [OF cubeb_h_contract served dir, THEN conjunct1,
      of "\<lambda>_. (set_dc_callbacks cubeb_h 1 (Some (\<lambda>p n. n + p)) (5 :: nat) dc_callbacks_default, \<lparr>in_callback = False, app = 0\<rparr>)"]
  show ?thesis unfolding Let_def by (subst r) (simp_all add: n c)
qed

end
