(* ===== verification/AudioSession.thy ===== *)
theory AudioSession
  imports AudioPath
begin

text \<open>
  A stream's callbacks over time.  cubeb calls the three C callbacks of a server stream (\<open>data_cb_c\<close>, \<open>state_cb_c\<close>,
  \<open>device_change_cb_c\<close> of \<open>server/src/server.rs\<close>) in any order; each is answered by the client's callback server.
  The specification is the application called by cubeb itself: \<open>app_run\<close>.
\<close>

section \<open>The callbacks of a server stream\<close>

datatype stream_callback =
  DataCallback "byte list option" "byte list option" isize | StateCallback u32 | DeviceChangeCallback

text \<open>What cubeb gets: the frames and its output buffer; the other callbacks have no result.\<close>

datatype callback_result = Frames isize "byte list option" | Told

text \<open>\<open>None\<close>: the call is undefined or aborts the server.\<close>

definition serve_callback ::
  "cubeb_abi \<Rightarrow> (u32 \<Rightarrow> u32) \<Rightarrow> 'w callback_rpc \<Rightarrow> stream_callback \<Rightarrow> server_stream_callbacks \<times> 'w \<Rightarrow>
   (callback_result \<times> server_stream_callbacks \<times> 'w) option" where
  "serve_callback K state_of_ffi call ev = (\<lambda>(cbs, w). case ev of
     DataCallback inb outb nframes \<Rightarrow> (case data_cb_c K call cbs inb outb nframes w of
        None \<Rightarrow> None | Some (frames, cbs, outb, w) \<Rightarrow> Some (Frames frames outb, cbs, w))
   | StateCallback s \<Rightarrow> (case state_cb_c state_of_ffi call cbs s w of
        (r, cbs, w) \<Rightarrow> if r = Panic then None else Some (Told, cbs, w))
   | DeviceChangeCallback \<Rightarrow> (case device_change_cb_c call cbs w of
        (r, cbs, w) \<Rightarrow> if r = Panic then None else Some (Told, cbs, w)))"

fun serve_callbacks ::
  "cubeb_abi \<Rightarrow> (u32 \<Rightarrow> u32) \<Rightarrow> 'w callback_rpc \<Rightarrow> stream_callback list \<Rightarrow> server_stream_callbacks \<times> 'w \<Rightarrow>
   (callback_result list \<times> server_stream_callbacks \<times> 'w) option" where
  "serve_callbacks K f call [] (cbs, w) = Some ([], cbs, w)"
| "serve_callbacks K f call (ev # evs) st = (case serve_callback K f call ev st of
     None \<Rightarrow> None
   | Some (r, cbs, w) \<Rightarrow> (case serve_callbacks K f call evs (cbs, w) of
        None \<Rightarrow> None | Some (rs, cbs, w) \<Rightarrow> Some (r # rs, cbs, w)))"

section \<open>The application called directly\<close>

text \<open>
  The frames an application reports and what cubeb's buffer holds then: the first \<open>r\<close> frames are the application's,
  the rest of the buffer is as before; a result outside \<open>0..n\<close> is an error.
\<close>

definition played :: "cubeb_abi \<Rightarrow> usize option \<Rightarrow> isize \<Rightarrow> isize \<Rightarrow> byte list \<Rightarrow> byte list option \<Rightarrow> callback_result" where
  "played K frame_size n r written outb =
     (if 0 \<le> sint r \<and> sint r \<le> sint n
      then Frames r (case frame_size of
          None \<Rightarrow> outb
        | Some fs \<Rightarrow> map_option (\<lambda>mem. take (unat r * unat fs) written @ drop (unat r * unat fs) mem) outb)
      else Frames (cubeb_error_frames K) outb)"

text \<open>
  One callback of the application: on cubeb's input, with a buffer of the output's size whose content is not
  specified; a change of device runs the callback \<open>dev\<close> registered for it.
\<close>

inductive app_step ::
  "cubeb_abi \<Rightarrow> (u32 \<Rightarrow> u32) \<Rightarrow> 'w app_callbacks \<Rightarrow> ('w \<Rightarrow> 'w) option \<Rightarrow> usize option \<Rightarrow> usize option \<Rightarrow>
   stream_callback \<Rightarrow> 'w \<Rightarrow> callback_result \<Rightarrow> 'w \<Rightarrow> bool"
  for K f A dev infs outfs where
  data: "data_cb A = Some cb \<Longrightarrow> length mem = unat n * frame_bytes outfs \<Longrightarrow>
    cb (if infs = None then None else Some (buffer_bytes inb)) (if outfs = None then None else Some mem) n w = (r, written, w') \<Longrightarrow>
    app_step K f A dev infs outfs (DataCallback inb outb n) w (played K outfs n r written outb) w'"
| state: "state_cb A = Some cb \<Longrightarrow> app_step K f A dev infs outfs (StateCallback s) w Told (cb (f s) w)"
| device: "app_step K f A dev infs outfs DeviceChangeCallback w Told (case dev of None \<Rightarrow> w | Some cb \<Rightarrow> cb w)"

inductive app_run ::
  "cubeb_abi \<Rightarrow> (u32 \<Rightarrow> u32) \<Rightarrow> 'w app_callbacks \<Rightarrow> ('w \<Rightarrow> 'w) option \<Rightarrow> usize option \<Rightarrow> usize option \<Rightarrow>
   stream_callback list \<Rightarrow> 'w \<Rightarrow> callback_result list \<Rightarrow> 'w \<Rightarrow> bool"
  for K f A dev infs outfs where
  nil: "app_run K f A dev infs outfs [] w [] w"
| cons: "app_step K f A dev infs outfs ev w r w1 \<Longrightarrow> app_run K f A dev infs outfs evs w1 rs w2 \<Longrightarrow>
    app_run K f A dev infs outfs (ev # evs) w (r # rs) w2"

inductive_cases app_step_dataE: "app_step K f A dev infs outfs (DataCallback inb outb n) w r w'"
inductive_cases app_run_nilE: "app_run K f A dev infs outfs [] w rs w'"
inductive_cases app_run_consE: "app_run K f A dev infs outfs (ev # evs) w rs w'"

text \<open>What cubeb and the sizes have to meet: frames to ask for, buffers that hold them, and room in the shared memory.\<close>

definition buffer_fits :: "isize \<Rightarrow> usize option \<Rightarrow> byte list option \<Rightarrow> usize \<Rightarrow> bool" where
  "buffer_fits n frame_size buffer shm_sz \<longleftrightarrow> buffer_holds n frame_size buffer \<and>
     (frame_size = None \<or> buffer \<noteq> None) \<and> unat n * frame_bytes frame_size \<le> unat shm_sz"

definition callback_fits :: "server_stream_callbacks \<Rightarrow> stream_callback \<Rightarrow> bool" where
  "callback_fits cbs ev = (case ev of
     DataCallback inb outb n \<Rightarrow> 0 < sint n \<and> buffer_fits n (scb_input_frame_size cbs) inb (shm_size (scb_shm cbs)) \<and>
       buffer_fits n (scb_output_frame_size cbs) outb (shm_size (scb_shm cbs))
   | _ \<Rightarrow> True)"

lemma callback_fits_same: "same_stream cbs cbs' \<Longrightarrow> callback_fits cbs' = callback_fits cbs"
  by (auto simp: callback_fits_def same_stream_def fun_eq_iff split: stream_callback.split)

lemma buffer_fitsD:
  assumes "buffer_fits n fs buffer sz"
  shows "raw_slice buffer n fs = Some (buffer_bytes buffer)"
    and "length (buffer_bytes buffer) = unat n * frame_bytes fs" and "length (buffer_bytes buffer) \<le> unat sz"
proof -
  show "raw_slice buffer n fs = Some (buffer_bytes buffer)"
    using assms by (intro raw_slice_holds) (simp add: buffer_fits_def)
  show len: "length (buffer_bytes buffer) = unat n * frame_bytes fs"
    using assms by (cases buffer) (auto simp: buffer_fits_def buffer_holds_def buffer_bytes_def frame_bytes_def)
  show "length (buffer_bytes buffer) \<le> unat sz"
    using assms len by (simp add: buffer_fits_def)
qed

section \<open>One callback\<close>

text \<open>A call of the client's callback server leaves the callback of device changes as registered.\<close>

lemma run_in_callback_keeps:
  assumes "\<And>s t r s' t'. f (s, t) = (r, s', t') \<Longrightarrow> g s' = g s" and "run_in_callback f (s, t) = (r, s', t')"
  shows "g s' = g s"
  using assms(2) assms(1) by (auto simp: run_in_callback_def split: prod.splits res.splits if_splits)

lemma call_data_cb_keeps_dev:
  "call_data_cb A i n m (cs, t) = (r, cs', t') \<Longrightarrow> device_change_cb cs' = device_change_cb cs"
  by (auto simp: call_data_cb_def Let_def split: prod.splits res.splits option.splits if_splits)

lemma copy_duplex_keeps_dev: "copy_duplex cs n = Ok cs' \<Longrightarrow> device_change_cb cs' = device_change_cb cs"
  by (auto simp: copy_duplex_def split: res.splits option.splits if_splits)

lemma client_rpc_keeps_dev:
  assumes "client_rpc K A req bytes (cs, t) = (r, bytes', cs', t')"
  shows "device_change_cb cs' = device_change_cb cs"
proof -
  obtain q where "callback_process K A req (cs\<lparr>cs_shm := (cs_shm cs)\<lparr>shm_bytes := bytes\<rparr>\<rparr>, t) = (q, cs', t')"
    using assms by (auto simp: client_rpc_def split: prod.splits)
  then have "device_change_cb cs' = device_change_cb (cs\<lparr>cs_shm := (cs_shm cs)\<lparr>shm_bytes := bytes\<rparr>\<rparr>)"
    by (auto simp: callback_process_def callback_data_def callback_state_def callback_device_change_def Let_def
        split: callback_req.splits option.splits res.splits
        dest!: run_in_callback_keeps [where g = device_change_cb, rotated] copy_duplex_keeps_dev
        dest: call_data_cb_keeps_dev)
  then show ?thesis by simp
qed

text \<open>A callback of the server changes the stream's shared memory and nothing else of the stream.\<close>

lemma copy_input_same: "copy_input cbs input = Ok shm \<Longrightarrow> same_stream cbs (cbs\<lparr>scb_shm := shm\<rparr>)"
  by (auto simp: same_stream_def copy_input_def get_mut_slice_copy_def split: if_splits)

lemma data_callback_same:
  "data_callback K call cbs input out n w = (r, cbs', out', w') \<Longrightarrow> same_stream cbs cbs'"
  by (auto simp: data_callback_def Let_def same_stream_def split: if_splits res.splits prod.splits dest!: copy_input_same)

lemma data_callback_keeps_dev:
  "data_callback K (client_rpc K A) cbs input out n (cs, t) = (r, cbs', out', cs', t') \<Longrightarrow>
   device_change_cb cs' = device_change_cb cs"
  by (auto simp: data_callback_def Let_def split: if_splits res.splits prod.splits dest!: client_rpc_keeps_dev)

text \<open>The requests without frames, answered by an idle client.\<close>

lemma client_rpc_state:
  assumes "\<not> in_callback t" and "state_cb A = Some cb"
  shows "client_rpc K A (ReqState s) bytes (cs, t) =
    (Ok RespState, bytes, cs\<lparr>cs_shm := (cs_shm cs)\<lparr>shm_bytes := bytes\<rparr>\<rparr>, t\<lparr>app := cb s (app t)\<rparr>)"
  using assms by (simp add: client_rpc_def callback_process_def callback_state_def run_in_callback_Ok)

lemma client_rpc_device_change:
  assumes "\<not> in_callback t"
  shows "client_rpc K A ReqDeviceChange bytes (cs, t) =
    (Ok RespDeviceChange, bytes, cs\<lparr>cs_shm := (cs_shm cs)\<lparr>shm_bytes := bytes\<rparr>\<rparr>,
     t\<lparr>app := (case device_change_cb cs of None \<Rightarrow> app t | Some cb \<Rightarrow> cb (app t))\<rparr>)"
  using assms
  by (cases "device_change_cb cs")
    (simp_all add: client_rpc_def callback_process_def callback_device_change_def run_in_callback_Ok)

lemma stream_ends_bytes:
  assumes "stream_ends cbs cs"
  shows "stream_ends cbs (cs\<lparr>cs_shm := (cs_shm cs)\<lparr>shm_bytes := shm_bytes (scb_shm cbs)\<rparr>\<rparr>)"
  using assms by (auto simp: stream_ends_def callback_server_inv_def cbs_inv_def shm_inv_def split: option.splits)

lemma same_stream_refl [simp]: "same_stream cbs cbs"
  by (simp add: same_stream_def)

lemma same_stream_trans: "same_stream a b \<Longrightarrow> same_stream b c \<Longrightarrow> same_stream a c"
  by (simp add: same_stream_def)

text \<open>The data callback: \<open>data_callback_run\<close> for the C entry point.\<close>

lemma played_eq:
  assumes len: "length (buffer_bytes outb) = unat n * frame_bytes outfs" and some: "outfs = None \<or> outb \<noteq> None"
    and out': "if 0 \<le> sint r \<and> sint r \<le> sint n
      then frames = r \<and> out' = (case outfs of None \<Rightarrow> buffer_bytes outb
          | Some fs \<Rightarrow> take (unat r * unat fs) written @ drop (unat r * unat fs) (buffer_bytes outb))
      else frames = cubeb_error_frames K \<and> out' = buffer_bytes outb"
    and written: "outfs \<noteq> None \<Longrightarrow> length written = length (buffer_bytes outb)"
  shows "Frames frames (map_option (\<lambda>mem. out' @ drop (length out') mem) outb) = played K outfs n r written outb"
proof (cases outb)
  case None
  with out' show ?thesis by (auto simp: played_def split: option.split)
next
  case (Some mem)
  have "unat r * unat fs \<le> length mem" if "outfs = Some fs" "0 \<le> sint r" "sint r \<le> sint n" for fs
    using sframes_le [OF that(2,3)] len that(1) Some by (simp add: buffer_bytes_def frame_bytes_def)
  with Some out' written show ?thesis
    by (auto simp: played_def buffer_bytes_def split: option.splits if_splits)
qed

lemma data_callback_served:
  assumes ends: "stream_ends cbs cs" and conn: "connected cbs" and idle: "\<not> in_callback t" and A: "app_contract A"
    and nz: "scb_output_frame_size cbs \<noteq> Some 0" and fits: "callback_fits cbs (DataCallback inb outb n)"
  obtains r cbs' cs' w' where
    "serve_callback K f (client_rpc K A) (DataCallback inb outb n) (cbs, cs, t) = Some (r, cbs', cs', t\<lparr>app := w'\<rparr>)"
    "app_step K f A (device_change_cb cs) (scb_input_frame_size cbs) (scb_output_frame_size cbs)
       (DataCallback inb outb n) (app t) r w'"
    "stream_ends cbs' cs'" "same_stream cbs cbs'" "device_change_cb cs' = device_change_cb cs"
proof -
  let ?infs = "scb_input_frame_size cbs" and ?outfs = "scb_output_frame_size cbs" and ?sz = "shm_size (scb_shm cbs)"
  have n: "0 < sint n" and i: "buffer_fits n ?infs inb ?sz" and o: "buffer_fits n ?outfs outb ?sz"
    using fits by (simp_all add: callback_fits_def)
  obtain cb where cb: "data_cb A = Some cb" using A by (auto simp: app_contract_def split: option.splits)
  obtain mem q written w frames cbs' out' cs' where d:
    "cb (if ?infs = None then None else Some (buffer_bytes inb))
        (if ?outfs = None then None else Some (take (length (buffer_bytes outb)) mem)) n (app t) = (q, written, w)"
    "length mem = unat ?sz"
    "data_callback K (client_rpc K A) cbs (buffer_bytes inb) (buffer_bytes outb) n (cs, t)
       = (Ok frames, cbs', out', cs', t\<lparr>app := w\<rparr>)" "stream_ends cbs' cs'"
    "if 0 \<le> sint q \<and> sint q \<le> sint n
      then frames = q \<and> out' = (case ?outfs of None \<Rightarrow> buffer_bytes outb
          | Some fs \<Rightarrow> take (unat q * unat fs) written @ drop (unat q * unat fs) (buffer_bytes outb))
      else frames = cubeb_error_frames K \<and> out' = buffer_bytes outb"
    using data_callback_run [OF ends conn idle A cb n buffer_fitsD(2,3) [OF i] buffer_fitsD(2,3) [OF o] nz, of K]
    by blast
  let ?mem = "take (length (buffer_bytes outb)) mem"
  have len: "length ?mem = unat n * frame_bytes ?outfs" using d(2) buffer_fitsD(2,3) [OF o] by simp
  have "length written = length (buffer_bytes outb)" if "?outfs \<noteq> None"
    using A cb d(1) that len buffer_fitsD(2) [OF o] by (fastforce simp: app_contract_def split: prod.splits)
  then have "Frames frames (map_option (\<lambda>mem. out' @ drop (length out') mem) outb) = played K ?outfs n q written outb"
    using o by (intro played_eq [OF buffer_fitsD(2) [OF o] _ d(5)]) (auto simp: buffer_fits_def)
  moreover have "serve_callback K f (client_rpc K A) (DataCallback inb outb n) (cbs, cs, t) =
      Some (Frames frames (map_option (\<lambda>mem. out' @ drop (length out') mem) outb), cbs', cs', t\<lparr>app := w\<rparr>)"
    using d(3) buffer_fitsD(1) [OF i] buffer_fitsD(1) [OF o] by (simp add: serve_callback_def data_cb_c_def)
  moreover have "app_step K f A (device_change_cb cs) ?infs ?outfs (DataCallback inb outb n) (app t)
      (played K ?outfs n q written outb) w"
    using cb len by (rule app_step.data) (use d(1) in simp)
  ultimately show thesis
    using that d(4) data_callback_same [OF d(3)] data_callback_keeps_dev [OF d(3)] by metis
qed

lemma callback_served:
  assumes ends: "stream_ends cbs cs" and conn: "connected cbs" and idle: "\<not> in_callback t" and A: "app_contract A"
    and nz: "scb_output_frame_size cbs \<noteq> Some 0" and fits: "callback_fits cbs ev"
  obtains r cbs' cs' w' where
    "serve_callback K f (client_rpc K A) ev (cbs, cs, t) = Some (r, cbs', cs', t\<lparr>app := w'\<rparr>)"
    "app_step K f A (device_change_cb cs) (scb_input_frame_size cbs) (scb_output_frame_size cbs) ev (app t) r w'"
    "stream_ends cbs' cs'" "same_stream cbs cbs'" "device_change_cb cs' = device_change_cb cs"
proof (cases ev)
  case (DataCallback inb outb n)
  with data_callback_served [OF ends conn idle A nz, of inb outb n K f] fits that show thesis by metis
next
  case (StateCallback s)
  obtain cb where "state_cb A = Some cb" using A by (auto simp: app_contract_def)
  with StateCallback conn idle stream_ends_bytes [OF ends] show thesis
    by (intro that [of Told cbs "cs\<lparr>cs_shm := (cs_shm cs)\<lparr>shm_bytes := shm_bytes (scb_shm cbs)\<rparr>\<rparr>" "cb (f s) (app t)"])
      (simp_all add: serve_callback_def state_cb_c_def state_callback_def client_rpc_state app_step.state)
next
  case DeviceChangeCallback
  with conn idle stream_ends_bytes [OF ends] show thesis
    by (intro that [of Told cbs "cs\<lparr>cs_shm := (cs_shm cs)\<lparr>shm_bytes := shm_bytes (scb_shm cbs)\<rparr>\<rparr>"
          "case device_change_cb cs of None \<Rightarrow> app t | Some cb \<Rightarrow> cb (app t)"])
      (simp_all add: serve_callback_def device_change_cb_c_def device_change_callback_def client_rpc_device_change
        app_step.device)
qed

section \<open>All of them\<close>

lemma callbacks_served:
  assumes "stream_ends cbs cs" "connected cbs" "\<not> in_callback t" and A: "app_contract A"
    and "scb_output_frame_size cbs \<noteq> Some 0" "\<And>ev. ev \<in> set evs \<Longrightarrow> callback_fits cbs ev"
  shows "\<exists>rs cbs' cs' w'. serve_callbacks K f (client_rpc K A) evs (cbs, cs, t) = Some (rs, cbs', cs', t\<lparr>app := w'\<rparr>) \<and>
     app_run K f A (device_change_cb cs) (scb_input_frame_size cbs) (scb_output_frame_size cbs) evs (app t) rs w' \<and>
     stream_ends cbs' cs' \<and> same_stream cbs cbs'"
  using assms
proof (induction evs arbitrary: cbs cs t)
  case Nil
  then show ?case by (auto intro!: exI [of _ "app t"] app_run.nil)
next
  case (Cons ev evs)
  obtain r cbs1 cs1 w1 where 1: "serve_callback K f (client_rpc K A) ev (cbs, cs, t) = Some (r, cbs1, cs1, t\<lparr>app := w1\<rparr>)"
    "app_step K f A (device_change_cb cs) (scb_input_frame_size cbs) (scb_output_frame_size cbs) ev (app t) r w1"
    "stream_ends cbs1 cs1" "same_stream cbs cbs1" "device_change_cb cs1 = device_change_cb cs"
    by (rule callback_served [OF Cons.prems(1-5), of ev K f]) (use Cons.prems(6) in auto)
  have fs: "scb_input_frame_size cbs1 = scb_input_frame_size cbs" "scb_output_frame_size cbs1 = scb_output_frame_size cbs"
    "connected cbs1" using 1(4) Cons.prems(2) by (simp_all add: same_stream_def)
  obtain rs cbs' cs' w' where 2: "serve_callbacks K f (client_rpc K A) evs (cbs1, cs1, t\<lparr>app := w1\<rparr>) =
        Some (rs, cbs', cs', t\<lparr>app := w1\<rparr>\<lparr>app := w'\<rparr>)"
      "app_run K f A (device_change_cb cs1) (scb_input_frame_size cbs1) (scb_output_frame_size cbs1) evs (app (t\<lparr>app := w1\<rparr>)) rs w'"
      "stream_ends cbs' cs'" "same_stream cbs1 cbs'"
    using Cons.IH [OF 1(3), of "t\<lparr>app := w1\<rparr>"] fs Cons.prems callback_fits_same [OF 1(4)] by auto
  have "serve_callbacks K f (client_rpc K A) (ev # evs) (cbs, cs, t) = Some (r # rs, cbs', cs', t\<lparr>app := w'\<rparr>)"
    using 1(1) 2(1) by simp
  moreover have "app_run K f A (device_change_cb cs) (scb_input_frame_size cbs) (scb_output_frame_size cbs)
      (ev # evs) (app t) (r # rs) w'"
    using 1(2,5) 2(2) fs by (auto intro: app_run.cons)
  ultimately show ?case using 2(3) same_stream_trans [OF 1(4) 2(4)] by blast
qed

text \<open>
  C3: whatever sequence of callbacks cubeb runs on a stream of the server, in any order and of any sizes that fit
  the shared memory, is that sequence run by the application itself: each callback once, in the same order, on
  the same frames, with the same effect on the application and the same frames and bytes in cubeb's buffers; and the two
  ends of the stream still belong together.
\<close>

theorem audio_session:
  assumes "stream_ends cbs cs" "connected cbs" "\<not> in_callback t" "app_contract A"
    and "scb_output_frame_size cbs \<noteq> Some 0" "\<And>ev. ev \<in> set evs \<Longrightarrow> callback_fits cbs ev"
  shows "\<exists>rs cbs' cs' w'. serve_callbacks K f (client_rpc K A) evs (cbs, cs, t) = Some (rs, cbs', cs', t\<lparr>app := w'\<rparr>) \<and>
     app_run K f A (device_change_cb cs) (scb_input_frame_size cbs) (scb_output_frame_size cbs) evs (app t) rs w' \<and>
     stream_ends cbs' cs' \<and> same_stream cbs cbs'"
  by (rule callbacks_served [OF assms])

text \<open>The example's duplex stream: a start, one frame, a change of device.\<close>

theorem audio_session_witness:
  "\<exists>cbs' cs'. serve_callbacks cubeb_h id (client_rpc cubeb_h demo_app)
       [StateCallback 0, DataCallback (Some [5, 6]) (Some [0, 0]) 1, DeviceChangeCallback]
       (demo_duplex, demo_callback_server, \<lparr>in_callback = False, app = 0\<rparr>)
     = Some ([Told, Frames 1 (Some [9, 9]), Told], cbs', cs', \<lparr>in_callback = False, app = 2\<rparr>) \<and> stream_ends cbs' cs'"
proof -
  let ?evs = "[StateCallback 0, DataCallback (Some [5, 6]) (Some [0, 0]) 1, DeviceChangeCallback]"
  have ends: "stream_ends demo_duplex demo_callback_server"
    using demo_callback_server_inv
    by (simp add: stream_ends_def cbs_inv_def shm_inv_def demo_duplex_def demo_callback_server_def)
  have fs: "scb_input_frame_size demo_duplex = Some 2" "scb_output_frame_size demo_duplex = Some 2"
    "shm_size (scb_shm demo_duplex) = 4" "connected demo_duplex" "device_change_cb demo_callback_server = None"
    by (simp_all add: demo_duplex_def demo_callback_server_def)
  have "callback_fits demo_duplex ev" if "ev \<in> set ?evs" for ev
    using that by (auto simp: callback_fits_def fs buffer_fits_def buffer_holds_def frame_bytes_def)
  from audio_session [where evs = ?evs and t = "\<lparr>in_callback = False, app = 0\<rparr>" and K = cubeb_h and f = id,
      OF ends _ _ demo_app_contract _ this]
  obtain rs cbs' cs' w' where r: "serve_callbacks cubeb_h id (client_rpc cubeb_h demo_app) ?evs
       (demo_duplex, demo_callback_server, \<lparr>in_callback = False, app = 0\<rparr>)
     = Some (rs, cbs', cs', \<lparr>in_callback = False, app = w'\<rparr>)" "stream_ends cbs' cs'"
    and run: "app_run cubeb_h id demo_app None (Some 2) (Some 2) ?evs 0 rs w'"
    by (auto simp: fs simp del: serve_callbacks.simps)
  have "replicate 2 (9 :: byte) = [9, 9]" by (simp add: numeral_2_eq_2)
  with run have "rs = [Told, Frames 1 (Some [9, 9]), Told] \<and> w' = 2"
    by (auto elim!: app_run_consE app_run_nilE app_step.cases simp: demo_app_def played_def frame_bytes_def)
  with r show ?thesis by blast
qed

end
