(* ===== verification/RemoteSession.thy ===== *)
theory RemoteSession
  imports Remote AudioSession
begin

text \<open>
  The audio of a stream over time, from its creation by the client: what cubeb gets from a stream that
  \<open>ClientContext::stream_init\<close> has created, for whatever sequence of callbacks cubeb runs on it.
\<close>

text \<open>
  A callback that cubeb may run on a stream with the given parameters: a data callback asks for at least one and at
  most a second of frames and passes a buffer for each direction of the stream.
\<close>

definition valid_buffer :: "cubeb_abi \<Rightarrow> stream_params option \<Rightarrow> isize \<Rightarrow> byte list option \<Rightarrow> bool" where
  "valid_buffer K params n buffer \<longleftrightarrow> buffer_holds n (map_option (frame_size_in_bytes K) params) buffer \<and>
     (case params of None \<Rightarrow> True | Some p \<Rightarrow> buffer \<noteq> None \<and> unat n \<le> unat (rate p))"

definition callback_of :: "cubeb_abi \<Rightarrow> stream_params option \<Rightarrow> stream_params option \<Rightarrow> stream_callback \<Rightarrow> bool" where
  "callback_of K in_params out_params ev = (case ev of
     DataCallback inb outb n \<Rightarrow> 0 < sint n \<and> valid_buffer K in_params n inb \<and> valid_buffer K out_params n outb
   | _ \<Rightarrow> True)"

lemma callback_of_fits:
  assumes K: "cubeb_abi_contract K"
    and valid: "validate_stream_create_params K (create_request name in_dev in_params out_dev out_params latency) = Ok ()"
    and sz: "shm_size (scb_shm cbs) = shm_area_size_for K 0 (create_request name in_dev in_params out_dev out_params latency)"
    and fs: "scb_input_frame_size cbs = map_option (frame_size_in_bytes K) in_params"
      "scb_output_frame_size cbs = map_option (frame_size_in_bytes K) out_params"
    and ev: "callback_of K in_params out_params ev"
  shows "callback_fits cbs ev"
proof (cases ev)
  case (DataCallback inb outb n)
  have second: "unat n \<le> unat (rate p)" if "in_params = Some p \<or> out_params = Some p" for p
    using ev DataCallback that by (auto simp: callback_of_def valid_buffer_def)
  note fits = a_second_fits [OF K valid second]
  show ?thesis
    using ev DataCallback fits [of in_params] fits [of out_params]
    by (cases in_params; cases out_params)
      (auto simp: callback_of_def callback_fits_def buffer_fits_def valid_buffer_def fs sz)
qed (simp_all add: callback_fits_def)

text \<open>What a stream that the client has created does with the callbacks of cubeb; \<open>audio_session\<close> for it.\<close>

lemma created_stream_session:
  assumes K: "cubeb_abi_contract K" and E: "served K C SE S fd E" and o: "outside st = (Some sst, v)"
    and inv: "server_inv K S (sv sst)" and size: "configured_shm_size (sv sst) = 0"
    and name: "\<And>n. name = Some n \<Longrightarrow> 0 \<notin> set n"
    and init: "context_stream_init K E name in_dev in_params out_dev out_params latency A user_ptr st = (Ok s, st')"
    and A: "app_contract A" and idle: "\<not> in_callback t"
    and evs: "\<And>ev. ev \<in> set evs \<Longrightarrow> callback_of K in_params out_params ev"
  shows "\<exists>sst' v' ss cs rs cbs' cs' w'. outside st' = (Some sst', v') \<and>
     sl_get S (streams (sv sst')) (st_token s) = Some ss \<and> bound st' (st_cell s) = Some (A, cs) \<and>
     serve_callbacks K f (client_rpc K A) evs (ss_cbs ss, cs, t) = Some (rs, cbs', cs', t\<lparr>app := w'\<rparr>) \<and>
     app_run K f A None (map_option (frame_size_in_bytes K) in_params) (map_option (frame_size_in_bytes K) out_params)
       evs (app t) rs w' \<and> stream_ends cbs' cs'"
proof -
  let ?P = "create_request name in_dev in_params out_dev out_params latency"
  obtain sst' v' ss cs where c: "outside st' = (Some sst', v')" "sl_get S (streams (sv sst')) (st_token s) = Some ss"
    "bound st' (st_cell s) = Some (A, cs)" "connected (ss_cbs ss)" "stream_ends (ss_cbs ss) cs" "device_change_cb cs = None"
    and valid: "validate_stream_create_params K ?P = Ok ()"
    and shm: "shm_size (scb_shm (ss_cbs ss)) = shm_area_size_for K 0 ?P"
    and fs: "scb_input_frame_size (ss_cbs ss) = map_option (frame_size_in_bytes K) in_params"
      "scb_output_frame_size (ss_cbs ss) = map_option (frame_size_in_bytes K) out_params"
    using created_stream [OF K E o inv name init] size by auto
  have P: "output_stream_params ?P = out_params" by (simp add: create_request_def)
  have nz: "scb_output_frame_size (ss_cbs ss) \<noteq> Some 0"
    using valid_paramsD(3) [OF K validate_create_Ok(3) [OF valid]] by (auto simp: fs P)
  have "callback_fits (ss_cbs ss) ev" if "ev \<in> set evs" for ev
    by (rule callback_of_fits [OF K valid shm fs evs [OF that]])
  from callbacks_served [OF c(5,4) idle A nz this, of evs K f] c(6) fs
  obtain rs cbs' cs' w' where "serve_callbacks K f (client_rpc K A) evs (ss_cbs ss, cs, t) = Some (rs, cbs', cs', t\<lparr>app := w'\<rparr>)"
    "app_run K f A None (map_option (frame_size_in_bytes K) in_params) (map_option (frame_size_in_bytes K) out_params)
       evs (app t) rs w'" "stream_ends cbs' cs'" by auto
  with c(1-3) show ?thesis by blast
qed

text \<open>
  C1: a stream that the client has created plays: whatever callbacks cubeb runs on it, in any order, each
  data callback for at most a second of frames, they are the application's own callbacks, each once, in the same order, on the
  same input, and cubeb gets the frames and the bytes that the application returned.  No size has to be assumed.
\<close>

theorem remote_stream_session:
  assumes K: "cubeb_abi_contract K" and E: "served K C SE S fd E" and o: "outside st = (Some sst, v)"
    and inv: "server_inv K S (sv sst)" and size: "configured_shm_size (sv sst) = 0"
    and name: "\<And>n. name = Some n \<Longrightarrow> 0 \<notin> set n"
    and init: "context_stream_init K E name in_dev in_params out_dev out_params latency A user_ptr st = (Ok s, st')"
    and A: "app_contract A" and idle: "\<not> in_callback t"
    and evs: "\<And>ev. ev \<in> set evs \<Longrightarrow> callback_of K in_params out_params ev"
  shows "\<exists>sst' v' ss cs rs cbs' cs' w'. outside st' = (Some sst', v') \<and>
     sl_get S (streams (sv sst')) (st_token s) = Some ss \<and> bound st' (st_cell s) = Some (A, cs) \<and>
     serve_callbacks K f (client_rpc K A) evs (ss_cbs ss, cs, t) = Some (rs, cbs', cs', t\<lparr>app := w'\<rparr>) \<and>
     app_run K f A None (map_option (frame_size_in_bytes K) in_params) (map_option (frame_size_in_bytes K) out_params)
       evs (app t) rs w' \<and> stream_ends cbs' cs'"
  by (rule created_stream_session [OF assms])

text \<open>The example's stream started, playing two frames, and stopped.\<close>

theorem remote_stream_session_witness:
  "\<exists>st' sst' ss cs cbs' cs'. context_stream_init cubeb_h (demo_client_env demo_cubeb quiet_os) None 0 None 0
       (Some demo_playback) 128 demo_app 7 (demo_client demo_server) = (Ok \<lparr>st_user_ptr = 7, st_token = 0, st_cell = 5\<rparr>, st') \<and>
     outside st' = (Some sst', ()) \<and> sl_get list_slab (streams (sv sst')) 0 = Some ss \<and> bound st' 5 = Some (demo_app, cs) \<and>
     serve_callbacks cubeb_h id (client_rpc cubeb_h demo_app)
       [StateCallback 0, DataCallback None (Some (replicate 16 0)) 2, StateCallback 1]
       (ss_cbs ss, cs, \<lparr>in_callback = False, app = 0\<rparr>)
       = Some ([Told, Frames 2 (Some (replicate 16 9)), Told], cbs', cs', \<lparr>in_callback = False, app = 3\<rparr>)"
proof -
  let ?evs = "[StateCallback 0, DataCallback None (Some (replicate 16 0)) 2, StateCallback 1]"
  obtain st' sst' where 1: "context_stream_init cubeb_h (demo_client_env demo_cubeb quiet_os) None 0 None 0
      (Some demo_playback) 128 demo_app 7 (demo_client demo_server) = (Ok \<lparr>st_user_ptr = 7, st_token = 0, st_cell = 5\<rparr>, st')"
    "outside st' = (Some sst', ())"
    using demo_client_started by blast
  have o: "outside (demo_client demo_server) = (Some demo_server, ())" by (simp add: demo_client_def)
  have size: "configured_shm_size (sv demo_server) = 0" by (simp add: demo_server_def cubeb_server_new_def)
  have fs: "frame_size_in_bytes cubeb_h demo_playback = 8" "rate demo_playback = 48000"
    by (simp_all add: frame_size_in_bytes_def demo_playback_def cubeb_h_def cubeb_h_format_def Let_def)
  have evs: "callback_of cubeb_h None (Some demo_playback) ev" if "ev \<in> set ?evs" for ev
    using that by (auto simp: callback_of_def valid_buffer_def buffer_holds_def frame_bytes_def fs)
  from remote_stream_session [where evs = ?evs and f = id and t = "\<lparr>in_callback = False, app = 0\<rparr>",
      OF cubeb_h_contract demo_keeps_served o demo_server_inv size _ 1(1) demo_app_contract _ evs] 1(2)
  obtain ss cs rs cbs' cs' w' where r: "sl_get list_slab (streams (sv sst')) 0 = Some ss" "bound st' 5 = Some (demo_app, cs)"
    "serve_callbacks cubeb_h id (client_rpc cubeb_h demo_app) ?evs (ss_cbs ss, cs, \<lparr>in_callback = False, app = 0\<rparr>)
       = Some (rs, cbs', cs', \<lparr>in_callback = False, app = w'\<rparr>)"
    and run: "app_run cubeb_h id demo_app None None (Some 8) ?evs 0 rs w'"
    by (auto simp: fs simp del: serve_callbacks.simps)
  have "rs = [Told, Frames 2 (Some (replicate 16 9)), Told] \<and> w' = 3"
    using run by (auto elim!: app_run_consE app_run_nilE app_step.cases simp: demo_app_def played_def frame_bytes_def)
  with 1 r show ?thesis by blast
qed

end
