(* ===== verification/TestClient.thy ===== *)
theory TestClient
  imports RemoteSession
begin

text \<open>
  The test client (\<open>ipctest/src/client.rs\<close>): it connects to a server, asks for its properties and devices, prints
  them, and plays a tone for half a second.

  It reaches the client library through the crate \<open>cubeb\<close>, whose operations are the parameters \<open>cubeb_api\<close> over
  a state \<open>'st\<close>; \<open>client_api\<close> is the crate over the client of this repository.  Standard output is the list of
  the lines printed, as bytes.
\<close>

section \<open>Printing a device\<close>

text \<open>
  The enumerators and flags of devices, and the conversions of the crate: \<open>device_state_of\<close> is \<open>None\<close> for a state
  that it panics on, \<open>device_str\<close> reads a C string.
\<close>

datatype device_state = Disabled | Unplugged | Enabled

record device_abi =
  FMT_S16LE :: u32
  FMT_S16BE :: u32
  FMT_F32LE :: u32
  FMT_F32BE :: u32
  device_fmt_truncate :: "u32 \<Rightarrow> u32"
  device_fmt_contains :: "u32 \<Rightarrow> u32 \<Rightarrow> bool"
  device_state_of :: "u32 \<Rightarrow> device_state option"
  device_pref_truncate :: "u32 \<Rightarrow> u32"
  device_str :: "c_char_ptr \<Rightarrow> byte list option"

fun hex :: "nat \<Rightarrow> byte list" where
  "hex n = (if n < 16 then [of_nat (if n < 10 then 48 + n else 87 + n)]
     else hex (n div 16) @ [of_nat (if n mod 16 < 10 then 48 + n mod 16 else 87 + n mod 16)])"

declare hex.simps [simp del]

definition device_kind :: "cubeb_abi \<Rightarrow> cubeb_device_info \<Rightarrow> byte list" where
  "device_kind K info = (let ty = device_type_truncate K (cdi_device_type info) in
     if device_type_contains K ty (DEVICE_TYPE_INPUT K) then ascii ''input''
     else if device_type_contains K ty (DEVICE_TYPE_OUTPUT K) then ascii ''output''
     else ascii ''unknown?'')"

definition state_name :: "device_state \<Rightarrow> byte list" where
  "state_name s = (case s of Disabled \<Rightarrow> ascii ''disabled'' | Unplugged \<Rightarrow> ascii ''unplugged'' | Enabled \<Rightarrow> ascii ''enabled'')"

definition default_format_name :: "device_abi \<Rightarrow> cubeb_device_info \<Rightarrow> byte list" where
  "default_format_name D info = (let fmt = device_fmt_truncate D (cdi_default_format info) in
     if fmt = FMT_S16LE D then ascii ''S16LE''
     else if fmt = FMT_S16BE D then ascii ''S16BE''
     else if fmt = FMT_F32LE D then ascii ''F32LE''
     else if fmt = FMT_F32BE D then ascii ''F32BE''
     else ascii ''unknown?'')"

text \<open>The names of the formats, each behind a space.\<close>

definition format_names :: "device_abi \<Rightarrow> cubeb_device_info \<Rightarrow> byte list" where
  "format_names D info = (let fmts = device_fmt_truncate D (cdi_format info) in
     (if device_fmt_contains D fmts (FMT_S16LE D) then ascii '' S16LE'' else []) @
     (if device_fmt_contains D fmts (FMT_S16BE D) then ascii '' S16BE'' else []) @
     (if device_fmt_contains D fmts (FMT_F32LE D) then ascii '' F32LE'' else []) @
     (if device_fmt_contains D fmts (FMT_F32BE D) then ascii '' F32BE'' else []))"

definition quoted :: "string \<Rightarrow> byte list \<Rightarrow> byte list" where
  "quoted label s = ascii label @ ascii [CHR 0x22] @ s @ ascii [CHR 0x22]"

text \<open>The lines before the one that slices the names of the formats, and those from it on.\<close>

definition device_heading :: "cubeb_abi \<Rightarrow> device_abi \<Rightarrow> device_state \<Rightarrow> cubeb_device_info \<Rightarrow> byte list list" where
  "device_heading K D devstate info =
     (case device_str D (cdi_device_id info) of None \<Rightarrow> [] | Some s \<Rightarrow>
        [quoted ''dev: '' s @ (if device_pref_truncate D (cdi_preferred info) = 0 then [] else ascii '' (PREFERRED)'')]) @
     (case device_str D (cdi_friendly_name info) of None \<Rightarrow> [] | Some s \<Rightarrow> [9 # quoted ''Name:    '' s]) @
     (case device_str D (cdi_group_id info) of None \<Rightarrow> [] | Some s \<Rightarrow> [9 # quoted ''Group:   '' s]) @
     (case device_str D (cdi_vendor_name info) of None \<Rightarrow> [] | Some s \<Rightarrow> [9 # quoted ''Vendor:  '' s]) @
     [9 # ascii ''Type:    '' @ device_kind K info,
      9 # ascii ''State:   '' @ state_name devstate,
      9 # ascii ''Ch:      '' @ decimal (unat (cdi_max_channels info))]"

definition device_numbers :: "device_abi \<Rightarrow> cubeb_device_info \<Rightarrow> byte list list" where
  "device_numbers D info =
     [9 # ascii ''Format:  '' @ tl (format_names D info) @ ascii '' (0x'' @
        hex (unat (device_fmt_truncate D (cdi_format info))) @ ascii '') (default: '' @ default_format_name D info @ ascii '')'',
      9 # ascii ''Rate:    '' @ decimal (unat (cdi_min_rate info)) @ ascii '' - '' @ decimal (unat (cdi_max_rate info)) @
        ascii '' (default: '' @ decimal (unat (cdi_default_rate info)) @ ascii '')'',
      9 # ascii ''Latency: lo '' @ decimal (unat (cdi_latency_lo info)) @ ascii '' frames, hi '' @
        decimal (unat (cdi_latency_hi info)) @ ascii '' frames'']"

text \<open>\<open>&devfmts[1..]\<close> panics when there is no format.\<close>

definition print_device_info ::
  "cubeb_abi \<Rightarrow> device_abi \<Rightarrow> cubeb_device_info \<Rightarrow> byte list list \<Rightarrow> ('e, unit) res \<times> byte list list" where
  "print_device_info K D info out = (case device_state_of D (cdi_state info) of
     None \<Rightarrow> (Panic, out)
   | Some devstate \<Rightarrow>
       let out = out @ device_heading K D devstate info in
       if format_names D info = [] then (Panic, out) else (Ok (), out @ device_numbers D info))"

fun print_devices ::
  "cubeb_abi \<Rightarrow> device_abi \<Rightarrow> cubeb_device_info list \<Rightarrow> byte list list \<Rightarrow> ('e, unit) res \<times> byte list list" where
  "print_devices K D [] out = (Ok (), out)"
| "print_devices K D (info # infos) out =
     and_then (print_device_info K D info out) (\<lambda>_ out. print_devices K D infos out)"

section \<open>The crate's operations\<close>

record ('a, 'st) cubeb_api =
  api_client_init :: "handle \<Rightarrow> 'st \<Rightarrow> (unit ipc_error, c_int) res \<times> 'st"
  api_preferred_sample_rate :: "'st \<Rightarrow> (cubeb_error, u32) res \<times> 'st"
  api_max_channel_count :: "'st \<Rightarrow> (cubeb_error, u32) res \<times> 'st"
  api_min_latency :: "stream_params \<Rightarrow> 'st \<Rightarrow> (cubeb_error, u32) res \<times> 'st"
  api_backend_id :: "'st \<Rightarrow> (unit ipc_error, byte list) res \<times> 'st"
  api_enumerate_devices :: "u32 \<Rightarrow> 'st \<Rightarrow> (cubeb_error, cubeb_device_info list) res \<times> 'st"
  api_collection_drop :: "cubeb_device_info list \<Rightarrow> 'st \<Rightarrow> 'st"
  api_stream_init :: "byte list \<Rightarrow> nat \<Rightarrow> stream_params \<Rightarrow> u32 \<Rightarrow> 'a app_callbacks \<Rightarrow> 'st \<Rightarrow>
    (cubeb_error, client_stream) res \<times> 'st"
  api_set_volume :: "client_stream \<Rightarrow> f32 \<Rightarrow> 'st \<Rightarrow> (cubeb_error, unit) res \<times> 'st"
  api_start :: "client_stream \<Rightarrow> 'st \<Rightarrow> (cubeb_error, unit) res \<times> 'st"
  api_stop :: "client_stream \<Rightarrow> 'st \<Rightarrow> (cubeb_error, unit) res \<times> 'st"
  api_stream_drop :: "client_stream \<Rightarrow> 'st \<Rightarrow> ((unit ipc_error, unit) res \<times> 'st) option"
  api_context_drop :: "'st \<Rightarrow> ((unit ipc_error, unit) res \<times> 'st) option"
  api_sleep :: "nat \<Rightarrow> 'st \<Rightarrow> 'st"

text \<open>A program that runs these operations and prints.\<close>

type_synonym ('st, 'r) prog = "'st \<times> byte list list \<Rightarrow> (unit ipc_error, 'r) res \<times> 'st \<times> byte list list"

definition on_api :: "('st \<Rightarrow> ('e, 'r) res \<times> 'st) \<Rightarrow> 'st \<times> byte list list \<Rightarrow> ('e, 'r) res \<times> 'st \<times> byte list list" where
  "on_api f = (\<lambda>(st, out). case f st of (r, st) \<Rightarrow> (r, st, out))"

definition say :: "byte list \<Rightarrow> ('st, unit) prog" where
  "say line = (\<lambda>(st, out). (Ok (), st, out @ [line]))"

definition on_output :: "(byte list list \<Rightarrow> (unit ipc_error, 'r) res \<times> byte list list) \<Rightarrow> ('st, 'r) prog" where
  "on_output f = (\<lambda>(st, out). case f out of (r, out) \<Rightarrow> (r, st, out))"

text \<open>
  Dropping a value at the end of its scope, whatever the result there; \<open>None\<close>: the drop never returns, a panic of
  the scope ends the program.
\<close>

definition dropping ::
  "('e, 'r) res \<times> 'st \<times> 'out \<Rightarrow> ('st \<Rightarrow> (('e, unit) res \<times> 'st) option) \<Rightarrow> (('e, 'r) res \<times> 'st \<times> 'out) option" where
  "dropping m drp = (case m of (r, st, out) \<Rightarrow>
     if r = Panic then Some (Panic, st, out)
     else (case drp st of
       None \<Rightarrow> None | Some (d, st) \<Rightarrow> Some (if d = Panic then Panic else r, st, out)))"

definition drop_collection ::
  "('a, 'st) cubeb_api \<Rightarrow> cubeb_device_info list \<Rightarrow> ('e, 'r) res \<times> 'st \<times> 'out \<Rightarrow> ('e, 'r) res \<times> 'st \<times> 'out" where
  "drop_collection P devices m = (case m of (r, st, out) \<Rightarrow>
     if r = Panic then m else (r, api_collection_drop P devices st, out))"

text \<open>The displays of cubeb's errors, and \<open>query!\<close>.\<close>

record error_text =
  display_error :: "cubeb_error \<Rightarrow> string"
  debug_error :: "cubeb_error \<Rightarrow> string"

definition query :: "error_text \<Rightarrow> string \<Rightarrow> (cubeb_error, 'r) res \<times> 's \<Rightarrow> (unit ipc_error, 'r) res \<times> 's" where
  "query T e m = (case m of (r, s) \<Rightarrow> (map_err (\<lambda>err. ErrOther (''Cubeb API error in '' @ e @ '': '' @
     display_error T err @ '' ('' @ debug_error T err @ '')'')) r, s))"

section \<open>The tone\<close>

text \<open>
  Floating-point arithmetic is a parameter, on bit patterns; the literals are written out: \<open>2.0\<close>, \<open>PI\<close>, \<open>350.0\<close>,
  \<open>440.0\<close>, \<open>0.5\<close>.  \<open>i16_from_float\<close> is the crate's conversion of a sample.
\<close>

record f32_ops =
  f32_mul :: "f32 \<Rightarrow> f32 \<Rightarrow> f32"
  f32_div :: "f32 \<Rightarrow> f32 \<Rightarrow> f32"
  f32_add :: "f32 \<Rightarrow> f32 \<Rightarrow> f32"
  f32_sin :: "f32 \<Rightarrow> f32"
  f32_of_u32 :: "u32 \<Rightarrow> f32"
  i16_from_float :: "f32 \<Rightarrow> 16 word"

definition SAMPLE_RATE :: u32 where
  "SAMPLE_RATE = 48000"

definition oscillator :: "f32_ops \<Rightarrow> f32 \<Rightarrow> u32 \<Rightarrow> f32" where
  "oscillator F frequency pos =
     f32_sin F (f32_div F (f32_mul F (f32_mul F (f32_mul F 0x40000000 0x40490FDB) frequency) (f32_of_u32 F pos))
       (f32_of_u32 F SAMPLE_RATE))"

definition tone_sample :: "f32_ops \<Rightarrow> u32 \<Rightarrow> 16 word" where
  "tone_sample F pos =
     (let t1 = oscillator F 0x43AF0000 pos; t2 = oscillator F 0x43DC0000 pos
      in i16_from_float F (f32_mul F 0x3F000000 (f32_add F t1 t2)))"

text \<open>A frame is one sample of 16 bits; the loop over the frames of the output writes each and counts.\<close>

definition i16_le :: "16 word \<Rightarrow> byte list" where
  "i16_le w = [ucast w, ucast (drop_bit 8 w)]"

fun write_tone :: "f32_ops \<Rightarrow> nat \<Rightarrow> u32 \<Rightarrow> byte list \<times> u32" where
  "write_tone F 0 pos = ([], pos)"
| "write_tone F (Suc n) pos =
     (case write_tone F n (pos + 1) of (bs, pos') \<Rightarrow> (i16_le (tone_sample F pos) @ bs, pos'))"

text \<open>
  The callbacks with what the application keeps: the position and what the state callback printed.  The position wraps as in a build without
  overflow checks (after a day of playing).  The crate makes a
  slice of \<open>nframes\<close> frames from the output pointer (none for a null pointer).
\<close>

record tone_app =
  tone_position :: u32
  tone_output :: "byte list list"

definition tone_data_callback ::
  "f32_ops \<Rightarrow> byte list option \<Rightarrow> byte list option \<Rightarrow> usize \<Rightarrow> tone_app \<Rightarrow> isize \<times> byte list \<times> tone_app" where
  "tone_data_callback F input output nframes a = (case output of
     None \<Rightarrow> (0, [], a)
   | Some mem \<Rightarrow>
       let n = length mem div 2 in
       (case write_tone F n (tone_position a) of (bs, p) \<Rightarrow> (of_nat n, bs @ drop (2 * n) mem, a\<lparr>tone_position := p\<rparr>)))"

definition tone_callbacks :: "f32_ops \<Rightarrow> (u32 \<Rightarrow> byte list) \<Rightarrow> tone_app app_callbacks" where
  "tone_callbacks F show_state = \<lparr>data_cb = Some (tone_data_callback F),
     state_cb = Some (\<lambda>s a. a\<lparr>tone_output := tone_output a @ [ascii ''stream '' @ show_state s]\<rparr>)\<rparr>"

section \<open>The test\<close>

text \<open>The constants of the crate that the test names.\<close>

record test_consts =
  SAMPLE_S16NE :: c_int
  LAYOUT_UNDEFINED :: u32
  LAYOUT_MONO :: u32
  PREF_NONE :: u32
  PROCESSING_NONE :: u32

definition tone_params :: "cubeb_abi \<Rightarrow> test_consts \<Rightarrow> stream_params" where
  "tone_params K G = \<lparr>format = CUBEB_SAMPLE_S16LE K, rate = SAMPLE_RATE, channels = 1, layout = LAYOUT_MONO G,
     prefs = PREF_NONE G, input_params = PROCESSING_NONE G\<rparr>"

definition enumerate_devices ::
  "cubeb_abi \<Rightarrow> device_abi \<Rightarrow> error_text \<Rightarrow> ('a, 'st) cubeb_api \<Rightarrow> ('st, unit) prog" where
  "enumerate_devices K D T P s = (case on_api (api_enumerate_devices P (DEVICE_TYPE_INPUT K)) s of
     (Ok devices, s) \<Rightarrow> drop_collection P devices
       (and_then (say (ascii ''Found '' @ decimal (length devices) @ ascii '' input devices'') s) (\<lambda>_ s.
        and_then (on_output (print_devices K D devices) s) (\<lambda>_ s.
        and_then (on_api (api_backend_id P) s) (\<lambda>backend s.
        and_then (say (ascii ''Enumerating output devices for backend '' @ backend) s) (\<lambda>_ s.
        (case on_api (api_enumerate_devices P (DEVICE_TYPE_OUTPUT K)) s of
           (Ok devices, s) \<Rightarrow> drop_collection P devices
             (and_then (say (ascii ''Found '' @ decimal (length devices) @ ascii '' output devices'') s) (\<lambda>_ s.
              on_output (print_devices K D devices) s))
         | (Err e, s) \<Rightarrow> (Err (ErrOther (''Error enumerating devices: '' @ display_error T e)), s)
         | (Panic, s) \<Rightarrow> (Panic, s)))))))
   | (Err e, s) \<Rightarrow>
       if e = NotSupported then say (ascii ''Device enumeration not support for this backend.'') s
       else (Err (ErrOther (''Error enumerating devices: '' @ display_error T e)), s)
   | (Panic, s) \<Rightarrow> (Panic, s))"

text \<open>The variable \<open>AUDIOIPC_TEST_OUTPUT_DEVICE\<close> of the environment, and the device it names.\<close>

datatype env_var = NotPresent | EnvValue "byte list" | NotUnicode string

definition select_output_device ::
  "device_abi \<Rightarrow> env_var \<Rightarrow> cubeb_device_info list \<Rightarrow> (unit ipc_error, nat) res" where
  "select_output_device D var devices = (case var of
     EnvValue name \<Rightarrow>
       (case find (\<lambda>d. device_str D (cdi_device_id d) = Some name \<or> device_str D (cdi_friendly_name d) = Some name) devices of
          Some d \<Rightarrow> Ok (cdi_devid d)
        | None \<Rightarrow> Err (ErrOther (''Output device not found: '' @ map (\<lambda>b. char_of (unat b)) name)))
   | NotPresent \<Rightarrow> Ok 0
   | NotUnicode e \<Rightarrow> Err (ErrOther (''Invalid output device name: '' @ e)))"

text \<open>The stream: created, played for half a second, stopped, and dropped.\<close>

definition play_tone ::
  "cubeb_abi \<Rightarrow> test_consts \<Rightarrow> error_text \<Rightarrow> ('a, 'st) cubeb_api \<Rightarrow> 'a app_callbacks \<Rightarrow> nat \<Rightarrow>
   'st \<times> byte list list \<Rightarrow> ((unit ipc_error, unit) res \<times> 'st \<times> byte list list) option" where
  "play_tone K G T P A device s =
     (case query T ''builder.init(&ctx)''
         (on_api (api_stream_init P (ascii ''Cubeb tone (mono)'') device (tone_params K G) 4096 A) s) of
        (Ok stream, s) \<Rightarrow>
          dropping
            (and_then (query T ''stream.set_volume(1.0)'' (on_api (api_set_volume P stream 0x3F800000) s)) (\<lambda>_ s.
             and_then (query T ''stream.start()'' (on_api (api_start P stream) s)) (\<lambda>_ (st, out).
             query T ''stream.stop()'' (on_api (api_stop P stream) (api_sleep P 500 st, out)))))
            (api_stream_drop P stream)
      | (Err e, s) \<Rightarrow> Some (Err e, s)
      | (Panic, s) \<Rightarrow> Some (Panic, s))"

text \<open>With the device that is asked for; the devices are enumerated only for that, and live until the end.\<close>

definition play_on_device ::
  "cubeb_abi \<Rightarrow> device_abi \<Rightarrow> test_consts \<Rightarrow> error_text \<Rightarrow> ('a, 'st) cubeb_api \<Rightarrow> 'a app_callbacks \<Rightarrow> env_var \<Rightarrow>
   'st \<times> byte list list \<Rightarrow> ((unit ipc_error, unit) res \<times> 'st \<times> byte list list) option" where
  "play_on_device K D G T P A var s =
     (if var = NotPresent then play_tone K G T P A 0 s
      else try_do (Some (query T ''ctx.enumerate_devices(cubeb::DeviceType::OUTPUT)''
          (on_api (api_enumerate_devices P (DEVICE_TYPE_OUTPUT K)) s))) (\<lambda>devices s.
        map_option (drop_collection P devices) (case select_output_device D var devices of
          Ok device \<Rightarrow> play_tone K G T P A device s
        | Err e \<Rightarrow> Some (Err e, s)
        | Panic \<Rightarrow> Some (Panic, s))))"

definition print_properties ::
  "('a, 'st) cubeb_api \<Rightarrow> u32 \<Rightarrow> u32 \<Rightarrow> u32 \<Rightarrow> ('st, unit) prog" where
  "print_properties P channel_count latency sample_rate s =
     and_then (on_api (api_backend_id P) s) (\<lambda>backend s.
     and_then (say (ascii ''Cubeb backend: '' @ backend) s) (\<lambda>_ s.
     and_then (say (ascii ''Max Channels: '' @ decimal (unat channel_count)) s) (\<lambda>_ s.
     and_then (say (ascii ''Min Latency: '' @ decimal (unat latency)) s) (\<lambda>_ s.
     say (ascii ''Preferred Rate: '' @ decimal (unat sample_rate)) s))))"

definition test_with_context ::
  "cubeb_abi \<Rightarrow> device_abi \<Rightarrow> test_consts \<Rightarrow> error_text \<Rightarrow> ('a, 'st) cubeb_api \<Rightarrow> 'a app_callbacks \<Rightarrow> env_var \<Rightarrow>
   'st \<times> byte list list \<Rightarrow> ((unit ipc_error, unit) res \<times> 'st \<times> byte list list) option" where
  "test_with_context K D G T P A var s =
     try_do (Some (query T ''ctx.preferred_sample_rate()'' (on_api (api_preferred_sample_rate P) s))) (\<lambda>sample_rate s.
     try_do (Some (query T ''ctx.max_channel_count()'' (on_api (api_max_channel_count P) s))) (\<lambda>channel_count s.
     let params = \<lparr>format = SAMPLE_S16NE G, rate = sample_rate, channels = channel_count, layout = LAYOUT_UNDEFINED G,
           prefs = PREF_NONE G, input_params = PROCESSING_NONE G\<rparr> in
     try_do (Some (query T ''ctx.min_latency(&params)'' (on_api (api_min_latency P params) s))) (\<lambda>latency s.
     try_do (Some (print_properties P channel_count latency sample_rate s)) (\<lambda>_ s.
     try_do (Some (enumerate_devices K D T P s)) (\<lambda>_ s.
     play_on_device K D G T P A var s)))))"

definition client_test ::
  "cubeb_abi \<Rightarrow> device_abi \<Rightarrow> test_consts \<Rightarrow> error_text \<Rightarrow> ('a, 'st) cubeb_api \<Rightarrow> 'a app_callbacks \<Rightarrow> env_var \<Rightarrow> handle \<Rightarrow>
   'st \<times> byte list list \<Rightarrow> ((unit ipc_error, unit) res \<times> 'st \<times> byte list list) option" where
  "client_test K D G T P A var h s =
     try_do (Some (on_api (api_client_init P h) s)) (\<lambda>code s.
       if code < 0 then Some (Err (ErrOther ''Failed to connect to remote cubeb server.''), s)
       else (case test_with_context K D G T P A var s of
         None \<Rightarrow> None | Some m \<Rightarrow> dropping m (api_context_drop P)))"

section \<open>The crate over the client of this repository\<close>

text \<open>
  Every operation is handed to the backend: the context made by \<open>audioipc2_client_init\<close> and its streams.  Dropping
  the context runs its \<open>Drop\<close> and then ends its two threads.
\<close>

type_synonym ('a, 'w) api_st = "('a, 'w) client_context option \<times> ('a, 'w) client_st"

definition on_client :: "(('a, 'w) client_st \<Rightarrow> ('e, 'r) res \<times> ('a, 'w) client_st) \<Rightarrow> ('a, 'w) api_st \<Rightarrow>
   ('e, 'r) res \<times> ('a, 'w) api_st" where
  "on_client f = (\<lambda>(cx, st). case f st of (r, st) \<Rightarrow> (r, cx, st))"

definition api_init_client :: "cubeb_abi \<Rightarrow> 'w client_env \<Rightarrow> handle \<Rightarrow> ('a, 'w) api_st \<Rightarrow>
   (unit ipc_error, c_int) res \<times> ('a, 'w) api_st" where
  "api_init_client K E h = (\<lambda>(cx, st).
     case client_context_init K E (Some \<lparr>server_connection = h, pool_size = 1, stack_size = 64 * 4096,
         ci_create_callback = None, ci_destroy_callback = None\<rparr>, st) of
       (Ok c, _, st) \<Rightarrow> (Ok 0, Some c, st)
     | (Err e, _, st) \<Rightarrow> (Ok (error_code K e), cx, st)
     | (Panic, _, st) \<Rightarrow> (Panic, cx, st))"

definition api_drop_context :: "cubeb_abi \<Rightarrow> 'w client_env \<Rightarrow> ('a, 'w) api_st \<Rightarrow>
   ((unit ipc_error, unit) res \<times> ('a, 'w) api_st) option" where
  "api_drop_context K E = (\<lambda>(cx, st). case cx of
     None \<Rightarrow> Some (Panic, cx, st)
   | Some c \<Rightarrow> (case client_context_drop K E st of
       (Panic, st) \<Rightarrow> Some (Panic, cx, st)
     | (_, st) \<Rightarrow> Some (Ok (), None, st\<lparr>outside := th_drop (ce_threads E) (elt_thread (cx_callback_thread c))
         (th_drop (ce_threads E) (elt_thread (cx_rpc_thread c)) (outside st))\<rparr>)))"

definition client_api :: "cubeb_abi \<Rightarrow> 'w client_env \<Rightarrow> (nat \<Rightarrow> 'w \<Rightarrow> 'w) \<Rightarrow> ('a, ('a, 'w) api_st) cubeb_api" where
  "client_api K E slp = \<lparr>
     api_client_init = api_init_client K E,
     api_preferred_sample_rate = on_client (context_preferred_sample_rate K E),
     api_max_channel_count = on_client (context_max_channel_count K E),
     api_min_latency = (\<lambda>p. on_client (context_min_latency K E p)),
     api_backend_id = (\<lambda>(cx, st). case cx of None \<Rightarrow> (Panic, cx, st)
       | Some c \<Rightarrow> (case context_backend_id c st of (r, st) \<Rightarrow> (map_err ErrCubeb r, cx, st))),
     api_enumerate_devices = (\<lambda>d. on_client (context_enumerate_devices K E d)),
     api_collection_drop = (\<lambda>ds (cx, st). (cx, snd (context_device_collection_destroy ds st))),
     api_stream_init = (\<lambda>name dev params latency A.
       on_client (context_stream_init K E (Some name) 0 None dev (Some params) latency A 0)),
     api_set_volume = (\<lambda>s v. on_client (stream_set_volume K E s v)),
     api_start = (\<lambda>s. on_client (stream_start K E s)),
     api_stop = (\<lambda>s. on_client (stream_stop K E s)),
     api_stream_drop = (\<lambda>s (cx, st). map_option (\<lambda>(r, st). (map_err ErrCubeb r, cx, st)) (client_stream_drop K E s st)),
     api_context_drop = api_drop_context K E,
     api_sleep = (\<lambda>n (cx, st). (cx, st\<lparr>outside := slp n (outside st)\<rparr>))\<rparr>"

end
