(* ===== verification/TestClientSpec.thy ===== *)
theory TestClientSpec
  imports TestClient
begin

text \<open>
  What the operations of the test client of \<open>TestClient\<close> do to a server: whatever fails, it stays up, and a stream that was
  made is dropped again.  \<open>TestRun\<close> draws the conclusion for a whole run.
\<close>

section \<open>Requests that keep a server going\<close>

text \<open>No request changes the configuration or the thread's context, and the device map only grows.\<close>

definition same_setup :: "('s, 'w) server_st \<Rightarrow> ('s, 'w) server_st \<Rightarrow> bool" where
  "same_setup st st' \<longleftrightarrow> configured_shm_size (sv st') = configured_shm_size (sv st) \<and> local_context st' = local_context st \<and>
     (\<exists>new. devidmap (sv st') = devidmap (sv st) @ new)"

lemma same_setup_world [simp]: "same_setup st (st\<lparr>world := w\<rparr>)" "same_setup st st"
  by (simp_all add: same_setup_def)

lemma init_stream_setup: "init_stream C t p st = (r, st') \<Longrightarrow> sv st' = sv st \<and> local_context st' = local_context st"
  by (auto simp: init_stream_def and_then_def on_world_def split: prod.splits res.splits)

lemma same_setup_streams [simp]:
  "configured_shm_size (sv (update_stream S t ss st)) = configured_shm_size (sv st)"
  "devidmap (sv (update_stream S t ss st)) = devidmap (sv st)"
  "configured_shm_size (sv (remove_stream C E S t st)) = configured_shm_size (sv st)"
  "devidmap (sv (remove_stream C E S t st)) = devidmap (sv st)"
  "local_context (update_stream S t ss st) = local_context st"
  "local_context (remove_stream C E S t st) = local_context st"
  by (simp_all add: update_stream_def remove_stream_def split: option.splits)

lemma process_stream_create_setup: "process_stream_create K E S params st = (r, st') \<Longrightarrow> same_setup st st'"
  by (auto simp: process_stream_create_def and_then_def take_shm_id_def on_world_def same_setup_def Let_def
      split: prod.splits res.splits)

lemma process_stream_init_setup: "process_stream_init K C E S t st = (r, st') \<Longrightarrow> same_setup st st'"
  by (auto simp: process_stream_init_def Let_def same_setup_def dest!: init_stream_setup
      split: option.splits prod.splits res.splits if_splits)

lemma enumerated_devices_grow:
  "enumerated_devices devices infos = (ds, devices') \<Longrightarrow> \<exists>new. devices' = devices @ new"
proof (induction infos arbitrary: devices ds)
  case (Cons i infos)
  obtain h devices1 where h: "make_handle devices (devid (device_info_of_ffi i)) = (h, devices1)" by fastforce
  obtain ds1 where "enumerated_devices devices1 infos = (ds1, devices')"
    using Cons.prems h by (auto simp: Let_def split: prod.splits)
  from Cons.IH [OF this] make_handle_result [OF h] show ?case by auto
qed simp

lemma process_enumeration_setup: "process_enumeration K C d st = (r, st') \<Longrightarrow> same_setup st st'"
  by (auto simp: process_enumeration_def reply_def and_then_def on_world_def same_setup_def
      split: prod.splits res.splits dest: enumerated_devices_grow)

lemma process_stream_msg_setup: "process_stream_msg K C E S m st = (r, st') \<Longrightarrow> same_setup st st'"
  by (auto simp: process_stream_msg_def try_stream_def reply_def on_world_def same_setup_def
      split: server_message.splits option.splits prod.splits if_splits)

lemma process_setup_collection_setup: "process_setup_collection K E st = (r, st') \<Longrightarrow> same_setup st st'"
  by (auto simp: process_setup_collection_def on_world_def same_setup_def Let_def
      split: prod.splits res.splits)

lemma process_register_collection_setup: "process_register_collection K C d enable st = (r, st') \<Longrightarrow> same_setup st st'"
  by (auto simp: process_register_collection_def same_setup_def Let_def split: prod.splits option.splits if_splits)

lemma process_promote_setup: "process_promote E info st = (r, st') \<Longrightarrow> same_setup st st'"
  by (auto simp: process_promote_def on_world_def same_setup_def Let_def split: prod.splits option.splits res.splits if_splits)

lemma reply_on_world_setup: "reply K f (on_world g st) = (r, st') \<Longrightarrow> same_setup st st'"
  by (auto simp: reply_def on_world_def split: prod.splits)

lemma any_error_snd: "any_error K m = (r, st') \<Longrightarrow> \<exists>q. m = (q, st')"
  by (auto simp: any_error_def split: prod.splits)

lemma process_msg_setup: "process_msg K C E S m st = (r, st') \<Longrightarrow> same_setup st st'"
  by (cases m)
    (auto simp: process_msg_def split: if_splits prod.splits
      dest: process_stream_msg_setup process_enumeration_setup process_stream_init_setup process_stream_create_setup
        process_setup_collection_setup process_register_collection_setup process_promote_setup reply_on_world_setup
      dest!: any_error_snd)

lemma reply_not_Err: "reply K f m \<noteq> (Err e, st')"
  by (auto simp: reply_def split: prod.splits)

lemma process_stream_msg_not_Err: "process_stream_msg K C E S m st \<noteq> (Err e, st')"
  by (auto simp: process_stream_msg_def try_stream_def reply_not_Err
      split: server_message.splits option.splits if_splits)

lemma process_msg_not_Err: "process_msg K C E S m st \<noteq> (Err e, st')"
  by (cases m)
    (auto simp: process_msg_def process_stream_msg_not_Err reply_not_Err process_enumeration_def any_error_def
      process_setup_collection_def process_promote_def unwrap_pid_def Let_def
      split: prod.splits res.splits option.splits if_splits)

lemma server_process_not_Err: "server_process K C E S m st \<noteq> (Err e, st')"
  by (auto simp: server_process_def process_msg_not_Err split: prod.splits res.splits)

text \<open>Making the context changes the server in nothing else.\<close>

definition context_safe :: "'w cubeb_ops \<Rightarrow> bool" where
  "context_safe C \<longleftrightarrow> (\<forall>name backend. no_panic (ctx_init C name backend))"

lemma with_local_context_safe:
  fixes st :: "('s, 'w) server_st"
  assumes C: "context_safe C" and np: "local_context st \<noteq> Some Panic" and w: "with_local_context C st = (r, st')"
  shows "r \<noteq> Panic \<and> sv st' = sv st \<and> local_context st' \<noteq> Some Panic"
proof -
  have i: "fst (cubeb_init_from_context_params C s) \<noteq> Panic" for s :: "('s, 'w) server_st"
    unfolding cubeb_init_from_context_params_def
    by (rule no_panic_on_world) (use C in \<open>simp add: context_safe_def\<close>)
  have "r \<noteq> Panic" "local_context st' = Some r"
    using w np i [of st] i by (auto simp: with_local_context_def split: prod.splits option.splits res.splits) (metis fst_conv)+
  with with_local_context_sv [OF w] show ?thesis by simp
qed

text \<open>
  The parts of the system at their contracts.  \<open>up c l n st\<close>: the client's server is up, its streams are \<open>l\<close>, its
  device map has handles for at least \<open>n\<close> devices, and, if \<open>c\<close>, its cubeb context is made.
\<close>

definition system_contract ::
  "cubeb_abi \<Rightarrow> 'w cubeb_ops \<Rightarrow> 'w server_env \<Rightarrow> ('s, server_stream) slab \<Rightarrow> (('s, 'w) server_st \<Rightarrow> handle) \<Rightarrow>
   (('s, 'w) server_st option \<times> 'v) client_env \<Rightarrow> bool" where
  "system_contract K C SE S fd E \<longleftrightarrow> cubeb_abi_contract K \<and> cubeb_contract C \<and> context_safe C \<and> env_contract SE \<and>
     served K C SE S fd E"

definition up ::
  "cubeb_abi \<Rightarrow> ('s, server_stream) slab \<Rightarrow> bool \<Rightarrow> (nat \<rightharpoonup> life) \<Rightarrow> nat \<Rightarrow>
   ('a, ('s, 'w) server_st option \<times> 'v) client_st \<Rightarrow> bool" where
  "up K S c l n st \<longleftrightarrow> (\<exists>sst v. outside st = (Some sst, v) \<and> server_inv K S (sv sst) \<and> life_of S (sv sst) = l \<and>
     local_context sst \<noteq> Some Panic \<and> (c \<longrightarrow> local_context sst = Some (Ok ())) \<and>
     unat (configured_shm_size (sv sst)) < 2 ^ 63 \<and> n \<le> length (devidmap (sv sst)))"

lemma upE:
  assumes "up K S c l n st"
  obtains sst v where "outside st = (Some sst, v)" "server_inv K S (sv sst)" "life_of S (sv sst) = l"
    "local_context sst \<noteq> Some Panic" "c \<longrightarrow> local_context sst = Some (Ok ())"
    "unat (configured_shm_size (sv sst)) < 2 ^ 63" "n \<le> length (devidmap (sv sst))"
  using assms unfolding up_def by blast

lemma up_weaken: "up K S c l n st \<Longrightarrow> (c' \<Longrightarrow> c) \<Longrightarrow> n' \<le> n \<Longrightarrow> up K S c' l n' st"
  by (auto simp: up_def)

lemma up_server: "up K S c l n st \<Longrightarrow> fst (outside st') = fst (outside st) \<Longrightarrow> up K S c l n st'"
  by (cases "outside st'") (auto simp: up_def)

text \<open>A request that does not make the server panic.\<close>

lemma request_up:
  assumes sys: "system_contract K C SE S fd E" and st: "up K S c l n st"
    and ok: "\<And>sst v. outside st = (Some sst, v) \<Longrightarrow> life_of S (sv sst) = l \<Longrightarrow> \<not> panic_request K S (sv sst) m"
  obtains sst v resp sst' where "outside st = (Some sst, v)" "life_of S (sv sst) = l"
    "send_recv K E m want st = (recv_response K want (Ok (cm_received resp (fd sst'))), st\<lparr>outside := (Some sst', v)\<rparr>)"
    "server_process K C SE S m sst = (Ok resp, sst')" "life_step m resp l (life_of S (sv sst'))"
    "up K S (c \<or> (\<nexists>e. resp = ErrorMsg e)) (life_of S (sv sst')) n (st\<lparr>outside := (Some sst', v)\<rparr>)"
proof -
  obtain sst v where u: "outside st = (Some sst, v)" "server_inv K S (sv sst)" "life_of S (sv sst) = l"
    "local_context sst \<noteq> Some Panic" "c \<longrightarrow> local_context sst = Some (Ok ())"
    "unat (configured_shm_size (sv sst)) < 2 ^ 63" "n \<le> length (devidmap (sv sst))"
    using st by (rule upE)
  have C: "cubeb_abi_contract K" "cubeb_contract C" "context_safe C" "env_contract SE" and E: "served K C SE S fd E"
    using sys by (simp_all add: system_contract_def)
  obtain q sst1 where q: "with_local_context C sst = (q, sst1)" by fastforce
  note w = with_local_context_safe [OF C(3) u(4) q]
  obtain p sst' where p: "server_process K C SE S m sst = (p, sst')" by fastforce
  have "p \<noteq> Panic" and same: "same_setup sst1 sst'"
  proof -
    have "p \<noteq> Panic \<and> same_setup sst1 sst'"
    proof (cases q)
      case (Ok a)
      then have pm: "process_msg K C SE S m sst1 = (p, sst')" using p q by (simp add: server_process_def)
      with process_msg_panic [OF C(1,2,4), where S = S and st = sst1 and m = m] w u ok [OF u(1,3)] process_msg_setup [OF pm]
      show ?thesis by simp
    qed (use p q w in \<open>auto simp: server_process_def\<close>)
    then show "p \<noteq> Panic" "same_setup sst1 sst'" by simp_all
  qed
  then obtain resp where resp: "p = Ok resp" using p by (cases p) (simp_all add: server_process_not_Err)
  have "step_ok K S m (sv sst) (server_process K C SE S m sst)" by (rule server_process_ok [OF u(2)])
  then have step: "server_inv K S (sv sst')" "life_step m resp l (life_of S (sv sst'))"
    using p resp u(3) by (simp_all add: step_ok_def)
  have made: "local_context sst' = Some (Ok ())" if "c \<or> (\<nexists>e. resp = ErrorMsg e)"
  proof -
    have "q = Ok ()"
    proof (cases q)
      case (Err e)
      then have "resp = ErrorMsg (error_code K CubebError)" using p q resp by (simp add: server_process_def error_message_def)
      with that have "local_context sst = Some (Ok ())" using u(5) by auto
      with q Err show ?thesis by (simp add: context_ready)
    qed (use w in auto)
    with q same show ?thesis
      by (auto simp: same_setup_def with_local_context_def split: prod.splits option.splits res.splits)
  qed
  have "send_recv K E m want st = (recv_response K want (Ok (cm_received resp (fd sst'))), st\<lparr>outside := (Some sst', v)\<rparr>)"
    using p resp u(1) served_ce_call [OF E, of m "Some sst" v] by (simp add: send_recv_def served_call_def)
  moreover have "up K S (c \<or> (\<nexists>e. resp = ErrorMsg e)) (life_of S (sv sst')) n (st\<lparr>outside := (Some sst', v)\<rparr>)"
    using step(1) made w u(6,7) same by (auto simp: up_def same_setup_def)
  ultimately show thesis using that u(1,3) p resp step(2) by blast
qed

text \<open>A request that is no change of the streams: a query, or an operation of a stream that is ready.\<close>

definition harmless :: "(nat \<rightharpoonup> life) \<Rightarrow> server_message \<Rightarrow> bool" where
  "harmless l m \<longleftrightarrow> \<not> changes_streams m \<and> (\<forall>t. stream_op_token m = Some t \<longrightarrow> l t = Some Ready) \<and>
     (\<forall>d e. m \<noteq> ContextRegisterDeviceCollectionChanged d e)"

lemma life_step_quiet: "life_step m r l l' \<Longrightarrow> \<not> changes_streams m \<Longrightarrow> l' = l"
  by (erule life_step.cases) (simp_all add: changes_streams_def)

lemma harmless_safe: "harmless (life_of S s) m \<Longrightarrow> \<not> panic_request K S s m"
  by (auto simp: harmless_def panic_request_def life_of_def changes_streams_def split: if_splits)

lemma harmless_up:
  assumes "system_contract K C SE S fd E" and "up K S c l n st" and "harmless l m"
  shows "up K S c l n (snd (send_recv K E m want st))"
proof (rule request_up [OF assms(1,2), of m want])
  show "\<not> panic_request K S (sv sst) m" if "life_of S (sv sst) = l" for sst
    using that assms(3) harmless_safe by blast
  fix resp sst' v
  assume sr: "send_recv K E m want st = (recv_response K want (Ok (cm_received resp (fd sst'))), st\<lparr>outside := (Some sst', v)\<rparr>)"
    and u: "life_step m resp l (life_of S (sv sst'))"
      "up K S (c \<or> (\<nexists>e. resp = ErrorMsg e)) (life_of S (sv sst')) n (st\<lparr>outside := (Some sst', v)\<rparr>)"
  have "life_of S (sv sst') = l" using life_step_quiet [OF u(1)] assms(3) by (simp add: harmless_def)
  with u(2) show ?thesis by (auto simp: sr elim: up_weaken)
qed

lemma guarded_up: "up K S c l n st \<Longrightarrow> up K S c l n (snd (f st)) \<Longrightarrow> up K S c l n (snd (guarded f st))"
  by (auto simp: guarded_def split: res.split)

section \<open>The life of a stream\<close>

lemma recv_response_other: "want m = None \<Longrightarrow> recv_response K want (Ok m) \<noteq> Ok r"
  by (auto simp: recv_response_def err_of_def split: client_message.splits option.splits)

text \<open>The creation, on the server: refused, or a new stream that waits for its initialization.\<close>

lemma created_up:
  assumes sys: "system_contract K C SE S fd E" and st: "up K S c l n st"
  obtains (refused) r st' where "send_recv K E (StreamCreate P) want_created st = (r, st')" "\<And>d. r \<noteq> Ok d"
      "up K S c l n st'"
    | (created) d shm rpc pipe sst' v where
      "send_recv K E (StreamCreate P) want_created st = (Ok d, st\<lparr>outside := (Some sst', v)\<rparr>)"
      "shm_handle d = Owned (fd sst') None" "l (token d) = None"
      "up K S True (l(token d \<mapsto> Uninitialized)) n (st\<lparr>outside := (Some sst', v)\<rparr>)"
      "sl_get S (streams (sv sst')) (token d) = Some (new_stream K P shm rpc pipe)"
proof (rule request_up [OF sys st, of "StreamCreate P" want_created])
  show "\<not> panic_request K S (sv sst) (StreamCreate P)" for sst
    by (simp add: panic_request_def stream_op_token_def)
  fix sst v resp sst'
  assume a: "outside st = (Some sst, v)" "life_of S (sv sst) = l"
    "send_recv K E (StreamCreate P) want_created st =
      (recv_response K want_created (Ok (cm_received resp (fd sst'))), st\<lparr>outside := (Some sst', v)\<rparr>)"
    "server_process K C SE S (StreamCreate P) sst = (Ok resp, sst')"
    "life_step (StreamCreate P) resp l (life_of S (sv sst'))"
    "up K S (c \<or> (\<nexists>e. resp = ErrorMsg e)) (life_of S (sv sst')) n (st\<lparr>outside := (Some sst', v)\<rparr>)"
  from a(5) consider (error) e where "resp = ErrorMsg e" "life_of S (sv sst') = l"
    | (new) d where "resp = StreamCreated d" "l (token d) = None" "life_of S (sv sst') = l(token d \<mapsto> Uninitialized)"
    unfolding life_step_create by (auto simp: changes_streams_def stream_op_token_def)
  then show thesis
  proof cases
    case error
    then have "recv_response K want_created (Ok (cm_received resp (fd sst'))) \<noteq> Ok d" for d
      by (intro recv_response_other) (simp add: want_created_def cm_received_def)
    from refused [OF a(3) this] error a(6) show thesis by (auto elim: up_weaken)
  next
    case new
    let ?d = "StreamCreateMk (token d) (Owned (fd sst') None) (shm_area_size d)"
    have w: "want_created (cm_received resp (fd sst')) = Some ?d"
      using new(1) by (cases d) (simp add: want_created_def cm_received_def)
    obtain q sst1 where q: "with_local_context C sst = (q, sst1)" by fastforce
    have "q = Ok ()" using a(4) q new(1) by (cases q) (auto simp: server_process_def error_message_def)
    then have pm: "process_msg K C SE S (StreamCreate P) sst1 = (Ok resp, sst')" using a(4) q by (simp add: server_process_def)
    have S: "slab_contract S" using st by (auto simp: up_def server_inv_def)
    show thesis
    proof (rule created_by [OF pm w])
      fix shm rpc pipe
      assume "?d = StreamCreateMk (sl_vacant_key S (streams (sv sst1))) (Owned (fd sst') None) (shm_size shm)"
        "sv sst' = (sv sst1)\<lparr>streams := sl_insert S (streams (sv sst1)) (new_stream K P shm rpc pipe)\<rparr>"
      then have "sl_get S (streams (sv sst')) (token d) = Some (new_stream K P shm rpc pipe)"
        using S by (simp add: slab_laws)
      moreover have "recv_response K want_created (Ok (cm_received resp (fd sst'))) = Ok ?d"
        using w by (simp add: recv_response_def)
      ultimately show thesis using created [of ?d sst' v shm rpc pipe] a(3,6) new by simp
    qed
  qed
qed

text \<open>The initialization: refused, with the stream gone again, or the stream is ready.\<close>

lemma initialized_up:
  assumes sys: "system_contract K C SE S fd E" and st: "up K S True (l(t \<mapsto> Uninitialized)) n st" and t: "l t = None"
    and o: "outside st = (Some sst, v)" and new: "sl_get S (streams (sv sst)) t = Some (new_stream K P shm rpc pipe)"
    and dev: "input_device P < n" "output_device P < n"
  obtains (refused) r st' where "send_recv K E (StreamInit t) want_initialized st = (r, st')" "\<And>h. r \<noteq> Ok h"
      "up K S True l n st'"
    | (ready) h st' where "send_recv K E (StreamInit t) want_initialized st = (Ok (Owned h None), st')"
      "up K S True (l(t \<mapsto> Ready)) n st'"
proof (rule request_up [OF sys st, of "StreamInit t" want_initialized])
  have n: "n \<le> length (devidmap (sv sst))" "local_context sst = Some (Ok ())" "server_inv K S (sv sst)"
    using st o by (auto simp: up_def)
  show "\<not> panic_request K S (sv sst2) (StreamInit t)" if "outside st = (Some sst2, v2)" for sst2 v2
    using that o new dev n(1) by (auto simp: panic_request_def stream_op_token_def new_stream_def)
  fix sst2 v2 resp sst'
  assume a: "outside st = (Some sst2, v2)" "life_of S (sv sst2) = l(t \<mapsto> Uninitialized)"
    "send_recv K E (StreamInit t) want_initialized st =
      (recv_response K want_initialized (Ok (cm_received resp (fd sst'))), st\<lparr>outside := (Some sst', v2)\<rparr>)"
    "server_process K C SE S (StreamInit t) sst2 = (Ok resp, sst')"
    "up K S (True \<or> (\<nexists>e. resp = ErrorMsg e)) (life_of S (sv sst')) n (st\<lparr>outside := (Some sst', v2)\<rparr>)"
  have same: "sst2 = sst" using a(1) o by simp
  have pm: "any_error K (process_stream_init K C SE S t sst) = (Ok resp, sst')"
    using a(4) n(2) by (simp add: same server_process_def process_msg_def context_ready)
  obtain pid where pid: "remote_pid (sv sst) = Some pid" using n(3) by (auto simp: server_inv_def)
  have fields: "ss_stream (new_stream K P shm rpc pipe) = None" "ss_params (new_stream K P shm rpc pipe) = Some P"
    "ss_client_pipe (new_stream K P shm rpc pipe) = Some pipe" by (simp_all add: new_stream_def)
  note S = server_inv_contract [OF n(3)]
  show thesis
  proof (cases rule: process_stream_init_cases [OF S pid new fields, of C K SE, case_names panic failed initialized])
    case (panic st1)
    then show thesis using pm by (simp add: any_error_def)
  next
    case (failed e st1)
    then have r: "resp = error_message K CubebError" "sst' = remove_stream C SE S t st1" using pm by (auto simp: any_error_def)
    have "recv_response K want_initialized (Ok (cm_received resp (fd sst'))) \<noteq> Ok h" for h
      by (intro recv_response_other) (simp add: r want_initialized_def cm_received_def error_message_def)
    moreover have "life_of S (sv sst') = l"
      using changed_stream_life [OF failed(3)] a(2) t r(2) by (auto simp: same fun_eq_iff)
    ultimately show thesis using refused [OF a(3)] a(5) by simp
  next
    case (initialized x st1 st2)
    then have r: "resp = StreamInitialized (serializable_handle_new pipe pid)" "sst' = st2" using pm by (auto simp: any_error_def)
    have "recv_response K want_initialized (Ok (cm_received resp (fd sst'))) = Ok (Owned (fd sst') None)"
      by (simp add: r recv_response_def want_initialized_def cm_received_def)
    moreover have "life_of S (sv sst') = l(t \<mapsto> Ready)"
      using changed_stream_life [OF initialized(3)] a(2) r(2) by (simp add: same initialized_def)
    ultimately show thesis using ready a(3,5) by simp
  qed
qed

text \<open>A client that is not short of memory or threads: only the server can make a creation fail.\<close>

definition client_able :: "'w client_env \<Rightarrow> bool" where
  "client_able E \<longleftrightarrow>
     (\<forall>h n w. \<exists>shm w'. (shared_mem_from (ce_os E) h n w :: (unit ipc_error, shared_mem) res \<times> 'w) = (Ok shm, w')) \<and>
     (\<forall>n w. \<exists>buf w'. ce_reserve E n w = (Some buf, w')) \<and> (\<forall>h w. \<exists>w'. ce_bind_server E h w = (Ok (), w'))"

lemma able_mapped:
  assumes sys: "system_contract K C SE S fd E" and able: "client_able E"
  obtains shm v' where "map_client_shm E (Owned h None) n (x, v) = (Ok shm, x, v')"
proof -
  obtain shm w' where "(shared_mem_from (ce_os E) h n (x, v) :: (unit ipc_error, shared_mem) res \<times> _) = (Ok shm, w')"
    using able unfolding client_able_def by blast
  then have m: "map_client_shm E (Owned h None) n (x, v) = (Ok shm, w')"
    by (simp add: map_client_shm_def sh_take_handle_def any_cubeb_error_def)
  show thesis
    by (rule map_client_shm_Ok [OF _ m]) (use sys m that in \<open>auto simp: system_contract_def\<close>)
qed

lemma able_reserved:
  assumes sys: "system_contract K C SE S fd E" and able: "client_able E"
  obtains duplex v' where "reserve_duplex E P n (x, v) = (Ok duplex, x, v')"
proof -
  obtain buf w where "ce_reserve E n (x, v) = (Some buf, w)" using able unfolding client_able_def by blast
  then have "\<exists>duplex w'. reserve_duplex E P n (x, v) = (Ok duplex, w')" by (simp add: reserve_duplex_def)
  then obtain duplex w' where r: "reserve_duplex E P n (x, v) = (Ok duplex, w')" by blast
  show thesis
    by (rule reserve_duplex_Ok [OF _ r]) (use sys r that in \<open>auto simp: system_contract_def\<close>)
qed

lemma able_bound:
  assumes sys: "system_contract K C SE S fd E" and able: "client_able E" and o: "outside st = (x, v)"
  obtains cell st' where "bind_callback_server E pipe A cs st = (Ok cell, st')" "fst (outside st') = x"
proof -
  obtain cell w where "ce_new_arc E (outside st) = (cell, w)" by (rule prod.exhaust)
  moreover obtain w' where "ce_bind_server E pipe w = (Ok (), w')" using able unfolding client_able_def by blast
  ultimately obtain st' where b: "bind_callback_server E pipe A cs st = (Ok cell, st')" by (simp add: bind_callback_server_def)
  show thesis
    by (rule bind_callback_server_Ok [OF _ b o]) (use sys b that in \<open>auto simp: system_contract_def\<close>)
qed

text \<open>A creation leaves a ready stream of its own, or nothing.\<close>

lemma stream_init_up:
  assumes sys: "system_contract K C SE S fd E" and able: "client_able E" and st: "up K S c l n st"
    and dev: "in_dev < n" "out_dev < n"
  obtains (refused) r st' where "context_stream_init K E name in_dev in_params out_dev out_params latency A u st = (r, st')"
      "\<And>s. r \<noteq> Ok s" "up K S c l n st'"
    | (ready) s st' where "context_stream_init K E name in_dev in_params out_dev out_params latency A u st = (Ok s, st')"
      "l (st_token s) = None" "up K S True (l(st_token s \<mapsto> Ready)) n st'"
proof (cases "in_callback (caller st)")
  case True
  then show thesis
    by (intro refused [of Panic st]) (simp_all add: context_stream_init_def guarded_def assert_not_in_callback_def st)
next
  case False
  let ?P = "create_request name in_dev in_params out_dev out_params latency"
  have devP: "input_device ?P < n" "output_device ?P < n" using dev by (simp_all add: create_request_def)
  note init = context_stream_init_def client_stream_init_def guarded_idle [where st = st, OF False]
  show thesis
  proof (rule created_up [OF sys st, of ?P])
    fix r st1 assume "send_recv K E (StreamCreate ?P) want_created st = (r, st1)" "\<And>d. r \<noteq> Ok d" "up K S c l n st1"
    then show thesis by (cases r) (auto intro: refused simp: init and_then_def)
  next
    fix d shm0 rpc pipe0 sst1 v1
    let ?st1 = "st\<lparr>outside := (Some sst1, v1)\<rparr>"
    assume c: "send_recv K E (StreamCreate ?P) want_created st = (Ok d, ?st1)" "shm_handle d = Owned (fd sst1) None"
      "l (token d) = None" "up K S True (l(token d \<mapsto> Uninitialized)) n ?st1"
      "sl_get S (streams (sv sst1)) (token d) = Some (new_stream K ?P shm0 rpc pipe0)"
    obtain shm v2 where m: "map_client_shm E (Owned (fd sst1) None) (shm_area_size d) (Some sst1, v1) = (Ok shm, Some sst1, v2)"
      by (rule able_mapped [OF sys able])
    obtain duplex v3 where r: "reserve_duplex E ?P (shm_area_size d) (Some sst1, v2) = (Ok duplex, Some sst1, v3)"
      by (rule able_reserved [OF sys able])
    let ?st3 = "st\<lparr>outside := (Some sst1, v3)\<rparr>"
    have u3: "up K S True (l(token d \<mapsto> Uninitialized)) n ?st3" by (rule up_server [OF c(4)]) simp
    have o3: "outside ?st3 = (Some sst1, v3)" by simp
    note steps = c(1,2) m r on_outside_def and_then_def init
    show thesis
    proof (rule initialized_up [OF sys u3 c(3) o3 c(5) devP])
      fix q st4
      assume "send_recv K E (StreamInit (token d)) want_initialized ?st3 = (q, st4)" "\<And>h. q \<noteq> Ok h" "up K S True l n st4"
      then show thesis by (cases q) (auto intro: refused elim: up_weaken simp: steps)
    next
      fix h st4
      assume i: "send_recv K E (StreamInit (token d)) want_initialized ?st3 = (Ok (Owned h None), st4)"
        "up K S True (l(token d \<mapsto> Ready)) n st4"
      obtain x v4 where o4: "outside st4 = (x, v4)" by fastforce
      obtain cell st' where b: "bind_callback_server E h A \<lparr>cs_shm = shm,
          input_frame_size = map_option (frame_size_in_bytes K) (input_stream_params ?P),
          output_frame_size = map_option (frame_size_in_bytes K) (output_stream_params ?P),
          duplex_input = duplex, device_change_cb = None\<rparr> st4 = (Ok cell, st')" "fst (outside st') = x"
        by (rule able_bound [OF sys able o4])
      have "up K S True (l(token d \<mapsto> Ready)) n st'" by (rule up_server [OF i(2)]) (simp add: b(2) o4)
      with i(1) b(1) c(3) show thesis
        by (intro ready [of "\<lparr>st_user_ptr = u, st_token = token d, st_cell = cell\<rparr>" st'])
          (simp_all add: steps sh_take_handle_def Let_def)
    qed
  qed
qed

text \<open>The drop of a ready stream ends it on the server.\<close>

lemma drop_up:
  assumes sys: "system_contract K C SE S fd E" and st: "up K S True l n st" and t: "l (st_token s) = Some Ready"
    and returns: "\<forall>cell x v. \<exists>v'. ce_shutdown_recv E cell (x, v) = Some (x, v')"
  obtains st' where "client_stream_drop K E s st = Some (Ok (), st')" "up K S True (l(st_token s := None)) n st'"
proof (rule request_up [OF sys st, of "StreamDestroy (st_token s)" "expect StreamDestroyed"])
  show "\<not> panic_request K S (sv sst) (StreamDestroy (st_token s))" if "life_of S (sv sst) = l" for sst
    using t that by (auto simp: panic_request_def stream_op_token_def life_of_def split: if_splits)
  fix sst v resp sst'
  assume a: "outside st = (Some sst, v)" "life_of S (sv sst) = l"
    "send_recv K E (StreamDestroy (st_token s)) (expect StreamDestroyed) st =
      (recv_response K (expect StreamDestroyed) (Ok (cm_received resp (fd sst'))), st\<lparr>outside := (Some sst', v)\<rparr>)"
    "server_process K C SE S (StreamDestroy (st_token s)) sst = (Ok resp, sst')"
    "life_step (StreamDestroy (st_token s)) resp l (life_of S (sv sst'))"
    "up K S (True \<or> (\<nexists>e. resp = ErrorMsg e)) (life_of S (sv sst')) n (st\<lparr>outside := (Some sst', v)\<rparr>)"
  have "local_context sst = Some (Ok ())" using st a(1) by (auto simp: up_def)
  then have "(Ok resp, sst') = process_stream_msg K C SE S (StreamDestroy (st_token s)) sst"
    using a(4) by (simp add: server_process_def process_msg_def context_ready)
  then have resp: "resp = StreamDestroyed"
    using t a(2) by (auto simp: process_stream_msg_def life_of_def split: if_splits)
  then have l: "life_of S (sv sst') = l(st_token s := None)"
    using a(5) t by (auto simp: life_step_destroy stream_op_token_def changes_streams_def)
  obtain v' where v': "ce_shutdown_recv E (st_cell s) (Some sst', v) = Some (Some sst', v')" using returns by blast
  let ?st' = "st\<lparr>outside := (Some sst', v), bound := (bound st)(st_cell s := None), outside := (Some sst', v')\<rparr>"
  have "client_stream_drop K E s st = Some (Ok (), ?st')"
    using v' by (simp add: client_stream_drop_def a(3) resp recv_response_def expect_def cm_received_def)
  moreover have "up K S True (l(st_token s := None)) n ?st'" by (rule up_server [OF a(6) [unfolded l simp_thms]]) simp
  ultimately show thesis by (rule that)
qed

text \<open>The ids a client enumerates are handles of the server's device map.\<close>

lemma make_handles_bounded: "make_handles devices ids = (hs, devices') \<Longrightarrow> \<forall>h \<in> set hs. h < length devices'"
  by (auto simp: in_set_conv_nth dest!: make_handles_result)

lemma devices_up:
  assumes sys: "system_contract K C SE S fd E" and st: "up K S c l n st"
    and e: "context_enumerate_devices K E d st = (r, st')"
  obtains m where "n \<le> m" "up K S c l m st'" "\<And>ds. r = Ok ds \<Longrightarrow> \<forall>d \<in> set ds. cdi_devid d < m"
proof (cases "in_callback (caller st)")
  case True
  then show thesis using e st that [of n] by (simp add: context_enumerate_devices_def guarded_def assert_not_in_callback_def)
next
  case False
  let ?m = "ContextGetDeviceEnumeration d"
  let ?want = "\<lambda>m. case m of ContextEnumeratedDevices v \<Rightarrow> Some v | _ \<Rightarrow> None"
  show thesis
  proof (rule request_up [OF sys st, of ?m ?want])
    show "\<not> panic_request K S (sv sst) ?m" for sst by (simp add: panic_request_def stream_op_token_def)
    fix sst v resp sst'
    assume a: "outside st = (Some sst, v)" "life_of S (sv sst) = l"
      "send_recv K E ?m ?want st = (recv_response K ?want (Ok (cm_received resp (fd sst'))), st\<lparr>outside := (Some sst', v)\<rparr>)"
      "server_process K C SE S ?m sst = (Ok resp, sst')"
      "life_step ?m resp l (life_of S (sv sst'))"
      "up K S (c \<or> (\<nexists>e. resp = ErrorMsg e)) (life_of S (sv sst')) n (st\<lparr>outside := (Some sst', v)\<rparr>)"
    have l: "life_of S (sv sst') = l" using life_step_quiet [OF a(5)] by (simp add: changes_streams_def)
    let ?n = "length (devidmap (sv sst'))"
    have r: "r = map_ok (map ffi_of_device_info) (recv_response K ?want (Ok (cm_received resp (fd sst'))))"
      "st' = st\<lparr>outside := (Some sst', v)\<rparr>"
      using e a(3) False by (simp_all add: context_enumerate_devices_def)
    have "n \<le> ?n" and up: "up K S c l ?n st'" using a(6) by (auto simp: up_def l r)
    moreover have "\<forall>d \<in> set ds. cdi_devid d < ?n" if ok: "r = Ok ds" for ds
    proof -
      obtain vs where vs: "resp = ContextEnumeratedDevices vs" "ds = map ffi_of_device_info vs"
        using ok r(1) by (cases resp) (auto simp: recv_response_def cm_received_def err_of_def split: option.splits)
      obtain q sst1 where q: "with_local_context C sst = (q, sst1)" by fastforce
      have "q = Ok ()" using a(4) q vs(1) by (cases q) (auto simp: server_process_def error_message_def)
      then have "reply K ContextEnumeratedDevices (and_then (on_world (ctx_enumerate_devices C (device_type_truncate K d)) sst1)
          (\<lambda>infos st. case enumerated_devices (devidmap (sv st)) infos of
             (ds, devices) \<Rightarrow> (Ok ds, st\<lparr>sv := (sv st)\<lparr>devidmap := devices\<rparr>\<rparr>))) = (Ok resp, sst')"
        using a(4) q by (simp add: server_process_def process_msg_def process_enumeration_def)
      then obtain infos where "enumerated_devices (devidmap (sv sst1)) infos = (vs, devidmap (sv sst'))"
        by (auto simp: reply_def and_then_def on_world_def vs(1) error_message_def split: prod.splits res.splits)
      moreover obtain hs devices' where hs: "make_handles (devidmap (sv sst1)) (map cdi_devid infos) = (hs, devices')" by fastforce
      ultimately have "vs = map (\<lambda>(i, h). (device_info_of_ffi i)\<lparr>devid := h\<rparr>) (zip infos hs)" "devidmap (sv sst') = devices'"
        using enumerated_devices_handles [OF hs] by simp_all
      with make_handles_bounded [OF hs] show ?thesis
        by (auto simp: vs(2) client_device_eq client_device_def dest: set_zip_rightD)
    qed
    ultimately show thesis by (rule that)
  qed
qed

section \<open>The test leaves nothing behind\<close>

text \<open>\<open>client s\<close>: the client in the state of a program over \<open>client_api\<close>.\<close>

abbreviation client :: "(('a, 'w) api_st) \<times> 'o \<Rightarrow> ('a, 'w) client_st" where
  "client s \<equiv> snd (fst s)"

lemma client_of_steps [simp]:
  "client (snd (on_api (on_client f) s)) = snd (f (client s))"
  "snd (query T e m) = snd m"
  "client (snd (say line s)) = client s"
  "client (snd (on_output g s)) = client s"
  "client (snd (on_api (api_backend_id (client_api K E slp)) s)) = client s"
  by (auto simp: on_api_def on_client_def query_def say_def on_output_def client_api_def context_backend_id_def guarded_def
      split: prod.splits option.splits res.splits)

lemma and_then_keeps: "U (client (snd m)) \<Longrightarrow> (\<And>a s. U (client s) \<Longrightarrow> U (client (snd (k a s)))) \<Longrightarrow> U (client (snd (and_then m k)))"
  by (cases m; cases "fst m") (auto simp: and_then_def)

lemma collection_drop_keeps: "client (snd (drop_collection (client_api K E slp) ds m)) = client (snd m)"
  by (auto simp: drop_collection_def client_api_def context_device_collection_destroy_def guarded_def
      split: prod.splits res.splits)

lemma query_Ok: "query T e m = (r, s) \<Longrightarrow> (r = Panic \<longleftrightarrow> fst m = Panic) \<and> (r = Ok a \<longleftrightarrow> fst m = Ok a)"
  by (cases m, cases "fst m") (auto simp: query_def)

text \<open>The requests of the test.\<close>

lemma guarded_request_up:
  "system_contract K C SE S fd E \<Longrightarrow> up K S c l n st \<Longrightarrow> harmless l m \<Longrightarrow> up K S c l n (snd (guarded (send_recv K E m want) st))"
  by (intro guarded_up harmless_up)

lemmas harmless_defs = harmless_def changes_streams_def stream_op_token_def

lemma query_up:
  assumes sys: "system_contract K C SE S fd E" and st: "up K S c l n st"
  shows "up K S c l n (snd (context_preferred_sample_rate K E st))" "up K S c l n (snd (context_max_channel_count K E st))"
    "up K S c l n (snd (context_min_latency K E p st))" "up K S c l n (snd (context_enumerate_devices K E d st))"
proof -
  obtain r st' where e: "context_enumerate_devices K E d st = (r, st')" by fastforce
  show "up K S c l n (snd (context_enumerate_devices K E d st))"
    by (rule devices_up [OF sys st e]) (auto simp: e elim: up_weaken)
qed (simp_all add: context_preferred_sample_rate_def context_max_channel_count_def context_min_latency_def
  guarded_request_up [OF sys st] harmless_defs)

lemma stream_request_up:
  assumes sys: "system_contract K C SE S fd E" and st: "up K S c l n st" and t: "l (st_token s) = Some Ready"
  shows "up K S c l n (snd (stream_set_volume K E s x st))" "up K S c l n (snd (stream_start K E s st))"
    "up K S c l n (snd (stream_stop K E s st))"
  by (simp_all add: stream_set_volume_def stream_start_def stream_stop_def guarded_request_up [OF sys st] harmless_defs t)

text \<open>
  The result of a part of the test: it returns, the server is up; and unless the client panicked its streams are \<open>l\<close>.
\<close>

definition ends_up :: "cubeb_abi \<Rightarrow> ('s, server_stream) slab \<Rightarrow> (nat \<rightharpoonup> life) \<Rightarrow>
   (('e, 'r) res \<times> ('a, ('s, 'w) server_st option \<times> 'v) api_st \<times> 'o) option \<Rightarrow> bool" where
  "ends_up K S l m \<longleftrightarrow> (\<exists>r s l'. m = Some (r, s) \<and> up K S False l' 1 (client s) \<and> (r \<noteq> Panic \<longrightarrow> l' = l))"

lemma ends_up_try:
  assumes "up K S c l n (client (snd m))" and "0 < n" and "\<And>a. fst m = Ok a \<Longrightarrow> ends_up K S l (k a (snd m))"
  shows "ends_up K S l (try_do (Some m) k)"
proof -
  have "up K S False l 1 (client (snd m))" by (rule up_weaken [OF assms(1)]) (use assms(2) in auto)
  with assms(3) show ?thesis by (cases m; cases "fst m") (auto simp: ends_up_def)
qed

lemma ends_up_collection:
  "ends_up K S l m \<Longrightarrow> ends_up K S l (map_option (drop_collection (client_api K E slp) ds) m)"
proof -
  assume "ends_up K S l m"
  then obtain r s l' where m: "m = Some (r, s)" "up K S False l' 1 (client s)" "r \<noteq> Panic \<longrightarrow> l' = l"
    unfolding ends_up_def by blast
  have "fst (drop_collection (client_api K E slp) ds (r, s)) = r" by (simp add: drop_collection_def split: prod.splits)
  then obtain s' where "drop_collection (client_api K E slp) ds (r, s) = (r, s')" by (metis prod.collapse)
  with m collection_drop_keeps [of K E slp ds "(r, s)"] show ?thesis by (auto simp: ends_up_def)
qed

text \<open>A list of devices is printed unless one of them has a state or formats that \<open>print_device_info\<close> does not expect.\<close>

lemma print_devices_panic:
  "fst (print_devices K D infos out) = Panic \<longleftrightarrow>
    (\<exists>info \<in> set infos. device_state_of D (cdi_state info) = None \<or> format_names D info = [])"
  by (induction infos arbitrary: out) (auto simp: print_device_info_def and_then_def Let_def split: option.splits)

text \<open>A tone is a stream of its own, created, played and dropped.\<close>

definition keeps_all :: "('x \<times> 'v \<Rightarrow> 'x \<times> 'v) \<Rightarrow> bool" where
  "keeps_all f \<longleftrightarrow> (\<forall>x v. fst (f (x, v)) = x)"

definition drops_return :: "(('x \<times> 'v)) client_env \<Rightarrow> bool" where
  "drops_return E \<longleftrightarrow> (\<forall>cell x v. \<exists>v'. ce_shutdown_recv E cell (x, v) = Some (x, v'))"

lemma sleep_up: "keeps_all f \<Longrightarrow> up K S c l n st \<Longrightarrow> up K S c l n (st\<lparr>outside := f (outside st)\<rparr>)"
  by (rule up_server, assumption) (cases "outside st"; simp add: keeps_all_def)

lemma play_tone_up:
  assumes sys: "system_contract K C SE S fd E" and able: "client_able E" and ret: "drops_return E"
    and slp: "\<And>k. keeps_all (slp k)" and st: "up K S c l n (client s)" and dev: "device < n"
  shows "ends_up K S l (play_tone K G T (client_api K E slp) A device s)"
proof -
  obtain cx st out where s: "s = ((cx, st), out)" by (metis prod.collapse)
  then have st: "up K S c l n st" using st by simp
  have n: "0 < n" using dev by simp
  let ?P = "client_api K E slp"
  have init: "on_api (api_stream_init ?P (ascii ''Cubeb tone (mono)'') device (tone_params K G) 4096 A) s =
      (case context_stream_init K E (Some (ascii ''Cubeb tone (mono)'')) 0 None device (Some (tone_params K G)) 4096 A 0 st of
         (r, st) \<Rightarrow> (r, (cx, st), out))"
    by (simp add: client_api_def s on_api_def on_client_def split: prod.splits)
  show ?thesis
  proof (rule stream_init_up [OF sys able st n dev])
    fix r st'
    assume i: "context_stream_init K E (Some (ascii ''Cubeb tone (mono)'')) 0 None device (Some (tone_params K G)) 4096 A 0 st = (r, st')"
      "\<And>s. r \<noteq> Ok s" "up K S c l n st'"
    have u: "up K S False l 1 st'" by (rule up_weaken [OF i(3)]) (use n in auto)
    have "\<exists>r'. play_tone K G T ?P A device s = Some (r', (cx, st'), out)"
      by (cases r) (use i(2) in \<open>blast, simp_all add: play_tone_def init i(1) query_def\<close>)
    with u show ?thesis unfolding ends_up_def by auto
  next
    fix x st'
    assume i: "context_stream_init K E (Some (ascii ''Cubeb tone (mono)'')) 0 None device (Some (tone_params K G)) 4096 A 0 st = (Ok x, st')"
      "l (st_token x) = None" "up K S True (l(st_token x \<mapsto> Ready)) n st'"
    let ?U = "up K S True (l(st_token x \<mapsto> Ready)) n"
    let ?m = "and_then (query T ''stream.set_volume(1.0)'' (on_api (api_set_volume ?P x 0x3F800000) ((cx, st'), out))) (\<lambda>_ s.
             and_then (query T ''stream.start()'' (on_api (api_start ?P x) s)) (\<lambda>_ (st, out).
             query T ''stream.stop()'' (on_api (api_stop ?P x) (api_sleep ?P 500 st, out))))"
    have ops: "api_set_volume ?P x = (\<lambda>v. on_client (stream_set_volume K E x v))" "api_start ?P x = on_client (stream_start K E x)"
      "api_stop ?P x = on_client (stream_stop K E x)"
      "\<And>s. api_sleep ?P 500 s = (fst s, (snd s)\<lparr>outside := slp 500 (outside (snd s))\<rparr>)"
      by (simp_all add: client_api_def split: prod.splits)
    have t: "(l(st_token x \<mapsto> Ready)) (st_token x) = Some Ready" by simp
    have start: "?U (client (snd (and_then (query T ''stream.start()'' (on_api (api_start ?P x) q)) (\<lambda>_ (st, out).
             query T ''stream.stop()'' (on_api (api_stop ?P x) (api_sleep ?P 500 st, out))))))"
      if "?U (client q)" for q
      by (rule and_then_keeps [where U = ?U])
        (auto simp: ops intro!: stream_request_up [where l = "l(st_token x \<mapsto> Ready)", OF sys] t that sleep_up [OF slp])
    have U: "?U (client (snd ?m))"
      by (rule and_then_keeps [where U = ?U])
        (simp add: ops stream_request_up [where l = "l(st_token x \<mapsto> Ready)", OF sys i(3)], rule start)
    obtain r s' where m: "?m = (r, s')" by (rule prod.exhaust)
    have p: "play_tone K G T ?P A device s = dropping ?m (api_stream_drop ?P x)"
      by (simp add: play_tone_def init i(1) query_def)
    obtain cx' st2 out' where s': "s' = ((cx', st2), out')" by (metis prod.collapse)
    have u2: "up K S True (l(st_token x \<mapsto> Ready)) n st2" using U by (simp add: m s')
    show ?thesis
    proof (cases "r = Panic")
      case True
      have "up K S False (l(st_token x \<mapsto> Ready)) 1 st2" by (rule up_weaken [OF u2]) (use n in auto)
      then show ?thesis unfolding p m ends_up_def using True by (auto simp: dropping_def s')
    next
      case False
      show ?thesis
      proof (rule drop_up [OF sys u2 t])
        show "\<forall>cell x v. \<exists>v'. ce_shutdown_recv E cell (x, v) = Some (x, v')" using ret by (simp add: drops_return_def)
        fix st3 assume d: "client_stream_drop K E x st2 = Some (Ok (), st3)" "up K S True (l(st_token x \<mapsto> Ready, st_token x := None)) n st3"
        have "l(st_token x \<mapsto> Ready, st_token x := None) = l" using i(2) by auto
        then have u3: "up K S False l 1 st3" using d(2) n by (auto elim: up_weaken)
        have "dropping ?m (api_stream_drop ?P x) = Some (r, (cx', st3), out')"
          using False d(1) by (simp add: m s' dropping_def) (simp add: client_api_def)
        with u3 show ?thesis unfolding p ends_up_def by auto
      qed
    qed
  qed
qed

lemma selected_device:
  "select_output_device D var devices = Ok h \<Longrightarrow> \<forall>d \<in> set devices. cdi_devid d < n \<Longrightarrow> 0 < n \<Longrightarrow> h < n"
  by (auto simp: select_output_device_def find_Some_iff split: env_var.splits option.splits)

lemma api_enumerate [simp]:
  "on_api (api_enumerate_devices (client_api K E slp) d) s =
    (case context_enumerate_devices K E d (client s) of (r, st) \<Rightarrow> (r, (fst (fst s), st), snd s))"
  by (cases s) (auto simp: on_api_def on_client_def client_api_def split: prod.splits)

lemma play_on_device_up:
  assumes sys: "system_contract K C SE S fd E" and able: "client_able E" and ret: "drops_return E"
    and slp: "\<And>k. keeps_all (slp k)" and st: "up K S c l n (client s)" and n: "0 < n"
  shows "ends_up K S l (play_on_device K D G T (client_api K E slp) A var s)"
proof (cases "var = NotPresent")
  case True
  then show ?thesis using play_tone_up [OF sys able ret slp st n] by (simp add: play_on_device_def)
next
  case False
  obtain r st' where e: "context_enumerate_devices K E (DEVICE_TYPE_OUTPUT K) (client s) = (r, st')" by fastforce
  show ?thesis
  proof (rule devices_up [OF sys st e])
    fix m assume m: "n \<le> m" "up K S c l m st'" "\<And>ds. r = Ok ds \<Longrightarrow> \<forall>d \<in> set ds. cdi_devid d < m"
    have here: "ends_up K S l (Some (q, (cx, st'), out))" for q cx out
      unfolding ends_up_def by (intro exI conjI impI, rule refl) (use m n in \<open>auto intro: up_weaken [OF m(2)]\<close>)
    have "ends_up K S l (case select_output_device D var ds of
          Ok device \<Rightarrow> play_tone K G T (client_api K E slp) A device ((fst (fst s), st'), snd s)
        | Err e \<Rightarrow> Some (Err e, (fst (fst s), st'), snd s) | Panic \<Rightarrow> Some (Panic, (fst (fst s), st'), snd s))"
      if "r = Ok ds" for ds
    proof (cases "select_output_device D var ds")
      case (Ok h)
      have "h < m" by (rule selected_device [OF Ok m(3) [OF that]]) (use n m(1) in simp)
      then show ?thesis by (simp add: Ok) (rule play_tone_up [OF sys able ret slp, where c = c and n = m], simp_all add: m(2))
    qed (simp_all add: here)
    with here False e show ?thesis
      by (cases r) (simp_all add: play_on_device_def query_def ends_up_collection)
  qed
qed

lemma enumerate_up:
  assumes sys: "system_contract K C SE S fd E" and st: "up K S c l n (client s)"
  shows "up K S c l n (client (snd (enumerate_devices K D T (client_api K E slp) s)))"
proof -
  let ?P = "client_api K E slp"
  let ?U = "up K S c l n"
  have second: "?U (client (snd (case on_api (api_enumerate_devices ?P (DEVICE_TYPE_OUTPUT K)) s of
           (Ok devices, s) \<Rightarrow> drop_collection ?P devices
             (and_then (say (ascii ''Found '' @ decimal (length devices) @ ascii '' output devices'') s) (\<lambda>_ s.
              on_output (print_devices K D devices) s))
         | (Err e, s) \<Rightarrow> (Err (ErrOther (''Error enumerating devices: '' @ display_error T e)), s)
         | (Panic, s) \<Rightarrow> (Panic, s))))" if "?U (client s)" for s
    using query_up(4) [OF sys that, of "DEVICE_TYPE_OUTPUT K"]
    by (auto simp: collection_drop_keeps say_def and_then_def split: prod.splits res.splits)
  obtain r st1 where e: "context_enumerate_devices K E (DEVICE_TYPE_INPUT K) (client s) = (r, st1)" by fastforce
  then have i: "on_api (api_enumerate_devices ?P (DEVICE_TYPE_INPUT K)) s = (r, (fst (fst s), st1), snd s)" by simp
  have u: "?U st1" using query_up(4) [OF sys st, of "DEVICE_TYPE_INPUT K"] e by simp
  show ?thesis unfolding enumerate_devices_def i
    by (cases r) (auto simp: collection_drop_keeps u simp del: api_enumerate intro!: and_then_keeps [where U = ?U] second)
qed

text \<open>The threads of the client.\<close>

definition threads_keep :: "('x \<times> 'v) client_env \<Rightarrow> bool" where
  "threads_keep E \<longleftrightarrow> (\<forall>name. keeps_server (th_loop_new (ce_threads E) name)) \<and>
     (\<forall>name n. keeps_server (th_spawn (ce_threads E) name n)) \<and> (\<forall>t. keeps_all (th_drop (ce_threads E) t)) \<and>
     (\<forall>t h. keeps_server (ce_bind_client E t h))"

lemma thread_new_keeps:
  assumes "threads_keep E"
  shows "keeps_server (event_loop_thread_new (ce_threads E) name stack start stop)"
proof -
  have k: "fst (snd (th_loop_new (ce_threads E) name (x, v))) = x" "fst (snd (th_spawn (ce_threads E) name n (x, v))) = x" for n x v
    using assms by (simp_all add: threads_keep_def keeps_server_def)
  have "fst (snd (event_loop_thread_new (ce_threads E) name stack start stop (x, v))) = x" for x v
    using k(1) [of x v] k(2) [of _ x "snd (snd (th_loop_new (ce_threads E) name (x, v)))"]
    by (cases "th_loop_new (ce_threads E) name (x, v)")
      (auto simp: event_loop_thread_new_def split: prod.splits res.splits option.splits; metis fst_conv snd_conv)
  then show ?thesis by (simp add: keeps_server_def)
qed

lemma outside_up:
  assumes "keeps_server f" and "up K S c l n st"
  shows "up K S c l n (snd (any_cubeb_error (on_outside f st)))"
proof -
  obtain r w where f: "f (outside st) = (r, w)" by (rule prod.exhaust)
  have "fst w = fst (outside st)" using assms(1) f unfolding keeps_server_def by (metis prod.collapse snd_conv)
  then show ?thesis using assms(2) by (simp add: f on_outside_def any_cubeb_error_def up_server [OF assms(2)])
qed

lemma then_keeps: "U (snd m) \<Longrightarrow> (\<And>a s. U s \<Longrightarrow> U (snd (k a s))) \<Longrightarrow> U (snd (and_then m k))"
  by (cases m; cases "fst m") (auto simp: and_then_def)

lemma client_init_up:
  assumes sys: "system_contract K C SE S fd E" and T: "threads_keep E" and st: "up K S c l n st"
  shows "up K S c l n (snd (snd (client_context_init K E (stored, st))))"
proof -
  let ?U = "up K S c l n"
  have bind: "keeps_server (ce_bind_client E t h)" for t h using T by (simp add: threads_keep_def)
  have req: "?U (snd (send_recv K E m want st))" if "?U st" "harmless l m" for m want st
    by (rule harmless_up [OF sys that])
  have h: "harmless l ClientConnect" "harmless l ContextGetBackendId" by (simp_all add: harmless_defs)
  have each: "?U (snd (case m of (r, s) \<Rightarrow> k r s))" if "?U (snd m)" "\<And>r s. ?U s \<Longrightarrow> ?U (snd (k r s))" for m k
    using that by (cases m) simp
  have all: "?U (snd (snd (case m of (r, s) \<Rightarrow> (r, None, s))))" if "?U (snd m)" for m
    using that by (cases m) simp
  show ?thesis
  proof (cases "in_callback (caller st) \<or> stored = None")
    case False
    then obtain p where "stored = Some p" "\<not> in_callback (caller st)" by auto
    then show ?thesis
      by (cases "platform_handle_new (server_connection p) :: (unit, handle) res")
        (auto simp: client_context_init_def Let_def st split: res.splits
          intro!: all then_keeps [where U = ?U] each req h outside_up thread_new_keeps [OF T] bind)
  qed (auto simp: client_context_init_def st)
qed

lemma properties_up: "U (client s) \<Longrightarrow> U (client (snd (print_properties (client_api K E slp) ch lat sr s)))"
  unfolding print_properties_def by (intro and_then_keeps [where U = U]) simp_all

lemma api_queries:
  "api_preferred_sample_rate (client_api K E slp) = on_client (context_preferred_sample_rate K E)"
  "api_max_channel_count (client_api K E slp) = on_client (context_max_channel_count K E)"
  "api_min_latency (client_api K E slp) p = on_client (context_min_latency K E p)"
  by (simp_all add: client_api_def)

lemma test_with_context_up:
  assumes sys: "system_contract K C SE S fd E" and able: "client_able E" and ret: "drops_return E"
    and slp: "\<And>k. keeps_all (slp k)" and st: "up K S c l n (client s)" and n: "0 < n"
  shows "ends_up K S l (test_with_context K D G T (client_api K E slp) A var s)"
  unfolding test_with_context_def Let_def
  by (intro ends_up_try [where c = c and n = n] play_on_device_up [OF sys able ret slp, where c = c and n = n]
      enumerate_up [OF sys] properties_up [where U = "up K S c l n"])
    (simp_all add: n st api_queries query_up [OF sys])

lemma context_drop_up:
  assumes sys: "system_contract K C SE S fd E" and T: "threads_keep E" and st: "up K S c l n (client s)"
  obtains d s' where "api_drop_context K E (fst s) = Some (d, s')" "up K S c l n (snd s')"
proof -
  obtain cx st0 where s: "fst s = (cx, st0)" by fastforce
  obtain r st1 where d: "client_context_drop K E st0 = (r, st1)" by fastforce
  have "up K S c l n (snd (send_recv K E ClientDisconnect (expect ClientDisconnected) st0))"
    by (rule harmless_up [OF sys]) (use st s in \<open>simp_all add: harmless_defs\<close>)
  then have u: "up K S c l n st1" using d by (auto simp: client_context_drop_def split: prod.splits res.splits)
  have k: "keeps_all (th_drop (ce_threads E) t)" for t using T by (simp add: threads_keep_def)
  then have kk: "up K S c l n (st1\<lparr>outside := th_drop (ce_threads E) t (th_drop (ce_threads E) t' (outside st1))\<rparr>)" for t t'
    using sleep_up [OF k sleep_up [OF k u]] by simp
  show thesis
    using st u kk that by (cases cx; cases r) (auto simp: api_drop_context_def s d)
qed

lemma ends_upI: "up K S False l' 1 (client s) \<Longrightarrow> (r \<noteq> Panic \<Longrightarrow> l' = l) \<Longrightarrow> ends_up K S l (Some (r, s))"
  by (simp only: ends_up_def option.inject prod.inject) blast

lemma ends_up_context_drop:
  assumes sys: "system_contract K C SE S fd E" and T: "threads_keep E" and m: "ends_up K S l m"
  shows "ends_up K S l (case m of None \<Rightarrow> None | Some m \<Rightarrow> dropping m (api_context_drop (client_api K E slp)))"
proof -
  from m obtain r s l' where m: "m = Some (r, s)" "up K S False l' 1 (client s)" "r \<noteq> Panic \<longrightarrow> l' = l"
    unfolding ends_up_def by blast
  have e: "dropping (r, s) (api_context_drop (client_api K E slp)) =
      (if r = Panic then Some (Panic, s) else (case api_drop_context K E (fst s) of
         None \<Rightarrow> None | Some (d, st) \<Rightarrow> Some (if d = Panic then Panic else r, st, snd s)))"
    by (cases s, simp add: dropping_def client_api_def, auto split: option.splits)
  show ?thesis
  proof (rule context_drop_up [OF sys T m(2)])
    fix d s' assume "api_drop_context K E (fst s) = Some (d, s')" "up K S False l' 1 (snd s')"
    with m show ?thesis unfolding m(1) option.case e by (auto intro!: ends_upI simp del: One_nat_def)
  qed
qed

lemma ends_up_if:
  assumes "up K S c l n (client s)" and "0 < n" and "ends_up K S l m"
  shows "ends_up K S l (if b then Some (Err e, s) else m)"
proof -
  have "up K S False l 1 (client s)" by (rule up_weaken [OF assms(1)]) (use assms(2) in auto)
  with assms(3) show ?thesis by (simp add: ends_upI del: One_nat_def)
qed

unbundle bit_operations_syntax

section \<open>Examples\<close>

text \<open>
  A crate whose constants and arithmetic are easy to follow: a sine that is the identity, sums and products of words,
  and samples of the lower half of a word.
\<close>

definition demo_device_abi :: device_abi where
  "demo_device_abi = \<lparr>FMT_S16LE = 0x10, FMT_S16BE = 0x20, FMT_F32LE = 0x1000, FMT_F32BE = 0x2000,
     device_fmt_truncate = (\<lambda>f. f AND 0x3030), device_fmt_contains = (\<lambda>fs f. fs AND f = f),
     device_state_of = (\<lambda>s. if s = 0 then Some Disabled else if s = 1 then Some Unplugged else if s = 2 then Some Enabled else None),
     device_pref_truncate = (\<lambda>p. p AND 7), device_str = map_option (takeWhile (\<lambda>b. b \<noteq> 0))\<rparr>"

definition demo_consts :: test_consts where
  "demo_consts = \<lparr>SAMPLE_S16NE = 0, LAYOUT_UNDEFINED = 0, LAYOUT_MONO = 4, PREF_NONE = 0, PROCESSING_NONE = 0\<rparr>"

definition demo_text :: error_text where
  "demo_text = \<lparr>display_error = (\<lambda>_. ''Error''), debug_error = (\<lambda>_. ''Error'')\<rparr>"

definition demo_f32 :: f32_ops where
  "demo_f32 = \<lparr>f32_mul = (\<lambda>a b. a * b), f32_div = (\<lambda>a b. a), f32_add = (\<lambda>a b. a + b), f32_sin = (\<lambda>a. a),
     f32_of_u32 = (\<lambda>a. a), i16_from_float = ucast\<rparr>"

lemma demo_able: "client_able (demo_client_env C quiet_os)"
  by (auto simp: client_able_def demo_client_env_def shared_mem_from_def map_shm_def quiet_os_def)

lemma demo_system: "system_contract cubeb_h demo_cubeb demo_env list_slab (\<lambda>_. 20) (demo_client_env demo_cubeb quiet_os)"
  by (simp add: system_contract_def cubeb_h_contract demo_contracts demo_keeps_served)
    (simp add: context_safe_def no_panic_def demo_cubeb_def)

lemma demo_threads: "threads_keep (demo_client_env C os)" "drops_return (demo_client_env C os)"
  by (simp_all add: threads_keep_def drops_return_def keeps_server_def keeps_all_def demo_client_env_def)

definition tone_start :: tone_app where
  "tone_start = \<lparr>tone_position = 0, tone_output = []\<rparr>"

definition tone_client ::
  "((nat \<times> server_stream) list, demo_world) server_st \<Rightarrow>
   (tone_app, ((nat \<times> server_stream) list, demo_world) server_st option \<times> unit) client_st" where
  "tone_client sst = \<lparr>bound = Map.empty, caller = \<lparr>in_callback = False, app = tone_start\<rparr>, outside = (Some sst, ())\<rparr>"

lemma demo_up: "up cubeb_h list_slab True (life_of list_slab (sv demo_server)) 1 (tone_client demo_server)"
  using demo_server_inv
  by (simp add: up_def tone_client_def) (simp add: demo_server_def cubeb_server_new_def dev_id_map_new_def)

end
