(* ===== verification/TestTone.thy ===== *)
theory TestTone
  imports TestClientSpec
begin

text \<open>
  The tone of the test client (\<open>ipctest/src/client.rs\<close>) as cubeb gets it: one waveform without a gap, however cubeb
  cuts it into callbacks.
\<close>

section \<open>The waveform\<close>

definition tone :: "f32_ops \<Rightarrow> u32 \<Rightarrow> nat \<Rightarrow> byte list" where
  "tone F p n = concat (map (\<lambda>i. i16_le (tone_sample F (p + of_nat i))) [0..<n])"

lemma tone_0 [simp]: "tone F p 0 = []"
  by (simp add: tone_def)

lemma tone_Suc: "tone F p (Suc n) = i16_le (tone_sample F p) @ tone F (p + 1) n"
  by (simp add: tone_def upt_rec [of 0] map_Suc_upt [symmetric] comp_def algebra_simps del: upt_Suc)

lemma tone_append: "tone F p (m + n) = tone F p m @ tone F (p + of_nat m) n"
  by (induction m arbitrary: p) (simp_all add: tone_Suc algebra_simps)

lemma length_tone [simp]: "length (tone F p n) = 2 * n"
  by (induction n arbitrary: p) (simp_all add: tone_Suc i16_le_def)

lemma write_tone_eq: "write_tone F n p = (tone F p n, p + of_nat n)"
  by (induction n arbitrary: p) (simp_all add: tone_Suc algebra_simps)

section \<open>A callback and a sequence of callbacks\<close>

lemma tone_app_contract: "app_contract (tone_callbacks F sh)"
  by (auto simp: app_contract_def tone_callbacks_def tone_data_callback_def write_tone_eq Let_def)

lemma tone_step:
  assumes "app_step K f (tone_callbacks F sh) None None (Some 2) (DataCallback inb (Some mem) n) a r a'"
    and "0 < sint n" and "length mem = unat n * 2"
  shows "r = Frames n (Some (tone F (tone_position a) (unat n))) \<and>
    a' = a\<lparr>tone_position := tone_position a + of_nat (unat n)\<rparr>"
  using assms
  by (auto elim!: app_step_dataE
      simp: tone_callbacks_def tone_data_callback_def write_tone_eq played_def frame_bytes_def)

text \<open>The frames that cubeb asks for and the bytes that it gets.\<close>

fun frames_asked :: "stream_callback list \<Rightarrow> nat" where
  "frames_asked [] = 0"
| "frames_asked (DataCallback inb outb n # evs) = unat n + frames_asked evs"
| "frames_asked (ev # evs) = frames_asked evs"

fun heard :: "callback_result list \<Rightarrow> byte list" where
  "heard [] = []"
| "heard (Frames n (Some mem) # rs) = mem @ heard rs"
| "heard (r # rs) = heard rs"

definition all_frames :: "stream_callback \<Rightarrow> callback_result \<Rightarrow> bool" where
  "all_frames ev r = (case ev of DataCallback inb outb n \<Rightarrow> \<exists>mem. r = Frames n (Some mem) | _ \<Rightarrow> r = Told)"

lemma all_frames_simps [simp]:
  "all_frames (DataCallback inb outb n) r \<longleftrightarrow> (\<exists>mem. r = Frames n (Some mem))"
  "all_frames (StateCallback s) r \<longleftrightarrow> r = Told" "all_frames DeviceChangeCallback r \<longleftrightarrow> r = Told"
  by (simp_all add: all_frames_def)

lemma tone_run:
  assumes "app_run K f (tone_callbacks F sh) None None (Some 2) evs a rs a'"
    and "\<And>inb outb n. DataCallback inb outb n \<in> set evs \<Longrightarrow> 0 < sint n \<and> (\<exists>mem. outb = Some mem \<and> length mem = unat n * 2)"
  shows "heard rs = tone F (tone_position a) (frames_asked evs) \<and> list_all2 all_frames evs rs \<and>
    tone_position a' = tone_position a + of_nat (frames_asked evs)"
  using assms
proof (induction rule: app_run.induct)
  case (cons ev w r w1 evs rs w2)
  have IH: "heard rs = tone F (tone_position w1) (frames_asked evs) \<and> list_all2 all_frames evs rs \<and>
    tone_position w2 = tone_position w1 + of_nat (frames_asked evs)"
    by (rule cons.IH) (use cons.prems in auto)
  show ?case
  proof (cases ev)
    case (DataCallback inb outb n)
    with cons.prems obtain mem where mem: "outb = Some mem" "0 < sint n" "length mem = unat n * 2" by fastforce
    from tone_step [OF cons.hyps(1) [unfolded DataCallback mem(1)] mem(2,3)] IH show ?thesis
      by (simp add: DataCallback tone_append add.assoc)
  qed (use cons.hyps(1) IH in \<open>auto elim!: app_step.cases simp: tone_callbacks_def\<close>)
qed simp

section \<open>The tone of a stream\<close>

lemma tone_frame_size: "cubeb_abi_contract K \<Longrightarrow> frame_size_in_bytes K (tone_params K G) = 2"
  by (simp add: cubeb_abi_contract_def frame_size_in_bytes_def tone_params_def)

text \<open>
  C23: the stream that the test creates plays the tone without a gap: however cubeb cuts the time into callbacks, and
  whatever its buffers held, each data callback gets all the frames that it asked for, and the buffers one after the
  other are one waveform, from the position of the application on; the position counts the frames.
\<close>

theorem test_tone_heard:
  assumes K: "cubeb_abi_contract K" and E: "served K C SE S fd E" and o: "outside st = (Some sst, v)"
    and inv: "server_inv K S (sv sst)" and size: "configured_shm_size (sv sst) = 0"
    and init: "context_stream_init K E (Some (ascii ''Cubeb tone (mono)'')) 0 None device (Some (tone_params K G)) 4096
      (tone_callbacks F sh) 0 st = (Ok s, st')"
    and idle: "\<not> in_callback t"
    and evs: "\<And>ev. ev \<in> set evs \<Longrightarrow> callback_of K None (Some (tone_params K G)) ev"
  shows "\<exists>sst' v' ss cs rs cbs' cs' a. outside st' = (Some sst', v') \<and>
     sl_get S (streams (sv sst')) (st_token s) = Some ss \<and> bound st' (st_cell s) = Some (tone_callbacks F sh, cs) \<and>
     serve_callbacks K f (client_rpc K (tone_callbacks F sh)) evs (ss_cbs ss, cs, t) = Some (rs, cbs', cs', t\<lparr>app := a\<rparr>) \<and>
     heard rs = tone F (tone_position (app t)) (frames_asked evs) \<and> list_all2 all_frames evs rs \<and>
     tone_position a = tone_position (app t) + of_nat (frames_asked evs)"
proof -
  have name: "0 \<notin> set n" if "Some (ascii ''Cubeb tone (mono)'') = Some n" for n
    using that by (auto simp: ascii_def)
  have data: "0 < sint n \<and> (\<exists>mem. outb = Some mem \<and> length mem = unat n * 2)"
    if "DataCallback inb outb n \<in> set evs" for inb outb n
    using evs [OF that] tone_frame_size [OF K, of G]
    by (auto simp: callback_of_def valid_buffer_def buffer_holds_def frame_bytes_def split: option.splits)
  obtain sst' v' ss cs rs cbs' cs' a where s: "outside st' = (Some sst', v')" "sl_get S (streams (sv sst')) (st_token s) = Some ss"
    "bound st' (st_cell s) = Some (tone_callbacks F sh, cs)"
    "serve_callbacks K f (client_rpc K (tone_callbacks F sh)) evs (ss_cbs ss, cs, t) = Some (rs, cbs', cs', t\<lparr>app := a\<rparr>)"
    and run: "app_run K f (tone_callbacks F sh) None (map_option (frame_size_in_bytes K) None)
      (map_option (frame_size_in_bytes K) (Some (tone_params K G))) evs (app t) rs a"
    using created_stream_session [where evs = evs and f = f and t = t,
        OF K E o inv size name init tone_app_contract idle evs] by blast
  have "heard rs = tone F (tone_position (app t)) (frames_asked evs) \<and> list_all2 all_frames evs rs \<and>
     tone_position a = tone_position (app t) + of_nat (frames_asked evs)"
    using run data unfolding option.map tone_frame_size [OF K] by (rule tone_run)
  with s show ?thesis by blast
qed

text \<open>The tone's stream in the example server, played for one frame, then for two.\<close>

definition tone_request :: stream_create_params where
  "tone_request = create_request (Some (ascii ''Cubeb tone (mono)'')) 0 None 0 (Some (tone_params cubeb_h demo_consts)) 4096"

lemma tone_request_fields:
  "input_device tone_request = 0" "output_device tone_request = 0" "input_stream_params tone_request = None"
  "output_stream_params tone_request = Some (tone_params cubeb_h demo_consts)" "latency_frames tone_request = 4096"
  "stream_name tone_request = Some (ascii ''Cubeb tone (mono)'' @ [0])"
  by (simp_all add: tone_request_def create_request_def)

lemma tone_request_valid: "validate_stream_create_params cubeb_h tone_request = Ok ()"
  by (simp add: validate_stream_create_params_def validate_stream_params_def tone_request_fields tone_params_def
      demo_consts_def cubeb_h_def SAMPLE_RATE_def)

lemma tone_request_latency: "(stream_latency tone_request :: (cubeb_error, u32) res) = Ok 4096"
proof -
  have "bit_length 239 = 8" by (simp add: bit_length.simps)
  then have "round_up_pow2 240 = (Ok 256 :: (cubeb_error, u32) res)"
    by (simp add: round_up_pow2_def leading_zeros_def push_bit_eq_mult)
  then show ?thesis
    by (simp add: stream_latency_def stream_rate_def clamp_def tone_request_fields tone_params_def SAMPLE_RATE_def)
qed

lemma tone_request_init:
  "devidmap (sv st) = [0] \<Longrightarrow> init_stream demo_cubeb 0 tone_request st = (Ok 11, st)"
proof -
  have "0 \<notin> set (ascii ''Cubeb tone (mono)'')" by (simp add: ascii_def)
  then have n: "cstr_from_bytes_with_nul (ascii ''Cubeb tone (mono)'' @ [0]) = Some (ascii ''Cubeb tone (mono)'')"
    by (rule cstr_terminated)
  show "devidmap (sv st) = [0] \<Longrightarrow> init_stream demo_cubeb 0 tone_request st = (Ok 11, st)"
    by (cases st) (simp add: init_stream_def and_then_def handle_to_id_def tone_request_latency on_world_def demo_cubeb_def
      tone_request_fields n)
qed

theorem test_tone_heard_witness:
  "\<exists>s st' sst' ss cs rs cbs' cs' a.
     context_stream_init cubeb_h (demo_client_env demo_cubeb quiet_os) (Some (ascii ''Cubeb tone (mono)'')) 0 None 0
       (Some (tone_params cubeb_h demo_consts)) 4096 (tone_callbacks demo_f32 (\<lambda>_. [])) 0 (tone_client demo_server) = (Ok s, st') \<and>
     outside st' = (Some sst', ()) \<and> sl_get list_slab (streams (sv sst')) (st_token s) = Some ss \<and>
     bound st' (st_cell s) = Some (tone_callbacks demo_f32 (\<lambda>_. []), cs) \<and>
     serve_callbacks cubeb_h id (client_rpc cubeb_h (tone_callbacks demo_f32 (\<lambda>_. [])))
       [DataCallback None (Some [9, 9]) 1, StateCallback 0, DataCallback None (Some [9, 9, 9, 9]) 2]
       (ss_cbs ss, cs, \<lparr>in_callback = False, app = tone_start\<rparr>)
       = Some (rs, cbs', cs', \<lparr>in_callback = False, app = a\<rparr>) \<and>
     heard rs = tone demo_f32 0 3 \<and> tone_position a = 3"
proof -
  let ?evs = "[DataCallback None (Some [9, 9]) 1, StateCallback 0, DataCallback None (Some [9, 9, 9, 9]) 2]"
  have o: "outside (tone_client demo_server) = (Some demo_server, ())" and idle: "\<not> in_callback (caller (tone_client demo_server))"
    by (simp_all add: tone_client_def)
  obtain s st' sst' where 1: "context_stream_init cubeb_h (demo_client_env demo_cubeb quiet_os) (Some (ascii ''Cubeb tone (mono)'')) 0 None 0
       (Some (tone_params cubeb_h demo_consts)) 4096 (tone_callbacks demo_f32 (\<lambda>_. [])) 0 (tone_client demo_server) = (Ok s, st')"
    "outside st' = (Some sst', ())"
    using demo_client_started_for [OF tone_request_valid [unfolded tone_request_def] tone_request_init [unfolded tone_request_def] o idle]
    by blast
  have size: "configured_shm_size (sv demo_server) = 0" by (simp add: demo_server_def cubeb_server_new_def)
  have evs: "callback_of cubeb_h None (Some (tone_params cubeb_h demo_consts)) ev" if "ev \<in> set ?evs" for ev
    using that tone_frame_size [OF cubeb_h_contract, of demo_consts]
    by (auto simp: callback_of_def valid_buffer_def buffer_holds_def frame_bytes_def tone_params_def SAMPLE_RATE_def)
  have t: "\<not> in_callback \<lparr>in_callback = False, app = tone_start\<rparr>" by simp
  have asked: "frames_asked ?evs = 3" and start: "tone_position tone_start = 0" by (simp_all add: tone_start_def)
  from test_tone_heard [where evs = ?evs and f = id, OF cubeb_h_contract demo_keeps_served o demo_server_inv size 1(1) t evs] 1
  show ?thesis by (simp add: asked start del: serve_callbacks.simps frames_asked.simps) blast
qed

end
