(* ===== verification/TestRun.thy ===== *)
theory TestRun
  imports TestTone
begin

text \<open>
  Whole runs of the test client (\<open>ipctest/src/client.rs\<close>) against a server: what holds of each of them, and one that
  succeeds.
\<close>

section \<open>Every run\<close>


section \<open>A run on the example server\<close>

text \<open>The example server answers every query and stays as it is.\<close>

abbreviation demo_e :: "(((nat \<times> server_stream) list, demo_world) server_st option \<times> unit) client_env" where
  "demo_e \<equiv> demo_client_env demo_cubeb quiet_os"

definition serving :: "('a, ((nat \<times> server_stream) list, demo_world) server_st option \<times> unit) client_st \<Rightarrow>
   ((nat \<times> server_stream) list, demo_world) server_st \<Rightarrow> bool" where
  "serving st sst \<longleftrightarrow> outside st = (Some sst, ()) \<and> local_context sst = Some (Ok ()) \<and> \<not> in_callback (caller st)"

lemma demo_send_recv:
  assumes "serving st sst" and "process_msg cubeb_h demo_cubeb demo_env list_slab m sst = (Ok resp, sst')"
  shows "send_recv cubeb_h demo_e m want st =
    (recv_response cubeb_h want (Ok (cm_received resp 20)), st\<lparr>outside := (Some sst', ())\<rparr>)"
  using assms
  by (simp add: serving_def send_recv_def demo_client_env_def served_call_def server_process_def context_ready)

lemma serving_same [simp]: "serving st sst \<Longrightarrow> st\<lparr>outside := (Some sst, ())\<rparr> = st"
  by (cases st) (simp add: serving_def)

lemma serving_idle [simp]: "serving st sst \<Longrightarrow> guarded f st = f st"
  by (simp add: serving_def)

lemma demo_process:
  "process_msg cubeb_h demo_cubeb demo_env list_slab ContextGetPreferredSampleRate sst = (Ok (ContextPreferredSampleRate 48000), sst)"
  "process_msg cubeb_h demo_cubeb demo_env list_slab ContextGetMaxChannelCount sst = (Ok (ContextMaxChannelCount 2), sst)"
  "process_msg cubeb_h demo_cubeb demo_env list_slab (ContextGetMinLatency p) sst = (Ok (ContextMinLatency 256), sst)"
  "process_msg cubeb_h demo_cubeb demo_env list_slab (ContextGetDeviceEnumeration d) sst = (Ok (ContextEnumeratedDevices []), sst)"
  "process_msg cubeb_h demo_cubeb demo_env list_slab ContextGetBackendId sst = (Ok (ContextBackendId [100]), sst)"
  "process_msg cubeb_h demo_cubeb demo_env list_slab ClientDisconnect sst = (Ok ClientDisconnected, sst)"
  by (cases sst; cases "sv sst"; simp add: process_msg_def reply_def and_then_def on_world_def process_enumeration_def demo_cubeb_def)+

lemma demo_queries:
  assumes s: "serving st sst"
  shows "context_preferred_sample_rate cubeb_h demo_e st = (Ok 48000, st)"
    "context_max_channel_count cubeb_h demo_e st = (Ok 2, st)"
    "context_min_latency cubeb_h demo_e p st = (Ok 256, st)"
    "context_enumerate_devices cubeb_h demo_e d st = (Ok [], st)"
    "client_context_drop cubeb_h demo_e st = (Ok (), st)"
proof -
  note run = demo_send_recv [OF s demo_process(1)] demo_send_recv [OF s demo_process(2)]
    demo_send_recv [OF s demo_process(3)] demo_send_recv [OF s demo_process(6)]
  show "context_enumerate_devices cubeb_h demo_e d st = (Ok [], st)"
    using s unfolding context_enumerate_devices_def serving_idle [OF s] demo_send_recv [OF s demo_process(4)]
    by (simp add: recv_response_def cm_received_def)
qed (use s in \<open>simp_all add: context_preferred_sample_rate_def context_max_channel_count_def context_min_latency_def
    client_context_drop_def recv_response_def cm_received_def expect_def
    demo_send_recv [OF s demo_process(1)] demo_send_recv [OF s demo_process(2)]
    demo_send_recv [OF s demo_process(3)] demo_send_recv [OF s demo_process(6)]\<close>)

text \<open>Making the context; the server's first request needs the client's process id, which it has.\<close>

lemma demo_init:
  assumes s: "serving st sst" and pid: "remote_pid (sv sst) = Some pid"
  obtains c where "api_init_client cubeb_h demo_e 20 (None, st) = (Ok 0, Some c, st)" "cx_backend_id c = [100]"
proof -
  have 1: "process_msg cubeb_h demo_cubeb demo_env list_slab ClientConnect sst = (Ok ClientConnected, sst)"
    using pid by (simp add: process_msg_def)
  have th: "event_loop_thread_new (ce_threads demo_e) name n a b w = (Ok \<lparr>elt_thread = 0, elt_name = name, elt_after_start = a, elt_before_stop = b\<rparr>, w)"
    for name n a b w
    by (simp add: event_loop_thread_new_def demo_client_env_def)
  have bind: "ce_bind_client demo_e t h w = (Ok (), w)" for t h w by (simp add: demo_client_env_def)
  have pipe: "platform_handle_new 20 = (Ok 20 :: (unit, handle) res)" by (simp add: platform_handle_new_def valid_handle_def)
  have idle: "\<not> in_callback (caller st)" using s by (simp add: serving_def)
  have o: "st\<lparr>outside := outside st\<rparr> = st" by simp
  have "\<exists>c. api_init_client cubeb_h demo_e 20 (None, st) = (Ok 0, Some c, st) \<and> cx_backend_id c = [100]"
    using s by (simp add: api_init_client_def client_context_init_def idle pipe Let_def th bind on_outside_def any_cubeb_error_def
      and_then_def demo_send_recv [OF s 1] demo_send_recv [OF s demo_process(5)] recv_response_def cm_received_def expect_def)
  then show thesis using that by blast
qed

text \<open>The stream of the tone, from its creation to its drop.\<close>

lemma demo_stream_ops:
  assumes s: "serving st sst" and str: "streams (sv sst) = [(0, initialized x 11)]"
  shows "stream_set_volume cubeb_h demo_e \<lparr>st_user_ptr = u, st_token = 0, st_cell = c\<rparr> v st = (Ok (), st)"
    "stream_start cubeb_h demo_e \<lparr>st_user_ptr = u, st_token = 0, st_cell = c\<rparr> st = (Ok (), st)"
    "stream_stop cubeb_h demo_e \<lparr>st_user_ptr = u, st_token = 0, st_cell = c\<rparr> st = (Ok (), st)"
proof -
  have get: "sl_get list_slab (streams (sv sst)) 0 = Some (initialized x 11)" "ss_stream (initialized x 11) = Some 11"
    by (simp_all add: str list_slab_def initialized_def)
  have p: "process_msg cubeb_h demo_cubeb demo_env list_slab (StreamSetVolume 0 v) sst = (Ok StreamVolumeSet, sst)"
    "process_msg cubeb_h demo_cubeb demo_env list_slab (StreamStart 0) sst = (Ok StreamStarted, sst)"
    "process_msg cubeb_h demo_cubeb demo_env list_slab (StreamStop 0) sst = (Ok StreamStopped, sst)"
    by (simp_all add: process_msg_def process_stream_msg_def try_stream_def get reply_def on_world_def) (simp_all add: demo_cubeb_def)
  show "stream_set_volume cubeb_h demo_e \<lparr>st_user_ptr = u, st_token = 0, st_cell = c\<rparr> v st = (Ok (), st)"
    "stream_start cubeb_h demo_e \<lparr>st_user_ptr = u, st_token = 0, st_cell = c\<rparr> st = (Ok (), st)"
    "stream_stop cubeb_h demo_e \<lparr>st_user_ptr = u, st_token = 0, st_cell = c\<rparr> st = (Ok (), st)"
    using s by (simp_all add: stream_set_volume_def stream_start_def stream_stop_def demo_send_recv [OF s p(1)]
        demo_send_recv [OF s p(2)] demo_send_recv [OF s p(3)] recv_response_def cm_received_def expect_def)
qed

lemma demo_stream_drop:
  assumes s: "serving st sst" and str: "streams (sv sst) = [(0, initialized x 11)]"
  obtains st' sst' where "client_stream_drop cubeb_h demo_e \<lparr>st_user_ptr = u, st_token = 0, st_cell = c\<rparr> st = Some (Ok (), st')"
    "serving st' sst'" "streams (sv sst') = []"
proof -
  have get: "sl_get list_slab (streams (sv sst)) 0 = Some (initialized x 11)" by (simp add: str list_slab_def)
  let ?sst = "remove_stream demo_cubeb demo_env list_slab 0 sst"
  have "process_msg cubeb_h demo_cubeb demo_env list_slab (StreamDestroy 0) sst = (Ok StreamDestroyed, ?sst)"
    by (simp add: process_msg_def process_stream_msg_def get)
  note r = demo_send_recv [OF s this]
  have "client_stream_drop cubeb_h demo_e \<lparr>st_user_ptr = u, st_token = 0, st_cell = c\<rparr> st =
      Some (Ok (), st\<lparr>outside := (Some ?sst, ()), bound := (bound st)(c := None)\<rparr>)"
    unfolding client_stream_drop_def client_stream.simps r
    by (simp add: recv_response_def cm_received_def expect_def demo_client_env_def)
  moreover have "serving (st\<lparr>outside := (Some ?sst, ()), bound := (bound st)(c := None)\<rparr>) ?sst"
    using s by (simp add: serving_def)
  moreover have "streams (sv ?sst) = []" by (simp add: remove_stream_def get str list_slab_def)
  ultimately show thesis by (rule that)
qed

lemma demo_play:
  assumes o: "outside st = (Some demo_server, ())" and idle: "\<not> in_callback (caller st)"
  obtains st' sst' where "play_tone cubeb_h demo_consts T (client_api cubeb_h demo_e (\<lambda>_ w. w)) A 0 ((cx, st), out) =
      Some (Ok (), (cx, st'), out)" "serving st' sst'" "streams (sv sst') = []"
proof -
  obtain st1 sst1 where 1: "context_stream_init cubeb_h demo_e (Some (ascii ''Cubeb tone (mono)'')) 0 None 0
      (Some (tone_params cubeb_h demo_consts)) 4096 A 0 st = (Ok \<lparr>st_user_ptr = 0, st_token = 0, st_cell = 5\<rparr>, st1)"
    "outside st1 = (Some sst1, ())" "streams (sv sst1) = [(0, initialized (demo_stream_for tone_request) 11)]"
    "local_context sst1 = Some (Ok ())" "caller st1 = caller st"
    using demo_client_started_for [OF tone_request_valid [unfolded tone_request_def] tone_request_init [unfolded tone_request_def] o idle]
    unfolding tone_request_def by blast
  have s: "serving st1 sst1" using 1 idle by (simp add: serving_def)
  note ops = demo_stream_ops [OF s 1(3)]
  have sleep: "(st1\<lparr>outside := outside st1\<rparr>) = st1" by simp
  show thesis
  proof (rule demo_stream_drop [OF s 1(3), of 0 5])
    fix st' sst'
    assume "client_stream_drop cubeb_h demo_e \<lparr>st_user_ptr = 0, st_token = 0, st_cell = 5\<rparr> st1 = Some (Ok (), st')"
      "serving st' sst'" "streams (sv sst') = []"
    with 1(1) ops show thesis
      by (intro that [of st' sst'])
        (simp_all add: play_tone_def query_def on_api_def on_client_def client_api_def and_then_def dropping_def)
  qed
qed

lemma api_fields:
  "api_client_init (client_api K E slp) = api_init_client K E"
  "api_preferred_sample_rate (client_api K E slp) = on_client (context_preferred_sample_rate K E)"
  "api_max_channel_count (client_api K E slp) = on_client (context_max_channel_count K E)"
  "api_min_latency (client_api K E slp) p = on_client (context_min_latency K E p)"
  "api_backend_id (client_api K E slp) (Some c, st) = (case context_backend_id c st of (r, st) \<Rightarrow> (map_err ErrCubeb r, Some c, st))"
  "api_enumerate_devices (client_api K E slp) d = on_client (context_enumerate_devices K E d)"
  "api_collection_drop (client_api K E slp) ds (cx, st) = (cx, snd (context_device_collection_destroy ds st))"
  "api_context_drop (client_api K E slp) = api_drop_context K E"
  by (simp_all add: client_api_def)

lemma prog_steps:
  "and_then (Ok a, s) k = k a s"
  "say line (st, out) = (Ok (), st, out @ [line])"
  "on_output g (st, out) = (case g out of (r, out) \<Rightarrow> (r, st, out))"
  "on_api f (st, out) = (case f st of (r, st) \<Rightarrow> (r, st, out))"
  "on_client h (cx, cl) = (case h cl of (r, cl) \<Rightarrow> (r, cx, cl))"
  "drop_collection P ds (Ok a, st, out) = (Ok a, api_collection_drop P ds st, out)"
  by (simp_all add: and_then_def say_def on_output_def on_api_def on_client_def drop_collection_def)

text \<open>The example test succeeds.\<close>

lemma demo_test:
  obtains st' sst' lines where "client_test cubeb_h demo_device_abi demo_consts demo_text (client_api cubeb_h demo_e (\<lambda>_ w. w))
      (tone_callbacks demo_f32 (\<lambda>_. [])) NotPresent 20 ((None, tone_client demo_server), []) = Some (Ok (), (None, st'), lines)"
    "outside st' = (Some sst', ())" "streams (sv sst') = []"
proof -
  let ?st = "tone_client demo_server"
  let ?P = "client_api cubeb_h demo_e (\<lambda>_ w. w)"
  let ?A = "tone_callbacks demo_f32 (\<lambda>_. [])"
  have o: "outside ?st = (Some demo_server, ())" "\<not> in_callback (caller ?st)" by (simp_all add: tone_client_def)
  have s: "serving ?st demo_server" using o by (simp add: serving_def demo_server_def)
  have pid: "remote_pid (sv demo_server) = Some 9" by (simp add: demo_server_def cubeb_server_new_def)
  show thesis
  proof (rule demo_init [OF s pid])
    fix c assume i: "api_init_client cubeb_h demo_e 20 (None, ?st) = (Ok 0, Some c, ?st)" "cx_backend_id c = [100]"
    have b: "context_backend_id c ?st = (Ok [100], ?st)" using s i(2) by (simp add: context_backend_id_def)
    have d: "context_device_collection_destroy [] ?st = (Ok [], ?st)" using s by (simp add: context_device_collection_destroy_def)
    have th: "th_drop (ce_threads demo_e) t w = w" for t w by (simp add: demo_client_env_def)
    note query_steps = query_def prog_steps api_fields demo_queries [OF s]
    have e: "\<exists>lines. enumerate_devices cubeb_h demo_device_abi demo_text ?P ((Some c, ?st), out) = (Ok (), (Some c, ?st), lines)" for out
      by (simp add: enumerate_devices_def demo_queries [OF s] prog_steps api_fields b d)
    have p: "\<exists>lines. print_properties ?P ch lat sr ((Some c, ?st), out) = (Ok (), (Some c, ?st), lines)" for ch lat sr out
      by (simp add: print_properties_def prog_steps api_fields b)
    obtain out1 where p1: "print_properties ?P 2 256 48000 ((Some c, ?st), []) = (Ok (), (Some c, ?st), out1)" using p by blast
    obtain out2 where e1: "enumerate_devices cubeb_h demo_device_abi demo_text ?P ((Some c, ?st), out1) = (Ok (), (Some c, ?st), out2)"
      using e by blast
    show thesis
    proof (rule demo_play [OF o])
      fix st' sst'
      assume "play_tone cubeb_h demo_consts demo_text ?P ?A 0 ((Some c, ?st), out2) = Some (Ok (), (Some c, st'), out2)"
        and s': "serving st' sst'" "streams (sv sst') = []"
      then have "test_with_context cubeb_h demo_device_abi demo_consts demo_text ?P ?A NotPresent ((Some c, ?st), []) =
          Some (Ok (), (Some c, st'), out2)"
        by (simp add: test_with_context_def query_steps p1 e1 play_on_device_def)
      moreover have "api_drop_context cubeb_h demo_e (Some c, st') = Some (Ok (), None, st')"
        using s' by (simp add: api_drop_context_def demo_queries [OF s'(1)] th)
      ultimately have "client_test cubeb_h demo_device_abi demo_consts demo_text ?P ?A NotPresent 20 ((None, ?st), []) =
          Some (Ok (), (None, st'), out2)"
        by (simp add: client_test_def on_api_def api_fields i dropping_def)
      then show thesis by (rule that) (use s' in \<open>simp_all add: serving_def\<close>)
    qed
  qed
qed


end
