(* ===== verification/WinHandles.thy ===== *)
theory WinHandles
  imports Sys "HOL-Library.AList"
begin

text \<open>
  Platform handles on Windows: the Windows variants of \<open>audioipc/src/lib.rs\<close> and of the handle operations
  in \<open>audioipc/src/messages.rs\<close>.  A handle is a 64-bit value that means something in one process only; it is
  remoted by duplicating it into the target process, which yields the target's value of it.  Until the
  message with that value has been sent, a \<open>RemoteHandle\<close> owns both values.

  The system calls are parameters over a state \<open>'w\<close> of the system.  What the program relies on is
  \<open>win_contract\<close>: a table of open handles for every process.
\<close>

section \<open>The system\<close>

type_synonym win_handle = "64 word"

datatype dup_option = DUPLICATE_SAME_ACCESS | DUPLICATE_CLOSE_SOURCE

text \<open>\<open>DuplicateHandle\<close> takes the source process, the source handle, the target process and the option.\<close>

record 'w win_os =
  GetCurrentProcess :: win_handle
  OpenProcess :: "u32 \<Rightarrow> 'w \<Rightarrow> win_handle \<times> 'w"
  DuplicateHandle :: "win_handle \<Rightarrow> win_handle \<Rightarrow> win_handle \<Rightarrow> dup_option \<Rightarrow> 'w \<Rightarrow> bool \<times> win_handle \<times> 'w"
  CloseHandle :: "win_handle \<Rightarrow> 'w \<Rightarrow> bool \<times> 'w"

definition WIN_INVALID_HANDLE_VALUE :: win_handle where
  "WIN_INVALID_HANDLE_VALUE = -1"

definition win_valid_handle :: "win_handle \<Rightarrow> bool" where
  "win_valid_handle h \<longleftrightarrow> h \<noteq> WIN_INVALID_HANDLE_VALUE \<and> h \<noteq> 0"

definition win_platform_handle_new :: "win_handle \<Rightarrow> ('e, win_handle) res" where
  "win_platform_handle_new raw = (if win_valid_handle raw then Ok raw else Panic)"

definition win_close_platform_handle :: "'w win_os \<Rightarrow> win_handle \<Rightarrow> 'w \<Rightarrow> 'w" where
  "win_close_platform_handle os h w = snd (CloseHandle os h w)"

definition open_target :: "'w win_os \<Rightarrow> u32 \<Rightarrow> 'w \<Rightarrow> (io_error, win_handle) res \<times> 'w" where
  "open_target os pid w = (case OpenProcess os pid w of (target, w1) \<Rightarrow>
     if \<not> win_valid_handle target then (Err (io_other ''invalid target process''), w1) else (Ok target, w1))"

definition duplicate_platform_handle ::
  "'w win_os \<Rightarrow> win_handle \<Rightarrow> u32 option \<Rightarrow> 'w \<Rightarrow> (io_error, win_handle) res \<times> 'w" where
  "duplicate_platform_handle os source target_pid w =
     and_then (case target_pid of
         Some pid \<Rightarrow> (case open_target os pid w of (r, w1) \<Rightarrow> (map_ok Some r, w1))
       | None \<Rightarrow> (Ok None, w)) (\<lambda>target_process w1.
       (case DuplicateHandle os (GetCurrentProcess os) source
           (case target_process of Some target \<Rightarrow> target | None \<Rightarrow> GetCurrentProcess os) DUPLICATE_SAME_ACCESS w1 of
         (ok, target_handle, w2) \<Rightarrow>
           let w3 = (case target_process of Some target \<Rightarrow> snd (CloseHandle os target w2) | None \<Rightarrow> w2) in
           if \<not> ok then (Err (io_other ''DuplicateHandle failed''), w3) else (Ok target_handle, w3)))"

definition close_target_handle ::
  "'w win_os \<Rightarrow> win_handle \<Rightarrow> u32 \<Rightarrow> 'w \<Rightarrow> (io_error, unit) res \<times> 'w" where
  "close_target_handle os h target_pid w = and_then (open_target os target_pid w) (\<lambda>target_process w1.
     (case DuplicateHandle os target_process h 0 DUPLICATE_CLOSE_SOURCE w1 of (ok, _, w2) \<Rightarrow>
        let w3 = snd (CloseHandle os target_process w2) in
        if \<not> ok then (Err (io_other ''DuplicateHandle failed''), w3) else (Ok (), w3)))"

definition win_platform_handle_duplicate ::
  "'w win_os \<Rightarrow> win_handle \<Rightarrow> 'w \<Rightarrow> (io_error, win_handle) res \<times> 'w" where
  "win_platform_handle_duplicate os h w =
     and_then (duplicate_platform_handle os h None w) (\<lambda>dup w1. (win_platform_handle_new dup, w1))"

text \<open>\<open>server_platform_init\<close>, given what \<open>CoInitializeEx\<close> returns.\<close>

definition win_server_platform_init :: "int \<Rightarrow> ('e, unit) res" where
  "win_server_platform_init r = (if r = 0 \<or> r = 1 then Ok () else Panic)"

section \<open>RemoteHandle\<close>

record remote_handle =
  rh_handle :: win_handle
  rh_target :: u32
  rh_target_handle :: "win_handle option"

definition remote_handle_new :: "win_handle \<Rightarrow> u32 \<Rightarrow> remote_handle" where
  "remote_handle_new h target = \<lparr>rh_handle = h, rh_target = target, rh_target_handle = None\<rparr>"

definition mark_sent :: "remote_handle \<Rightarrow> remote_handle" where
  "mark_sent r = r\<lparr>rh_target_handle := None\<rparr>"

definition send_to_target ::
  "'w win_os \<Rightarrow> remote_handle \<Rightarrow> 'w \<Rightarrow> (io_error, win_handle) res \<times> remote_handle \<times> 'w" where
  "send_to_target os r w = (case duplicate_platform_handle os (rh_handle r) (Some (rh_target r)) w of
     (Ok t, w1) \<Rightarrow> (Ok t, r\<lparr>rh_target_handle := Some t\<rparr>, w1)
   | (Err e, w1) \<Rightarrow> (Err e, r, w1)
   | (Panic, w1) \<Rightarrow> (Panic, r, w1))"

text \<open>The drop ignores a failure to close the target's handle (it is traced).\<close>

definition remote_handle_drop :: "'w win_os \<Rightarrow> remote_handle \<Rightarrow> 'w \<Rightarrow> 'w" where
  "remote_handle_drop os r w =
     (let w1 = win_close_platform_handle os (rh_handle r) w in
      case rh_target_handle r of
        Some t \<Rightarrow> snd (close_target_handle os t (rh_target r) w1)
      | None \<Rightarrow> w1)"

section \<open>SerializableHandle and messages\<close>

datatype win_serializable = WinOwned win_handle "u32 option" | WinValue win_handle | WinEmpty

definition win_take_handle :: "win_serializable \<Rightarrow> ('e, win_handle) res \<times> win_serializable" where
  "win_take_handle s = (case s of
     WinOwned h target_pid \<Rightarrow> if target_pid = None then (Ok h, WinEmpty) else (Panic, WinEmpty)
   | _ \<Rightarrow> (Panic, WinEmpty))"

definition win_take_handle_for_send :: "win_serializable \<Rightarrow> ('e, remote_handle) res \<times> win_serializable" where
  "win_take_handle_for_send s = (case s of
     WinOwned h target_pid \<Rightarrow> (case target_pid of
         Some pid \<Rightarrow> (Ok (remote_handle_new h pid), WinEmpty) | None \<Rightarrow> (Panic, WinEmpty))
   | _ \<Rightarrow> (Panic, WinEmpty))"

definition win_make_owned :: "win_serializable \<Rightarrow> ('e, unit) res \<times> win_serializable" where
  "win_make_owned s = (case s of
     WinValue h \<Rightarrow> (case win_platform_handle_new h of
         Ok h' \<Rightarrow> (Ok (), WinOwned h' None) | Err e \<Rightarrow> (Err e, s) | Panic \<Rightarrow> (Panic, s))
   | _ \<Rightarrow> (Panic, s))"

definition win_get_serializable_value :: "win_serializable \<Rightarrow> ('e, win_handle) res" where
  "win_get_serializable_value s = (case s of
     WinValue h \<Rightarrow> Ok h | WinEmpty \<Rightarrow> Ok WIN_INVALID_HANDLE_VALUE | WinOwned _ _ \<Rightarrow> Panic)"

text \<open>A handle crosses as an \<open>i64\<close>, the signed reading of the pointer.\<close>

definition win_handle_to_i64 :: "win_handle \<Rightarrow> int" where
  "win_handle_to_i64 h = sint h"

definition win_handle_of_i64 :: "int \<Rightarrow> win_serializable" where
  "win_handle_of_i64 v = WinValue (word_of_int v)"

text \<open>The three messages of \<open>ClientMessage\<close> that have a handle; the methods panic on the others.\<close>

definition on_handle ::
  "('h \<Rightarrow> ('e, 'a) res \<times> 'h) \<Rightarrow> 'h client_message \<Rightarrow> ('e, 'a) res \<times> 'h client_message" where
  "on_handle f m = (case m of
     StreamCreated d \<Rightarrow> (case f (shm_handle d) of
       (r, s) \<Rightarrow> (r, StreamCreated (StreamCreateMk (token d) s (shm_area_size d))))
   | StreamInitialized d \<Rightarrow> (case f d of (r, s) \<Rightarrow> (r, StreamInitialized s))
   | ContextSetupDeviceCollectionCallbackDone d \<Rightarrow>
       (case f (platform_handle d) of (r, s) \<Rightarrow> (r, ContextSetupDeviceCollectionCallbackDone (RegisterMk s)))
   | _ \<Rightarrow> (Panic, m))"

definition win_cm_take_handle ::
  "win_serializable client_message \<Rightarrow> (io_error, remote_handle) res \<times> win_serializable client_message" where
  "win_cm_take_handle = on_handle win_take_handle_for_send"

definition win_cm_set_remote_handle ::
  "win_serializable client_message \<Rightarrow> win_handle \<Rightarrow> (io_error, unit) res \<times> win_serializable client_message" where
  "win_cm_set_remote_handle m h = on_handle (\<lambda>_. (Ok (), WinValue h)) m"

definition win_cm_set_local_handle ::
  "win_serializable client_message \<Rightarrow> (io_error, unit) res \<times> win_serializable client_message" where
  "win_cm_set_local_handle = on_handle win_make_owned"

section \<open>What the program relies on\<close>

text \<open>
  The view of a system: the open handles of every process that are not of processes, with the objects they
  stand for; the process handles of this process; the processes that can be opened.
\<close>

record 'w win_view =
  wv_tab :: "'w \<Rightarrow> u32 \<times> win_handle \<Rightarrow> nat option"
  wv_proc :: "'w \<Rightarrow> win_handle \<Rightarrow> u32 option"
  wv_alive :: "'w \<Rightarrow> u32 \<Rightarrow> bool"

definition opens_processes :: "'w win_view \<Rightarrow> 'w win_os \<Rightarrow> bool" where
  "opens_processes V os \<longleftrightarrow> (\<forall>w pid h w'. OpenProcess os pid w = (h, w') \<longrightarrow>
     wv_tab V w' = wv_tab V w \<and> wv_alive V w' = wv_alive V w \<and>
     (wv_alive V w pid \<longrightarrow> win_valid_handle h) \<and> (win_valid_handle h \<longrightarrow> wv_proc V w' h = Some pid))"

definition duplicates_handles :: "'w win_view \<Rightarrow> 'w win_os \<Rightarrow> bool" where
  "duplicates_handles V os \<longleftrightarrow> (\<forall>w sp s tp spid tpid ok v w'.
     DuplicateHandle os sp s tp DUPLICATE_SAME_ACCESS w = (ok, v, w') \<longrightarrow>
     wv_proc V w sp = Some spid \<longrightarrow> wv_proc V w tp = Some tpid \<longrightarrow>
     wv_alive V w' = wv_alive V w \<and> wv_proc V w' tp = Some tpid \<and>
     (if ok then win_valid_handle v \<and> wv_tab V w (tpid, v) = None \<and> wv_tab V w (spid, s) \<noteq> None \<and>
        wv_tab V w' = (wv_tab V w)((tpid, v) := wv_tab V w (spid, s))
      else wv_tab V w' = wv_tab V w))"

definition closes_sources :: "'w win_view \<Rightarrow> 'w win_os \<Rightarrow> bool" where
  "closes_sources V os \<longleftrightarrow> (\<forall>w sp s pid ok v w'.
     DuplicateHandle os sp s 0 DUPLICATE_CLOSE_SOURCE w = (ok, v, w') \<longrightarrow> wv_proc V w sp = Some pid \<longrightarrow>
     wv_alive V w' = wv_alive V w \<and> wv_proc V w' sp = Some pid \<and>
     wv_tab V w' = (wv_tab V w)((pid, s) := None))"

definition closes_handles :: "u32 \<Rightarrow> 'w win_view \<Rightarrow> 'w win_os \<Rightarrow> bool" where
  "closes_handles self V os \<longleftrightarrow> (\<forall>w h ok w'. CloseHandle os h w = (ok, w') \<longrightarrow>
     wv_alive V w' = wv_alive V w \<and>
     wv_tab V w' = (if wv_proc V w h \<noteq> None then wv_tab V w else (wv_tab V w)((self, h) := None)))"

definition win_contract :: "u32 \<Rightarrow> 'w win_view \<Rightarrow> 'w win_os \<Rightarrow> bool" where
  "win_contract self V os \<longleftrightarrow>
     (\<forall>w. wv_proc V w (GetCurrentProcess os) = Some self) \<and>
     (\<forall>w h. wv_tab V w (self, h) \<noteq> None \<longrightarrow> wv_proc V w h = None) \<and>
     opens_processes V os \<and> duplicates_handles V os \<and> closes_sources V os \<and> closes_handles self V os"

lemma proc_no_table:
  "win_contract self V os \<Longrightarrow> wv_tab V w (self, h) \<noteq> None \<Longrightarrow> wv_proc V w h = None"
  unfolding win_contract_def by blast

lemma current_process: "win_contract self V os \<Longrightarrow> wv_proc V w (GetCurrentProcess os) = Some self"
  unfolding win_contract_def by blast

lemma open_process_law:
  "win_contract self V os \<Longrightarrow> OpenProcess os pid w = (h, w') \<Longrightarrow>
   wv_tab V w' = wv_tab V w \<and> wv_alive V w' = wv_alive V w \<and>
   (wv_alive V w pid \<longrightarrow> win_valid_handle h) \<and> (win_valid_handle h \<longrightarrow> wv_proc V w' h = Some pid)"
  by (simp add: win_contract_def opens_processes_def)

lemma duplicate_law:
  assumes "win_contract self V os"
    and "DuplicateHandle os (GetCurrentProcess os) s tp DUPLICATE_SAME_ACCESS w = (ok, v, w')"
    and "wv_proc V w tp = Some tpid"
  shows "wv_alive V w' = wv_alive V w \<and> wv_proc V w' tp = Some tpid \<and>
   (if ok then win_valid_handle v \<and> wv_tab V w (tpid, v) = None \<and> wv_tab V w (self, s) \<noteq> None \<and>
      wv_tab V w' = (wv_tab V w)((tpid, v) := wv_tab V w (self, s))
    else wv_tab V w' = wv_tab V w)"
proof -
  have "duplicates_handles V os" using assms(1) by (simp add: win_contract_def)
  from this [unfolded duplicates_handles_def, rule_format, OF assms(2) current_process [OF assms(1)] assms(3)]
  show ?thesis .
qed

lemma close_source_law:
  "win_contract self V os \<Longrightarrow> DuplicateHandle os sp s 0 DUPLICATE_CLOSE_SOURCE w = (ok, v, w') \<Longrightarrow>
   wv_proc V w sp = Some pid \<Longrightarrow>
   wv_alive V w' = wv_alive V w \<and> wv_proc V w' sp = Some pid \<and> wv_tab V w' = (wv_tab V w)((pid, s) := None)"
  by (simp add: win_contract_def closes_sources_def)

lemma close_law:
  "win_contract self V os \<Longrightarrow> CloseHandle os h w = (ok, w') \<Longrightarrow>
   wv_alive V w' = wv_alive V w \<and>
   wv_tab V w' = (if wv_proc V w h \<noteq> None then wv_tab V w else (wv_tab V w)((self, h) := None))"
  unfolding win_contract_def closes_handles_def by blast

section \<open>What the operations do to the tables\<close>

lemma open_target_tab:
  assumes "win_contract self V os" and "open_target os pid w = (r, w')"
  shows "wv_tab V w' = wv_tab V w" and "wv_alive V w' = wv_alive V w"
    and "r = Ok t \<Longrightarrow> wv_proc V w' t = Some pid" and "wv_alive V w pid \<Longrightarrow> \<exists>t. r = Ok t" and "r \<noteq> Panic"
  using assms(2) open_process_law [OF assms(1), of pid w]
  by (auto simp: open_target_def split: prod.splits if_splits)

lemma close_process_tab:
  "win_contract self V os \<Longrightarrow> wv_proc V w h = Some pid \<Longrightarrow>
   wv_tab V (snd (CloseHandle os h w)) = wv_tab V w \<and> wv_alive V (snd (CloseHandle os h w)) = wv_alive V w"
  using close_law [of self V os h w] by (cases "CloseHandle os h w") simp

lemma close_platform_handle_tab:
  assumes "win_contract self V os"
  shows "wv_tab V (win_close_platform_handle os h w) = (wv_tab V w)((self, h) := None)"
    and "wv_alive V (win_close_platform_handle os h w) = wv_alive V w"
proof -
  obtain ok w' where c: "CloseHandle os h w = (ok, w')" by fastforce
  note l = close_law [OF assms c]
  have "wv_tab V w (self, h) = None" if "wv_proc V w h \<noteq> None"
    using that proc_no_table [OF assms, of w h] by fastforce
  then show "wv_tab V (win_close_platform_handle os h w) = (wv_tab V w)((self, h) := None)"
    using l c by (auto simp: win_close_platform_handle_def fun_upd_idem)
  show "wv_alive V (win_close_platform_handle os h w) = wv_alive V w"
    using l c by (simp add: win_close_platform_handle_def)
qed

lemma duplicate_to_target:
  assumes c: "win_contract self V os" and d: "duplicate_platform_handle os h (Some pid) w = (r, w')"
  shows "wv_alive V w' = wv_alive V w \<and> (case r of
     Ok v \<Rightarrow> win_valid_handle v \<and> wv_tab V w (pid, v) = None \<and> wv_tab V w (self, h) \<noteq> None \<and>
       wv_tab V w' = (wv_tab V w)((pid, v) := wv_tab V w (self, h))
   | Err _ \<Rightarrow> wv_tab V w' = wv_tab V w
   | Panic \<Rightarrow> False)"
proof -
  obtain ro w1 where o: "open_target os pid w = (ro, w1)" by fastforce
  note ot = open_target_tab [OF c o]
  show ?thesis
  proof (cases ro)
    case (Ok t)
    obtain ok v w2 where du: "DuplicateHandle os (GetCurrentProcess os) h t DUPLICATE_SAME_ACCESS w1 = (ok, v, w2)"
      by (metis prod.exhaust)
    from Ok ot(3) have "wv_proc V w1 t = Some pid" by blast
    note dl = duplicate_law [OF c du this]
    then have "wv_proc V w2 t = Some pid" by blast
    note cl = close_process_tab [OF c this]
    from d o Ok du have "r = (if ok then Ok v else Err (io_other ''DuplicateHandle failed''))"
      and "w' = snd (CloseHandle os t w2)"
      by (auto simp: duplicate_platform_handle_def and_then_def Let_def split: if_splits)
    with dl cl ot(1,2) show ?thesis by (auto split: if_splits)
  next
    case (Err e)
    with d o ot show ?thesis by (auto simp: duplicate_platform_handle_def and_then_def)
  next
    case Panic
    with ot(5) show ?thesis by blast
  qed
qed

lemma close_target_tab:
  assumes c: "win_contract self V os" and "wv_alive V w pid"
  shows "wv_tab V (snd (close_target_handle os v pid w)) = (wv_tab V w)((pid, v) := None)"
    and "wv_alive V (snd (close_target_handle os v pid w)) = wv_alive V w"
proof -
  obtain ro w1 where o: "open_target os pid w = (ro, w1)" by fastforce
  note ot = open_target_tab [OF c o]
  from ot(4) assms(2) obtain t where t: "ro = Ok t" by blast
  obtain ok x w2 where du: "DuplicateHandle os t v 0 DUPLICATE_CLOSE_SOURCE w1 = (ok, x, w2)"
    by (metis prod.exhaust)
  from t ot(3) have "wv_proc V w1 t = Some pid" by blast
  note dl = close_source_law [OF c du this]
  then have "wv_proc V w2 t = Some pid" by blast
  note cl = close_process_tab [OF c this]
  have "snd (close_target_handle os v pid w) = snd (CloseHandle os t w2)"
    by (simp add: close_target_handle_def and_then_def o t du Let_def)
  with dl cl ot(1,2) show "wv_tab V (snd (close_target_handle os v pid w)) = (wv_tab V w)((pid, v) := None)"
    and "wv_alive V (snd (close_target_handle os v pid w)) = wv_alive V w" by simp_all
qed

text \<open>What a dropped handle takes away from the tables: its own value and, when it is not sent, the target's.\<close>

definition released :: "u32 \<Rightarrow> remote_handle \<Rightarrow> (u32 \<times> win_handle \<Rightarrow> nat option) \<Rightarrow> u32 \<times> win_handle \<Rightarrow> nat option" where
  "released self r t = (case rh_target_handle r of
     Some v \<Rightarrow> t((self, rh_handle r) := None, (rh_target r, v) := None)
   | None \<Rightarrow> t((self, rh_handle r) := None))"

lemma remote_handle_drop_tab:
  assumes "win_contract self V os" and "rh_target_handle r \<noteq> None \<Longrightarrow> wv_alive V w (rh_target r)"
  shows "wv_tab V (remote_handle_drop os r w) = released self r (wv_tab V w)"
    and "wv_alive V (remote_handle_drop os r w) = wv_alive V w"
  using assms close_platform_handle_tab [OF assms(1)]
  by (auto simp: remote_handle_drop_def Let_def released_def close_target_tab split: option.split)

lemma send_to_target_tab:
  assumes "win_contract self V os" and "send_to_target os r w = (q, r', w')"
  shows "wv_alive V w' = wv_alive V w \<and> (case q of
     Ok v \<Rightarrow> r' = r\<lparr>rh_target_handle := Some v\<rparr> \<and> win_valid_handle v \<and> wv_tab V w (rh_target r, v) = None \<and>
       wv_tab V w (self, rh_handle r) \<noteq> None \<and>
       wv_tab V w' = (wv_tab V w)((rh_target r, v) := wv_tab V w (self, rh_handle r))
   | Err _ \<Rightarrow> r' = r \<and> wv_tab V w' = wv_tab V w
   | Panic \<Rightarrow> False)"
  using assms(2) duplicate_to_target [OF assms(1), of "rh_handle r" "rh_target r" w]
  by (auto simp: send_to_target_def split: prod.splits res.splits)

end
