(* ===== verification/TestServer.thy ===== *)
theory TestServer
  imports TestClient ServerLib WinHandles
begin

text \<open>
  The test program around the client test (\<open>ipctest/src/lib.rs\<close>, \<open>ipctest/src/main.rs\<close>): a server for the length of
  the test, the descriptor handed to the child process, and what the program reports.

  The system calls are parameters over a world \<open>'w\<close>; a process's part of the program is seen from that process, so
  \<open>fork\<close> only tells which of the two it is.
\<close>

section \<open>TestServer\<close>

text \<open>\<open>log\<close>: what enabling cubeb's log gives, when the environment asks for it.\<close>

definition test_server_new ::
  "('s, 'w) lib_env \<Rightarrow> (cubeb_error, unit) res option \<Rightarrow> context_params \<times> 'w \<Rightarrow>
   (unit, 'w server_wrapper) res \<times> context_params \<times> 'w" where
  "test_server_new L log pw =
     (case log of
        Some (Err _) \<Rightarrow> (Panic, pw)
      | Some Panic \<Rightarrow> (Panic, pw)
      | _ \<Rightarrow> (case server_start L None None (Some \<lparr>thread_create_callback = None, thread_destroy_callback = None\<rparr>) pw of
          (Ok (Some handle), pw) \<Rightarrow> (Ok handle, pw) | (_, pw) \<Rightarrow> (Panic, pw)))"

definition test_server_new_client ::
  "('s, 'w) lib_env \<Rightarrow> 'w server_env \<Rightarrow> ('s, server_stream) slab \<Rightarrow> 'w server_wrapper \<Rightarrow> u32 \<Rightarrow> 'w \<Rightarrow>
   (unit ipc_error, handle) res \<times> 'w" where
  "test_server_new_client L E S server pid w = (case server_new_client L E S server pid 0 w of
     (Ok fd, w) \<Rightarrow> (if fd \<noteq> INVALID_HANDLE_VALUE then Ok fd else Panic, w)
   | (_, w) \<Rightarrow> (Panic, w))"

definition test_server_drop :: "('s, 'w) lib_env \<Rightarrow> 'w server_wrapper \<Rightarrow> 'w \<Rightarrow> 'w" where
  "test_server_drop = server_stop"

section \<open>The descriptor\<close>

record 'w process_ops =
  pr_socketpair :: "'w \<Rightarrow> c_int \<times> (handle \<times> handle) \<times> 'w"
  pr_fork :: "'w \<Rightarrow> c_int \<times> 'w"
  pr_close :: "handle \<Rightarrow> 'w \<Rightarrow> 'w"
  pr_sendmsg :: "handle \<Rightarrow> msghdr \<Rightarrow> 'w \<Rightarrow> nat sys_result \<times> 'w"
  pr_recvmsg :: "handle \<Rightarrow> msghdr \<Rightarrow> 'w \<Rightarrow> (byte list \<times> byte list) sys_result \<times> 'w"
  pr_waitpid :: "c_int \<Rightarrow> 'w \<Rightarrow> c_int \<times> 'w"
  pr_read_line :: "'w \<Rightarrow> 'w"
  WIFSIGNALED :: "c_int \<Rightarrow> bool"
  WTERMSIG :: "c_int \<Rightarrow> c_int"
  WCOREDUMP :: "c_int \<Rightarrow> bool"

text \<open>A message of one byte with room for one descriptor; \<open>CMSG_FIRSTHDR\<close> is null when there is no room for a header.\<close>

definition fd_msghdr :: "byte list \<Rightarrow> msghdr" where
  "fd_msghdr control = \<lparr>msg_iov = [[0]], msg_iovlen = 1, msg_control = Some control, msg_controllen = length control\<rparr>"

definition send_fd_control :: "cmsg_abi \<Rightarrow> handle \<Rightarrow> byte list" where
  "send_fd_control C fd =
     overwrite (overwrite (replicate (CMSG_SPACE C 4) 0) 0 (cmsghdr_bytes C (CMSG_LEN C 4) (SOL_SOCKET C) (SCM_RIGHTS C)))
       (cmsg_data_offset C) (fd_bytes C fd)"

definition send_fd :: "cmsg_abi \<Rightarrow> 'w process_ops \<Rightarrow> handle \<Rightarrow> handle \<Rightarrow> 'w \<Rightarrow> (unit ipc_error, unit) res \<times> 'w" where
  "send_fd C P socket fd w = (case pr_sendmsg P socket (fd_msghdr (send_fd_control C fd)) w of
     (SysRet _, w) \<Rightarrow> (Ok (), w) | (SysErr _, w) \<Rightarrow> (Panic, w))"

text \<open>The kernel writes the control data that it received over the front of the buffer.\<close>

definition recv_fd :: "cmsg_abi \<Rightarrow> 'w process_ops \<Rightarrow> handle \<Rightarrow> 'w \<Rightarrow> (unit ipc_error, handle) res \<times> 'w" where
  "recv_fd C P socket w =
     (let cmsg_buf = replicate (CMSG_SPACE C 4) 0 in
      case pr_recvmsg P socket (fd_msghdr cmsg_buf) w of
        (SysErr _, w) \<Rightarrow> (Panic, w)
      | (SysRet (_, control), w) \<Rightarrow>
          if length control < CMSG_LEN C 0 then (Panic, w)
          else (Ok (fd_read C (take 4 (drop (cmsg_data_offset C) (overwrite cmsg_buf 0 control)))), w))"

section \<open>The program on Unix\<close>

text \<open>How a process ends: it calls \<open>exit\<close>, or the function returns (or panics).\<close>

datatype process_end = Exited c_int | Returned "(unit ipc_error, unit) res"

definition exit_of :: "(unit ipc_error, unit) res \<Rightarrow> process_end" where
  "exit_of r = (case r of Ok _ \<Rightarrow> Exited 0 | Err _ \<Rightarrow> Exited 1 | Panic \<Rightarrow> Returned Panic)"

text \<open>The child: \<open>test\<close> is \<open>client_test\<close> (\<open>TestClient\<close>) in the child's world.\<close>

definition run_child ::
  "cmsg_abi \<Rightarrow> 'w process_ops \<Rightarrow> (handle \<Rightarrow> 'w \<Rightarrow> ((unit ipc_error, unit) res \<times> 'w) option) \<Rightarrow> bool \<Rightarrow>
   handle \<times> handle \<Rightarrow> 'w \<Rightarrow> (process_end \<times> 'w) option" where
  "run_child C P test wait_for_debugger sock_fds w =
     (case recv_fd C P (fst sock_fds) (pr_close P (snd sock_fds) w) of
        (Ok fd, w) \<Rightarrow>
          let w = pr_close P (fst sock_fds) w;
              w = (if wait_for_debugger then pr_read_line P w else w)
          in map_option (\<lambda>(r, w). (exit_of r, w)) (test fd w)
      | (Err e, w) \<Rightarrow> Some (Returned (Err e), w)
      | (Panic, w) \<Rightarrow> Some (Returned Panic, w))"

definition text_of :: "nat \<Rightarrow> string" where
  "text_of n = map (\<lambda>b. char_of (unat b)) (decimal n)"

definition child_signalled :: "'w process_ops \<Rightarrow> c_int \<Rightarrow> c_int \<Rightarrow> (unit ipc_error, unit) res" where
  "child_signalled P n status = (if WIFSIGNALED P status then
       let msg = ''Child process '' @ text_of (nat n) @ '' exited with sig '' @ text_of (nat (WTERMSIG P status)) in
       Err (ErrOther (if WCOREDUMP P status then msg @ ''. Core dumped.'' else msg @ ''.''))
     else Ok ())"

text \<open>The parent, until the child has ended.\<close>

definition run_parent ::
  "('s, 'w) lib_env \<Rightarrow> 'w server_env \<Rightarrow> ('s, server_stream) slab \<Rightarrow> cmsg_abi \<Rightarrow> 'w process_ops \<Rightarrow> 'w server_wrapper \<Rightarrow>
   c_int \<Rightarrow> handle \<times> handle \<Rightarrow> 'w \<Rightarrow> (unit ipc_error, unit) res \<times> 'w" where
  "run_parent L E S C P server n sock_fds w =
     and_then (test_server_new_client L E S server (word_of_int n) (pr_close P (fst sock_fds) w)) (\<lambda>fd w.
     and_then (send_fd C P (snd sock_fds) fd w) (\<lambda>_ w.
     (case pr_waitpid P n (pr_close P (snd sock_fds) (pr_close P fd w)) of
        (status, w) \<Rightarrow> (child_signalled P n status, w))))"

text \<open>The server is dropped when \<open>run\<close> returns; in the child \<open>exit\<close> keeps it from that.\<close>

definition drop_server ::
  "('s, 'w) lib_env \<Rightarrow> 'w server_wrapper \<Rightarrow> (unit ipc_error, unit) res \<times> 'w \<Rightarrow> process_end \<times> 'w" where
  "drop_server L server m = (case m of (r, w) \<Rightarrow>
     if r = Panic then (Returned Panic, w) else (Returned r, test_server_drop L server w))"

definition run ::
  "('s, 'w) lib_env \<Rightarrow> 'w server_env \<Rightarrow> ('s, server_stream) slab \<Rightarrow> cmsg_abi \<Rightarrow> 'w process_ops \<Rightarrow>
   (handle \<Rightarrow> 'w \<Rightarrow> ((unit ipc_error, unit) res \<times> 'w) option) \<Rightarrow> (cubeb_error, unit) res option \<Rightarrow> bool \<Rightarrow>
   context_params \<times> 'w \<Rightarrow> (process_end \<times> 'w) option" where
  "run L E S C P test log wait_for_debugger pw = (case test_server_new L log pw of
     (Ok server, _, w) \<Rightarrow>
       (case pr_socketpair P w of (code, sock_fds, w) \<Rightarrow>
          if code \<noteq> 0 then Some (Returned Panic, w)
          else (case pr_fork P w of (pid, w) \<Rightarrow>
            if pid = -1 then Some (drop_server L server (Err (ErrOther ''fork() failed''), w))
            else if pid = 0 then run_child C P test wait_for_debugger sock_fds w
            else Some (drop_server L server (run_parent L E S C P server pid sock_fds w))))
   | (_, _, w) \<Rightarrow> Some (Returned Panic, w))"

text \<open>\<open>main\<close>: an error of the server's side is the exit code 1; a client is only started on Windows.\<close>

definition is_client :: "string list \<Rightarrow> bool" where
  "is_client args \<longleftrightarrow> ''--client'' \<in> set args"

definition waits_for_debugger :: "string list \<Rightarrow> bool" where
  "waits_for_debugger args \<longleftrightarrow> ''--wait-for-debugger'' \<in> set args"

definition main_end :: "process_end \<Rightarrow> process_end" where
  "main_end e = (case e of Exited n \<Rightarrow> Exited n | Returned r \<Rightarrow> exit_of r)"

definition main_unix ::
  "('s, 'w) lib_env \<Rightarrow> 'w server_env \<Rightarrow> ('s, server_stream) slab \<Rightarrow> cmsg_abi \<Rightarrow> 'w process_ops \<Rightarrow>
   (handle \<Rightarrow> 'w \<Rightarrow> ((unit ipc_error, unit) res \<times> 'w) option) \<Rightarrow> (cubeb_error, unit) res option \<Rightarrow> string list \<Rightarrow>
   context_params \<times> 'w \<Rightarrow> (process_end \<times> 'w) option" where
  "main_unix L E S C P test log args pw =
     (if is_client args
      then Some (Returned Panic, if waits_for_debugger args then pr_read_line P (snd pw) else snd pw)
      else map_option (\<lambda>(e, w). (main_end e, w)) (run L E S C P test log (waits_for_debugger args) pw))"

section \<open>The program on Windows\<close>

text \<open>
  The handle goes to the child through its standard input, as a decimal number on a line.  \<open>trim\<close> strips ASCII
  white space (the rest of Unicode's is not modelled); \<open>parse_usize\<close> is \<open>str::parse\<close>.
\<close>

definition white :: "byte \<Rightarrow> bool" where
  "white b \<longleftrightarrow> b = 32 \<or> 9 \<le> b \<and> b \<le> 13"

definition trim :: "byte list \<Rightarrow> byte list" where
  "trim bs = rev (dropWhile white (rev (dropWhile white bs)))"

fun parse_digits :: "nat \<Rightarrow> byte list \<Rightarrow> nat option" where
  "parse_digits acc [] = Some acc"
| "parse_digits acc (b # bs) = (if 48 \<le> b \<and> b \<le> 57
     then (let n = 10 * acc + (unat b - 48) in if n < 2 ^ 64 then parse_digits n bs else None) else None)"

definition parse_usize :: "byte list \<Rightarrow> usize option" where
  "parse_usize bs = (let digits = (case bs of b # ds \<Rightarrow> if b = 43 then ds else bs | [] \<Rightarrow> []) in
     if digits = [] then None else map_option of_nat (parse_digits 0 digits))"

record 'w win_process_ops =
  wp_os :: "'w win_os"
  wp_spawn :: "string list \<Rightarrow> 'w \<Rightarrow> u32 option \<times> 'w"
  wp_write_stdin :: "byte list \<Rightarrow> 'w \<Rightarrow> bool \<times> 'w"
  wp_wait :: "'w \<Rightarrow> c_int option \<times> 'w"
  wp_read_stdin :: "'w \<Rightarrow> byte list option \<times> 'w"

text \<open>The duplication into the child; the process handle is closed before the result is asserted.\<close>

definition duplicate_into_child :: "'w win_os \<Rightarrow> u32 \<Rightarrow> win_handle \<Rightarrow> 'w \<Rightarrow> (unit ipc_error, win_handle) res \<times> 'w" where
  "duplicate_into_child os child_pid fd w = (case OpenProcess os child_pid w of (child_process, w) \<Rightarrow>
     if child_process = 0 then (Panic, w)
     else (case DuplicateHandle os (GetCurrentProcess os) fd child_process DUPLICATE_SAME_ACCESS w of
       (ok, target_handle, w) \<Rightarrow>
         (if ok then Ok target_handle else Panic, snd (CloseHandle os child_process w))))"

text \<open>The status of the child is dropped; only a wait that fails is looked at.\<close>

definition run_windows ::
  "('s, 'w) lib_env \<Rightarrow> 'w server_env \<Rightarrow> ('s, server_stream) slab \<Rightarrow> 'w win_process_ops \<Rightarrow>
   (cubeb_error, unit) res option \<Rightarrow> bool \<Rightarrow> context_params \<times> 'w \<Rightarrow> process_end \<times> 'w" where
  "run_windows L E S P log wait_for_debugger pw = (case test_server_new L log pw of
     (Ok server, _, w) \<Rightarrow>
       (case wp_spawn P (''--client'' # (if wait_for_debugger then [''--wait-for-debugger''] else [])) w of
          (None, w) \<Rightarrow> (Returned Panic, w)
        | (Some child_pid, w) \<Rightarrow> drop_server L server
            (and_then (test_server_new_client L E S server child_pid w) (\<lambda>fd w.
             and_then (duplicate_into_child (wp_os P) child_pid (word_of_int fd) w) (\<lambda>client_handle w.
             (case wp_write_stdin P (decimal (unat client_handle) @ [10]) w of
                (False, w) \<Rightarrow> (Panic, w)
              | (True, w) \<Rightarrow> (case wp_wait P w of (None, w) \<Rightarrow> (Panic, w) | (Some _, w) \<Rightarrow> (Ok (), w)))))))
   | (_, _, w) \<Rightarrow> (Returned Panic, w))"

definition run_client ::
  "'w win_process_ops \<Rightarrow> (win_handle \<Rightarrow> 'w \<Rightarrow> ((unit ipc_error, unit) res \<times> 'w) option) \<Rightarrow> 'w \<Rightarrow>
   ((unit ipc_error, unit) res \<times> 'w) option" where
  "run_client P test w = (case wp_read_stdin P w of
     (None, w) \<Rightarrow> Some (Panic, w)
   | (Some line, w) \<Rightarrow> (case parse_usize (trim line) of None \<Rightarrow> Some (Panic, w) | Some h \<Rightarrow> test h w))"

text \<open>Waiting for a debugger reads a line of the standard input too.\<close>

definition main_windows ::
  "('s, 'w) lib_env \<Rightarrow> 'w server_env \<Rightarrow> ('s, server_stream) slab \<Rightarrow> 'w win_process_ops \<Rightarrow>
   (win_handle \<Rightarrow> 'w \<Rightarrow> ((unit ipc_error, unit) res \<times> 'w) option) \<Rightarrow> (cubeb_error, unit) res option \<Rightarrow> string list \<Rightarrow>
   context_params \<times> 'w \<Rightarrow> (process_end \<times> 'w) option" where
  "main_windows L E S P test log args pw =
     (if is_client args
      then map_option (\<lambda>(r, w). (exit_of r, w))
        (run_client P test (if waits_for_debugger args then snd (wp_read_stdin P (snd pw)) else snd pw))
      else Some (case run_windows L E S P log (waits_for_debugger args) pw of (e, w) \<Rightarrow> (main_end e, w)))"

section \<open>The descriptor reaches the child\<close>

text \<open>The control data of \<open>send_fd\<close> is what the library encodes for one handle.\<close>

lemma send_fd_control_encodes:
  assumes C: "cmsg_abi_contract C"
  shows "encode_handles C (replicate (CMSG_SPACE C 4) 0) [] [fd] = Ok (send_fd_control C fd)"
  by (simp add: encode_handles_def send_fd_control_def HANDLE_QUEUE_LIMIT_def Let_def fd_length [OF C])

lemma send_fd_control_decodes:
  assumes C: "cmsg_abi_contract C" and fd: "c_int_range fd"
  shows "decode_handles C (send_fd_control C fd @ rest) = Ok [fd]"
proof -
  have ok: "fds_ok [fd]" using fd by (simp add: fds_ok_def HANDLE_QUEUE_LIMIT_def)
  have room: "CMSG_SPACE C (4 * length [fd]) \<le> length (replicate (CMSG_SPACE C 4) (0 :: byte))" by simp
  obtain enc where "\<And>c. encode_handles C (replicate (CMSG_SPACE C 4) 0) c [fd] = Ok (c @ enc)"
    "\<And>rest. decode_handles C (enc @ rest) = Ok [fd]"
    by (rule encode_decode_handles [OF C ok room]) blast
  with send_fd_control_encodes [OF C, of fd] show ?thesis by (metis append_Nil res.inject(1))
qed

text \<open>What \<open>recv_fd\<close> reads is the descriptor that the library would decode.\<close>

lemma fds_of_bytes_one: "fds_of_bytes C n bs = [h] \<Longrightarrow> n = 1 \<and> h = fd_read C (take 4 bs)"
  by (cases n; cases "n - 1") auto

lemma recv_fd_decodes:
  assumes C: "cmsg_abi_contract C" and d: "decode_handles C control = Ok [h]"
    and r: "pr_recvmsg P s (fd_msghdr (replicate (CMSG_SPACE C 4) 0)) w = (SysRet (bs, control), w')"
  shows "recv_fd C P s w = (Ok h, w')"
proof -
  let ?off = "CMSG_LEN C 0"
  obtain n l t where hdr: "cmsghdr_read C control = (n, l, t)" using prod_cases3 by blast
  let ?slice = "take (n - ?off) (drop ?off control)"
  have len: "\<not> length control < ?off" "?off \<le> n" "n \<le> length control"
    and fds: "fds_of_bytes C (length ?slice div 4) ?slice = [h]"
    using d by (auto simp: decode_handles_def hdr Let_def split: if_splits)
  have h: "length ?slice div 4 = 1" "h = fd_read C (take 4 ?slice)"
    using fds_of_bytes_one [OF fds] by simp_all
  then have four: "4 \<le> n - ?off" using len by simp
  then have "take 4 ?slice = take 4 (drop ?off control)" by (simp add: min_absorb1)
  moreover have "take 4 (drop ?off (overwrite (replicate (CMSG_SPACE C 4) 0) 0 control)) = take 4 (drop ?off control)"
    using len four by (simp add: overwrite_def)
  ultimately show ?thesis
    using len(1) r h(2) cmsg_header(2) [OF C] by (simp add: recv_fd_def Let_def)
qed

text \<open>
  The descriptor of the new client reaches the child: \<open>send_fd\<close> sends control data that carries it, the
  same that the library encodes, and when the kernel has delivered a descriptor \<open>recv_fd\<close> returns it.
\<close>

theorem passed_descriptor:
  assumes "cmsg_abi_contract C" and "c_int_range fd"
    and "pr_sendmsg P s (fd_msghdr (send_fd_control C fd)) w = (SysRet n, w1)"
    and "pr_recvmsg P' s' (fd_msghdr (replicate (CMSG_SPACE C 4) 0)) w2 = (SysRet (bs, control), w3)"
    and "decode_handles C control = Ok [fd']"
  shows "send_fd C P s fd w = (Ok (), w1) \<and> decode_handles C (send_fd_control C fd) = Ok [fd] \<and>
    encode_handles C (replicate (CMSG_SPACE C 4) 0) [] [fd] = Ok (send_fd_control C fd) \<and>
    recv_fd C P' s' w2 = (Ok fd', w3)"
  using send_fd_control_encodes [OF assms(1)] send_fd_control_decodes [OF assms(1,2), of "[]"]
    recv_fd_decodes [OF assms(1,5,4)] assms(3)
  by (simp add: send_fd_def)

section \<open>The handle through the standard input\<close>

lemma parse_decimal: "n < 2 ^ 64 \<Longrightarrow> parse_digits 0 (decimal n @ bs) = parse_digits n bs"
proof (induction n arbitrary: bs rule: decimal.induct)
  case (1 n)
  have d: "unat (of_nat (48 + k) :: byte) - 48 = k \<and> (48 :: byte) \<le> of_nat (48 + k) \<and> (of_nat (48 + k) :: byte) \<le> 57"
    if "k < 10" for k
  proof -
    have "unat (of_nat (48 + k) :: byte) = 48 + k" using that by (simp add: unsigned_of_nat take_bit_nat_eq_self del: of_nat_add)
    then show ?thesis using that by (simp add: word_le_nat_alt)
  qed
  show ?case
  proof (cases "n < 10")
    case True
    with d [of n] 1(2) show ?thesis by (simp add: decimal.simps [of n] Let_def)
  next
    case False
    have "n div 10 < 2 ^ 64" using 1(2) by simp
    with 1 False d [of "n mod 10"] show ?thesis by (simp add: decimal.simps [of n] Let_def)
  qed
qed

lemma decimal_not_white: "\<forall>b \<in> set (decimal n). \<not> white b \<and> b \<noteq> 43"
  using decimal_digits [of n] by (auto simp: white_def word_le_nat_alt)

lemma decimal_nonempty: "decimal n \<noteq> []"
  by (subst decimal.simps) simp

lemma trim_line: "trim (decimal n @ [10]) = decimal n"
proof -
  have front: "dropWhile white (xs @ bs) = xs @ bs" if "xs \<noteq> []" "\<forall>b \<in> set xs. \<not> white b" for xs bs
    using that by (cases xs) simp_all
  have "dropWhile white (decimal n @ bs) = decimal n @ bs" "dropWhile white (rev (decimal n)) = rev (decimal n)" for bs
    using front [of "decimal n"] front [of "rev (decimal n)" "[]"] decimal_not_white [of n] decimal_nonempty [of n] by simp_all
  then show ?thesis by (simp add: trim_def white_def)
qed

lemma parse_line: "parse_usize (trim (decimal (unat h) @ [10])) = Some (h :: usize)"
proof -
  have "parse_digits 0 (decimal (unat h)) = Some (unat h)"
    using parse_decimal [of "unat h" "[]"] unat_lt_2p [of h] by simp
  then show ?thesis
    using decimal_nonempty [of "unat h"] decimal_not_white [of "unat h"] unfolding trim_line
    by (cases "decimal (unat h)") (simp_all add: parse_usize_def Let_def)
qed

text \<open>The lines on the standard input of a process; after them it is at its end.\<close>

fun stdin_lines :: "'w win_process_ops \<Rightarrow> byte list list \<Rightarrow> 'w \<Rightarrow> bool" where
  "stdin_lines P [] w = (\<exists>w'. wp_read_stdin P w = (Some [], w'))"
| "stdin_lines P (line # lines) w = (\<exists>w'. wp_read_stdin P w = (Some line, w') \<and> stdin_lines P lines w')"

text \<open>
  C31: a client process on Windows whose standard input holds the line that the server's process writes for a handle runs the
  test on that handle; but when it is told to wait for a debugger, the wait takes the line, and the client panics.
\<close>

theorem handle_through_stdin:
  assumes "is_client args" and "stdin_lines P [decimal (unat h) @ [10]] w"
  shows "\<exists>w1. main_windows L E S P test log args (p, w) =
    (if waits_for_debugger args then Some (Returned Panic, w1)
     else map_option (\<lambda>(r, w). (exit_of r, w)) (test h w1))"
proof -
  obtain w1 w2 where r: "wp_read_stdin P w = (Some (decimal (unat h) @ [10]), w1)" "wp_read_stdin P w1 = (Some [], w2)"
    using assms(2) by auto
  have "parse_usize (trim []) = None" by (simp add: trim_def parse_usize_def)
  then show ?thesis
    using assms(1) r by (cases "waits_for_debugger args")
      (auto simp: main_windows_def run_client_def parse_line exit_of_def)
qed

section \<open>The exit code\<close>

text \<open>
  The test program on Unix reports how the child was ended, not what it reported: the exit code is 1 when a signal
  ended the child and 0 otherwise, also when the client test failed and the child exited with 1.  The server is stopped.
\<close>

theorem test_exit_code:
  assumes "\<not> is_client args" and "test_server_new L log pw = (Ok server, p, w1)"
    and "pr_socketpair P w1 = (0, fds, w2)" and "pr_fork P w2 = (n, w3)" and "n \<noteq> -1" and "n \<noteq> 0"
    and "test_server_new_client L E S server (word_of_int n) (pr_close P (fst fds) w3) = (Ok fd, w4)"
    and "send_fd C P (snd fds) fd w4 = (Ok (), w5)"
    and "pr_waitpid P n (pr_close P (snd fds) (pr_close P fd w5)) = (status, w6)"
  shows "main_unix L E S C P test log args pw = Some (Exited (if WIFSIGNALED P status then 1 else 0), test_server_drop L server w6)"
  using assms
  by (simp add: main_unix_def run_def run_parent_def and_then_def child_signalled_def Let_def drop_server_def main_end_def exit_of_def)

text \<open>What the child reports of the test: its exit code.\<close>

lemma child_exit_code:
  assumes "recv_fd C P (fst fds) (pr_close P (snd fds) w) = (Ok fd, w1)" and "\<And>w. \<exists>w'. test fd w = Some (Err e, w')"
  shows "\<exists>w'. run_child C P test wait fds w = Some (Exited 1, w')"
proof -
  obtain w' where "test fd (if wait then pr_read_line P (pr_close P (fst fds) w1) else pr_close P (fst fds) w1) = Some (Err e, w')"
    using assms(2) by blast
  with assms(1) show ?thesis by (auto simp: run_child_def Let_def exit_of_def)
qed

section \<open>Examples\<close>

text \<open>A world of running threads, in which a child ends with the wait status \<open>status\<close>, and descriptors come from a socket.\<close>

definition demo_process :: "c_int \<Rightarrow> byte list \<Rightarrow> nat list process_ops" where
  "demo_process status control = \<lparr>
     pr_socketpair = (\<lambda>w. (0, (3, 4), w)), pr_fork = (\<lambda>w. (77, w)), pr_close = (\<lambda>_ w. w),
     pr_sendmsg = (\<lambda>_ _ w. (SysRet 1, w)), pr_recvmsg = (\<lambda>_ _ w. (SysRet ([0], control), w)),
     pr_waitpid = (\<lambda>_ w. (status, w)), pr_read_line = (\<lambda>w. w),
     WIFSIGNALED = (\<lambda>s. 0 < s mod 128 \<and> s mod 128 < 127), WTERMSIG = (\<lambda>s. s mod 128), WCOREDUMP = (\<lambda>s. 128 \<le> s mod 256)\<rparr>"

theorem passed_descriptor_witness:
  "send_fd linux_cmsg (demo_process 0 []) 4 20 [] = (Ok (), []) \<and>
   recv_fd linux_cmsg (demo_process 0 (send_fd_control linux_cmsg 31)) 3 [] = (Ok 31, [])"
proof -
  have ok: "c_int_range 20" "c_int_range 31" by (simp_all add: c_int_range_def)
  have d: "decode_handles linux_cmsg (send_fd_control linux_cmsg 31) = Ok [31]"
    using send_fd_control_decodes [OF linux_cmsg_contract ok(2), of "[]"] by simp
  from passed_descriptor [OF linux_cmsg_contract ok(1) _ _ d, of "demo_process 0 []" 4 "[]" 1 "[]"
      "demo_process 0 (send_fd_control linux_cmsg 31)" 3 "[]" "[0]" "[]"]
  show ?thesis by (simp add: demo_process_def)
qed

definition process_env :: "nat list server_env" where
  "process_env = \<lparr>
     env_os = quiet_os, env_pid = 42, env_socket_pair = (\<lambda>w. (Ok (7, 8), w)),
     env_bind_callback = (\<lambda>_ w. (Ok 1, w)), env_bind_collection = (\<lambda>_ w. (Ok 2, w)),
     env_drop_proxies = (\<lambda>_ w. w), env_new_rc = (\<lambda>w. (1, w)),
     env_collection_call = (\<lambda>_ _ w. (Ok CollRespDeviceChange, w)),
     env_thread_info_pid = (\<lambda>_. 9), env_promote = (\<lambda>_ w. (Ok (), w)) \<rparr>"

definition demo_names :: context_params where
  "demo_names = \<lparr>context_name = [97], backend_name = None\<rparr>"

lemma demo_test_server:
  "\<exists>server w. test_server_new (demo_lib 3) None (demo_names, []) = (Ok server, demo_names, w)"
  by (simp add: test_server_new_def server_start_def init_threads_def event_loop_thread_new_def demo_lib_def
      counted_threads_def Let_def)

lemma demo_new_client:
  "test_server_new_client (demo_lib 3) process_env list_slab server n w = (Ok 8, w)"
  by (simp add: test_server_new_client_def server_new_client_def make_pipe_pair_def process_env_def demo_lib_def
      platform_handle_new_def valid_handle_def INVALID_HANDLE_VALUE_def and_then_def)

text \<open>The status of a child that exited with 1 is 256.\<close>

theorem test_exit_code_witness:
  "\<exists>w. main_unix (demo_lib 3) process_env list_slab linux_cmsg (demo_process 256 []) (\<lambda>_ w. Some (Err (ErrOther []), w)) None
     [''ipctest''] (demo_names, []) = Some (Exited 0, w)"
proof -
  let ?P = "demo_process 256 []"
  obtain server w where new: "test_server_new (demo_lib 3) None (demo_names, []) = (Ok server, demo_names, w)"
    using demo_test_server by blast
  have P: "pr_socketpair ?P w = (0, (3, 4), w)" "pr_fork ?P w = (77, w)" "pr_close ?P fd w = w"
    "send_fd linux_cmsg ?P s fd w = (Ok (), w)" "pr_waitpid ?P n w = (256, w)" "\<not> WIFSIGNALED ?P 256" for fd s n
    by (simp_all add: demo_process_def send_fd_def)
  have args: "\<not> is_client [''ipctest'']" by (simp add: is_client_def)
  have "test_server_new_client (demo_lib 3) process_env list_slab server (word_of_int 77) (pr_close ?P (fst (3, 4)) w) = (Ok 8, w)"
    by (simp add: demo_new_client P)
  from test_exit_code [OF args new P(1,2) _ _ this P(4)] P show ?thesis by simp
qed

text \<open>A standard input that holds the lines of some handles.\<close>

definition demo_win_process :: "nat list win_process_ops" where
  "demo_win_process = \<lparr>
     wp_os = \<lparr>GetCurrentProcess = -1, OpenProcess = (\<lambda>_ w. (5, w)), DuplicateHandle = (\<lambda>_ h _ _ w. (True, h, w)),
       CloseHandle = (\<lambda>_ w. (True, w))\<rparr>,
     wp_spawn = (\<lambda>_ w. (Some 77, w)), wp_write_stdin = (\<lambda>_ w. (True, w)), wp_wait = (\<lambda>w. (Some 0, w)),
     wp_read_stdin = (\<lambda>w. case w of [] \<Rightarrow> (Some [], []) | n # w \<Rightarrow> (Some (decimal n @ [10]), w))\<rparr>"

theorem handle_through_stdin_witness:
  "(\<exists>w. main_windows (demo_lib 3) process_env list_slab demo_win_process (\<lambda>h w. Some (if h = 20 then Ok () else Panic, w)) None
      [''ipctest'', ''--client''] (demo_names, [20]) = Some (Exited 0, w)) \<and>
   (\<exists>w. main_windows (demo_lib 3) process_env list_slab demo_win_process (\<lambda>h w. Some (if h = 20 then Ok () else Panic, w)) None
      [''ipctest'', ''--client'', ''--wait-for-debugger''] (demo_names, [20]) = Some (Returned Panic, w))"
proof -
  have args: "is_client [''ipctest'', ''--client'']" "is_client [''ipctest'', ''--client'', ''--wait-for-debugger'']"
    "\<not> waits_for_debugger [''ipctest'', ''--client'']" "waits_for_debugger [''ipctest'', ''--client'', ''--wait-for-debugger'']"
    by (simp_all add: is_client_def waits_for_debugger_def)
  have lines: "stdin_lines demo_win_process [decimal (unat (20 :: win_handle)) @ [10]] [20]"
    by (simp add: demo_win_process_def)
  have t: "\<exists>w1. main_windows (demo_lib 3) process_env list_slab demo_win_process (\<lambda>h w. Some (if h = 20 then Ok () else Panic, w)) None
      args (demo_names, [20]) = (if waits_for_debugger args then Some (Returned Panic, w1) else Some (Exited 0, w1))"
    if "is_client args" for args
    using handle_through_stdin [OF that lines, of "demo_lib 3" process_env list_slab
        "\<lambda>h w. Some (if h = 20 then Ok () else Panic, w)" None demo_names] by (auto simp: exit_of_def)
  show ?thesis using t [OF args(1)] t [OF args(2)] args(3,4) by simp
qed

end
