(* ===== verification/StartupRace.thy ===== *)
theory StartupRace
  imports Prelude
begin

text \<open>
  The startup of a stream on Linux, as the test \<open>bind_server_waits_for_callback_thread_startup\<close> of
  \<open>audioipc/src/ipccore.rs\<close> sets it up: why \<open>bind_server\<close> has to return only when the connection is registered.

  Four threads: the server's RPC loop, the client's callback loop (which first has its promotion done by the server), the
  thread that binds the callback server and then starts the stream, and the server's callback loop, which only carries
  the call and its response.  A thread that waits takes no step; the messages that reach the server's loop wait in order.
\<close>

section \<open>The threads\<close>

datatype server_request = Promote | Start

datatype callback_thread = BeforePromotion | AwaitPromotion | Polling

datatype starter = ToBind | AwaitBind | ToStart | AwaitStart | Started

text \<open>
  \<open>requests\<close>: sent to the server and not yet served; \<open>in_start\<close>: the server's loop is in \<open>process\<close> for \<open>Start\<close> and
  waits for the response to its \<open>Data\<close>; \<open>promoted\<close>, \<open>start_done\<close>: the responses that have been sent.
\<close>

record startup =
  callback_phase :: callback_thread
  starter_phase :: starter
  requests :: "server_request list"
  in_start :: bool
  promoted :: bool
  start_done :: bool
  bind_queued :: bool
  bind_done :: bool

definition startup_init :: startup where
  "startup_init = \<lparr>callback_phase = BeforePromotion, starter_phase = ToBind, requests = [], in_start = False,
     promoted = False, start_done = False, bind_queued = False, bind_done = False\<rparr>"

text \<open>\<open>StartupRaceServer::process\<close>, up to the call of the callback.\<close>

definition serve_request :: "server_request \<Rightarrow> startup \<Rightarrow> startup" where
  "serve_request req s = (case req of Promote \<Rightarrow> s\<lparr>promoted := True\<rparr> | Start \<Rightarrow> s\<lparr>in_start := True\<rparr>)"

text \<open>One step of a thread; \<open>barrier\<close>: the connection is bound with \<open>bind_server\<close>, not \<open>bind_server_async\<close>.\<close>

inductive startup_step :: "bool \<Rightarrow> startup \<Rightarrow> startup \<Rightarrow> bool" for barrier where
  serve: "\<not> in_start s \<Longrightarrow> requests s = req # reqs \<Longrightarrow> startup_step barrier s (serve_request req (s\<lparr>requests := reqs\<rparr>))"
| callback: "in_start s \<Longrightarrow> callback_phase s = Polling \<Longrightarrow> bind_done s \<Longrightarrow>
    startup_step barrier s (s\<lparr>in_start := False, start_done := True\<rparr>)"
| promotion: "callback_phase s = BeforePromotion \<Longrightarrow>
    startup_step barrier s (s\<lparr>callback_phase := AwaitPromotion, requests := requests s @ [Promote]\<rparr>)"
| started_up: "callback_phase s = AwaitPromotion \<Longrightarrow> promoted s \<Longrightarrow> startup_step barrier s (s\<lparr>callback_phase := Polling\<rparr>)"
| add_connection: "callback_phase s = Polling \<Longrightarrow> bind_queued s \<Longrightarrow>
    startup_step barrier s (s\<lparr>bind_queued := False, bind_done := True\<rparr>)"
| bind: "starter_phase s = ToBind \<Longrightarrow>
    startup_step barrier s (s\<lparr>starter_phase := if barrier then AwaitBind else ToStart, bind_queued := True\<rparr>)"
| bound: "starter_phase s = AwaitBind \<Longrightarrow> bind_done s \<Longrightarrow> startup_step barrier s (s\<lparr>starter_phase := ToStart\<rparr>)"
| start: "starter_phase s = ToStart \<Longrightarrow>
    startup_step barrier s (s\<lparr>starter_phase := AwaitStart, requests := requests s @ [Start]\<rparr>)"
| response: "starter_phase s = AwaitStart \<Longrightarrow> start_done s \<Longrightarrow> startup_step barrier s (s\<lparr>starter_phase := Started\<rparr>)"

inductive startup_reaches :: "bool \<Rightarrow> nat \<Rightarrow> startup \<Rightarrow> bool" for barrier where
  init: "startup_reaches barrier 0 startup_init"
| step: "startup_reaches barrier n s \<Longrightarrow> startup_step barrier s s' \<Longrightarrow> startup_reaches barrier (Suc n) s'"

definition startup_over :: "startup \<Rightarrow> bool" where
  "startup_over s \<longleftrightarrow> starter_phase s = Started \<and> callback_phase s = Polling"

section \<open>With the barrier\<close>

text \<open>What holds at every moment; with the barrier the stream is started only when the callback loop polls.\<close>

definition startup_inv :: "bool \<Rightarrow> startup \<Rightarrow> bool" where
  "startup_inv barrier s \<longleftrightarrow>
     distinct (requests s) \<and>
     (case callback_phase s of
        BeforePromotion \<Rightarrow> \<not> promoted s \<and> Promote \<notin> set (requests s)
      | AwaitPromotion \<Rightarrow> promoted s \<longleftrightarrow> Promote \<notin> set (requests s)
      | Polling \<Rightarrow> promoted s \<and> Promote \<notin> set (requests s)) \<and>
     (bind_done s \<longrightarrow> callback_phase s = Polling \<and> \<not> bind_queued s) \<and>
     (case starter_phase s of
        ToBind \<Rightarrow> \<not> bind_queued s \<and> \<not> bind_done s
      | _ \<Rightarrow> bind_queued s \<or> bind_done s) \<and>
     (starter_phase s \<in> {AwaitStart, Started} \<or> Start \<notin> set (requests s) \<and> \<not> in_start s \<and> \<not> start_done s) \<and>
     (starter_phase s = AwaitStart \<longrightarrow> Start \<in> set (requests s) \<or> in_start s \<or> start_done s) \<and>
     (starter_phase s = Started \<longrightarrow> bind_done s \<and> start_done s) \<and> (start_done s \<longrightarrow> bind_done s) \<and>
     (starter_phase s = AwaitBind \<longrightarrow> barrier) \<and>
     (barrier \<longrightarrow> starter_phase s \<in> {ToStart, AwaitStart, Started} \<longrightarrow> bind_done s)"

lemma startup_inv_step: "startup_step barrier s s' \<Longrightarrow> startup_inv barrier s \<Longrightarrow> startup_inv barrier s'"
  by (induction rule: startup_step.cases)
    (auto simp: startup_inv_def serve_request_def split: server_request.splits callback_thread.splits starter.splits if_splits)

lemma startup_inv_init: "startup_inv barrier startup_init"
  by (simp add: startup_inv_def startup_init_def)

lemma startup_reaches_inv: "startup_reaches barrier n s \<Longrightarrow> startup_inv barrier s"
  by (induction rule: startup_reaches.induct) (simp_all add: startup_inv_init startup_inv_step)

text \<open>No thread waits for another one that waits for it.\<close>

lemma startup_progress:
  assumes inv: "startup_inv True s" and over: "\<not> startup_over s"
  shows "\<exists>s'. startup_step True s s'"
proof (cases "in_start s")
  case True
  then have "bind_done s" "callback_phase s = Polling" using inv by (auto simp: startup_inv_def)
  with True show ?thesis by (blast intro: callback)
next
  case False
  show ?thesis
  proof (cases "requests s")
    case (Cons req reqs)
    with False show ?thesis by (blast intro: serve)
  next
    case Nil
    show ?thesis
    proof (cases "callback_phase s")
      case Polling
      with Nil False inv over show ?thesis
        by (cases "starter_phase s")
          (auto simp: startup_inv_def startup_over_def dest: add_connection bind bound start response)
    qed (use Nil inv in \<open>auto simp: startup_inv_def intro: promotion started_up\<close>)
  qed
qed

text \<open>And every step brings the startup nearer to its end.\<close>

definition startup_left :: "startup \<Rightarrow> nat" where
  "startup_left s = (case callback_phase s of BeforePromotion \<Rightarrow> 3 | AwaitPromotion \<Rightarrow> 1 | Polling \<Rightarrow> 0) +
     (case starter_phase s of ToBind \<Rightarrow> 7 | AwaitBind \<Rightarrow> 5 | ToStart \<Rightarrow> 4 | AwaitStart \<Rightarrow> 1 | Started \<Rightarrow> 0) +
     sum_list (map (\<lambda>r. case r of Promote \<Rightarrow> 1 | Start \<Rightarrow> 2) (requests s)) + of_bool (in_start s) + of_bool (bind_queued s)"

lemma startup_step_left: "startup_step barrier s s' \<Longrightarrow> startup_left s' < startup_left s"
  by (induction rule: startup_step.cases) (auto simp: startup_left_def serve_request_def split: server_request.splits)

lemma startup_reaches_left: "startup_reaches barrier n s \<Longrightarrow> n + startup_left s \<le> 10"
proof (induction rule: startup_reaches.induct)
  case init
  then show ?case by (simp add: startup_left_def startup_init_def)
next
  case (step n s s')
  with startup_step_left [OF step.hyps(2)] show ?case by linarith
qed

section \<open>Without it\<close>

abbreviation startup_at :: "callback_thread \<Rightarrow> starter \<Rightarrow> server_request list \<Rightarrow> bool \<Rightarrow> bool \<Rightarrow> bool \<Rightarrow> bool \<Rightarrow> bool \<Rightarrow> startup" where
  "startup_at cb st reqs i p d bq bd \<equiv> \<lparr>callback_phase = cb, starter_phase = st, requests = reqs, in_start = i,
     promoted = p, start_done = d, bind_queued = bq, bind_done = bd\<rparr>"

lemma startup_reaches_step: "startup_reaches barrier n s \<Longrightarrow> startup_step barrier s s' \<Longrightarrow> m = Suc n \<Longrightarrow> startup_reaches barrier m s'"
  by (simp add: startup_reaches.step)

text \<open>The stream is started first: the server waits for the callback loop, which waits for the server.\<close>

lemma async_deadlock:
  "startup_reaches False 4 (startup_at AwaitPromotion AwaitStart [Promote] True False False True False)"
proof -
  have "startup_reaches False 1 (startup_at BeforePromotion ToStart [] False False False True False)"
    by (rule startup_reaches_step [OF init]) (simp_all add: startup_init_def startup_step.simps)
  then have "startup_reaches False 2 (startup_at BeforePromotion AwaitStart [Start] False False False True False)"
    by (rule startup_reaches_step) (simp_all add: startup_step.simps)
  then have "startup_reaches False 3 (startup_at BeforePromotion AwaitStart [] True False False True False)"
    by (rule startup_reaches_step) (simp_all add: startup_step.simps serve_request_def)
  then show ?thesis
    by (rule startup_reaches_step) (simp_all add: startup_step.simps)
qed



end
