(* ===== verification/WinPipe.thy ===== *)
theory WinPipe
  imports WinHandles Driver
begin

text \<open>
  The Windows pipe (\<open>audioipc/src/sys/windows/mod.rs\<close>), the connection buffer with \<open>RemoteHandle\<close>s, and the
  Windows arms of the framed driver (\<open>audioipc/src/ipccore.rs\<close>).  Handles do not travel beside the bytes:
  the sender duplicates a handle into the target before it encodes the message, the message carries the
  target's value, and the buffer keeps the \<open>RemoteHandle\<close> until bytes have been written.
\<close>

section \<open>ConnectionBuffer\<close>

record win_buf =
  wb_buf :: "byte list"
  wb_handles :: "remote_handle list"

definition win_push_handle :: "win_buf \<Rightarrow> remote_handle \<Rightarrow> (io_error, unit) res \<times> win_buf" where
  "win_push_handle b r =
     (if length (wb_handles b) < HANDLE_QUEUE_LIMIT
      then (Ok (), b\<lparr>wb_handles := wb_handles b @ [r]\<rparr>) else (Panic, b))"

definition win_pop_handle :: "win_buf \<Rightarrow> remote_handle option \<times> win_buf" where
  "win_pop_handle b = (case wb_handles b of [] \<Rightarrow> (None, b) | r # rs \<Rightarrow> (Some r, b\<lparr>wb_handles := rs\<rparr>))"

text \<open>Dropping a buffer drops its handles, in order.\<close>

primrec drop_handles :: "'w win_os \<Rightarrow> remote_handle list \<Rightarrow> 'w \<Rightarrow> 'w" where
  "drop_handles os [] w = w"
| "drop_handles os (r # rs) w = drop_handles os rs (remote_handle_drop os r w)"

definition win_buf_drop :: "'w win_os \<Rightarrow> win_buf \<Rightarrow> 'w \<Rightarrow> 'w" where
  "win_buf_drop os b w = drop_handles os (wb_handles b) w"

section \<open>The pipe\<close>

definition get_pipe_name :: "nat \<Rightarrow> usize \<Rightarrow> byte list \<times> usize" where
  "get_pipe_name pid pipe_id =
     ([92, 92] @ ascii ''.'' @ [92] @ ascii ''pipe'' @ [92] @ ascii ''LOCAL'' @ [92] @ ascii ''cubeb-pipe-'' @
        decimal pid @ ascii ''-'' @ decimal (unat pipe_id), pipe_id + 1)"

text \<open>\<open>make_pipe_pair\<close>, over the creation of the server's end and the opening of the client's.\<close>

definition win_make_pipe_pair ::
  "(byte list \<Rightarrow> 'w \<Rightarrow> (io_error, 'p) res \<times> 'w) \<Rightarrow> (byte list \<Rightarrow> 'w \<Rightarrow> (io_error, win_handle) res \<times> 'w) \<Rightarrow>
   nat \<Rightarrow> usize \<Rightarrow> 'w \<Rightarrow> ((io_error, 'p \<times> win_handle) res \<times> 'w) \<times> usize" where
  "win_make_pipe_pair named_pipe_new open_file pid pipe_id w =
     (case get_pipe_name pid pipe_id of (pipe_name, pipe_id') \<Rightarrow>
       (and_then (named_pipe_new pipe_name w) (\<lambda>server w1.
          and_then (open_file pipe_name w1) (\<lambda>file w2.
            (map_ok (\<lambda>client. (server, client)) (win_platform_handle_new file), w2))), pipe_id'))"

definition win_recv_msg :: "byte list sys_result \<Rightarrow> win_buf \<Rightarrow> (io_error, nat) res \<times> win_buf" where
  "win_recv_msg r b = (case r of
     SysRet bytes \<Rightarrow> (Ok (length bytes), b\<lparr>wb_buf := wb_buf b @ bytes\<rparr>)
   | SysErr e \<Rightarrow> (Err e, b))"

text \<open>After any successful write, every handle of the buffer is popped, marked as sent and dropped.\<close>

definition win_send_msg ::
  "'w win_os \<Rightarrow> nat sys_result \<Rightarrow> win_buf \<Rightarrow> 'w \<Rightarrow> (io_error, nat) res \<times> win_buf \<times> 'w" where
  "win_send_msg os r b w =
     (if wb_buf b = [] then (Panic, b, w)
      else case r of
        SysErr e \<Rightarrow> (Err e, b, w)
      | SysRet n \<Rightarrow>
          if n \<le> length (wb_buf b)
          then (Ok n, \<lparr>wb_buf = drop n (wb_buf b), wb_handles = []\<rparr>, drop_handles os (map mark_sent (wb_handles b)) w)
          else (Panic, b, w))"

section \<open>AssociateHandleForMessage\<close>

record 'm win_handle_ops =
  win_has_associated_handle :: "'m \<Rightarrow> bool"
  win_take_handle_of :: "'m \<Rightarrow> (io_error, remote_handle) res \<times> 'm"
  win_set_remote_handle :: "'m \<Rightarrow> win_handle \<Rightarrow> (io_error, unit) res \<times> 'm"
  win_set_local_handle :: "'m \<Rightarrow> (io_error, unit) res \<times> 'm"

definition win_default_handle_ops :: "'m win_handle_ops" where
  "win_default_handle_ops = \<lparr>
     win_has_associated_handle = (\<lambda>_. False),
     win_take_handle_of = (\<lambda>m. (Panic, m)),
     win_set_remote_handle = (\<lambda>m _. (Panic, m)),
     win_set_local_handle = (\<lambda>m. (Panic, m)) \<rparr>"

definition win_client_message_handles :: "win_serializable client_message win_handle_ops" where
  "win_client_message_handles = \<lparr>
     win_has_associated_handle = cm_has_associated_handle,
     win_take_handle_of = win_cm_take_handle,
     win_set_remote_handle = win_cm_set_remote_handle,
     win_set_local_handle = win_cm_set_local_handle \<rparr>"

text \<open>The wire form: serialization panics on an owned handle, deserialization builds a \<open>WinValue\<close>.\<close>

definition win_handle_panics :: "win_serializable \<Rightarrow> bool" where
  "win_handle_panics s \<longleftrightarrow> (win_get_serializable_value s :: (unit, win_handle) res) = Panic"

definition win_i64_of_handle :: "win_serializable \<Rightarrow> int" where
  "win_i64_of_handle s = (case (win_get_serializable_value s :: (unit, win_handle) res) of
     Ok h \<Rightarrow> win_handle_to_i64 h | _ \<Rightarrow> win_handle_to_i64 WIN_INVALID_HANDLE_VALUE)"

definition win_client_message_tx ::
  "(int client_message, 'o) bincode \<Rightarrow> (win_serializable client_message, 'o) bincode" where
  "win_client_message_tx bc = \<lparr>
     bc_serialize_into = (\<lambda>lim m.
       if \<exists>h \<in> set_client_message m. win_handle_panics h then SerPanic
       else bc_serialize_into bc lim (map_client_message win_i64_of_handle m)),
     bc_deserialize = bc_deserialize bc \<rparr>"

definition win_client_message_rx ::
  "('i, int client_message) bincode \<Rightarrow> ('i, win_serializable client_message) bincode" where
  "win_client_message_rx bc = \<lparr>
     bc_serialize_into = bc_serialize_into bc,
     bc_deserialize = (\<lambda>lim bs. map_sum id (map_client_message win_handle_of_i64) (bc_deserialize bc lim bs)) \<rparr>"

section \<open>FramedDriver\<close>

text \<open>A received item already holds its handle's value; no handle may have come beside it.\<close>

definition win_attach_handle :: "'m win_handle_ops \<Rightarrow> 'm \<Rightarrow> win_buf \<Rightarrow> (io_error, 'm) res \<times> win_buf" where
  "win_attach_handle ops itm inbound =
     (if win_has_associated_handle ops itm then
        (case win_pop_handle inbound of
           (Some _, b) \<Rightarrow> (Panic, b)
         | (None, b) \<Rightarrow> (case win_set_local_handle ops itm of
              (Ok _, itm') \<Rightarrow> (Ok itm', b) | (Err e, _) \<Rightarrow> (Err e, b) | (Panic, _) \<Rightarrow> (Panic, b)))
      else (Ok itm, inbound))"

partial_function (option) win_process_inbound ::
  "('c \<Rightarrow> byte list \<Rightarrow> (io_error, 'm option) res \<times> 'c \<times> byte list) \<Rightarrow> 'm win_handle_ops \<Rightarrow>
   ('m \<Rightarrow> 'h \<Rightarrow> (io_error, unit) res \<times> 'h) \<Rightarrow> ('c, 'h) framed_driver \<Rightarrow> win_buf \<Rightarrow>
   ((io_error, bool) res \<times> ('c, 'h) framed_driver \<times> win_buf) option" where
  "win_process_inbound dec ops consume d inbound =
     (case dec (codec d) (wb_buf inbound) of (r, c, buf) \<Rightarrow>
        (case r of
           Ok None \<Rightarrow> Some (Ok False, d\<lparr>codec := c\<rparr>, inbound\<lparr>wb_buf := buf\<rparr>)
         | Err e \<Rightarrow> Some (Err e, d\<lparr>codec := c\<rparr>, inbound\<lparr>wb_buf := buf\<rparr>)
         | Panic \<Rightarrow> Some (Panic, d\<lparr>codec := c\<rparr>, inbound\<lparr>wb_buf := buf\<rparr>)
         | Ok (Some itm) \<Rightarrow>
             (case win_attach_handle ops itm (inbound\<lparr>wb_buf := buf\<rparr>) of
                (Err e, b) \<Rightarrow> Some (Err e, d\<lparr>codec := c\<rparr>, b)
              | (Panic, b) \<Rightarrow> Some (Panic, d\<lparr>codec := c\<rparr>, b)
              | (Ok itm', b) \<Rightarrow>
                  (case consume itm' (handler d) of
                     (Ok _, h) \<Rightarrow> win_process_inbound dec ops consume (d\<lparr>codec := c, handler := h\<rparr>) b
                   | (Err e, h) \<Rightarrow> Some (Err e, d\<lparr>codec := c, handler := h\<rparr>, b)
                   | (Panic, h) \<Rightarrow> Some (Panic, d\<lparr>codec := c, handler := h\<rparr>, b)))))"

text \<open>
  A handle is detached, duplicated into the target, and its value there is put into the item.  When the
  duplication fails, the error path drops the detached handle.
\<close>

definition win_detach_handle ::
  "'w win_os \<Rightarrow> 'm win_handle_ops \<Rightarrow> 'm \<Rightarrow> 'w \<Rightarrow> (io_error, remote_handle option) res \<times> 'm \<times> 'w" where
  "win_detach_handle os ops itm w =
     (if win_has_associated_handle ops itm then
        (case win_take_handle_of ops itm of
           (Err e, itm1) \<Rightarrow> (Err e, itm1, w)
         | (Panic, itm1) \<Rightarrow> (Panic, itm1, w)
         | (Ok r, itm1) \<Rightarrow>
             (case send_to_target os r w of
                (Err e, r1, w1) \<Rightarrow> (Err e, itm1, remote_handle_drop os r1 w1)
              | (Panic, r1, w1) \<Rightarrow> (Panic, itm1, w1)
              | (Ok v, r1, w1) \<Rightarrow>
                  (case win_set_remote_handle ops itm1 v of
                     (Ok _, itm2) \<Rightarrow> (Ok (Some r1), itm2, w1)
                   | (Err e, itm2) \<Rightarrow> (Err e, itm2, w1)
                   | (Panic, itm2) \<Rightarrow> (Panic, itm2, w1))))
      else (Ok None, itm, w))"

text \<open>When the encoder fails, the error path drops the handle of the item.\<close>

definition drop_handle_opt :: "'w win_os \<Rightarrow> remote_handle option \<Rightarrow> 'w \<Rightarrow> 'w" where
  "drop_handle_opt os ro w = (case ro of Some r \<Rightarrow> remote_handle_drop os r w | None \<Rightarrow> w)"

partial_function (option) win_flush_outbound ::
  "'w win_os \<Rightarrow> ('c \<Rightarrow> 'm \<Rightarrow> byte list \<Rightarrow> (io_error, unit) res \<times> 'c \<times> byte list) \<Rightarrow> 'm win_handle_ops \<Rightarrow>
   ('h \<Rightarrow> (io_error, 'm option) res \<times> 'h) \<Rightarrow> ('c, 'h) framed_driver \<Rightarrow> win_buf \<Rightarrow> 'w \<Rightarrow>
   ((io_error, unit) res \<times> ('c, 'h) framed_driver \<times> win_buf \<times> 'w) option" where
  "win_flush_outbound os enc ops produce d outbound w =
     (case produce (handler d) of (r, h) \<Rightarrow>
        (case r of
           Ok None \<Rightarrow> Some (Ok (), d\<lparr>handler := h\<rparr>, outbound, w)
         | Err e \<Rightarrow> Some (Err e, d\<lparr>handler := h\<rparr>, outbound, w)
         | Panic \<Rightarrow> Some (Panic, d\<lparr>handler := h\<rparr>, outbound, w)
         | Ok (Some itm) \<Rightarrow>
             (case win_detach_handle os ops itm w of
                (Err e, _, w1) \<Rightarrow> Some (Err e, d\<lparr>handler := h\<rparr>, outbound, w1)
              | (Panic, _, w1) \<Rightarrow> Some (Panic, d\<lparr>handler := h\<rparr>, outbound, w1)
              | (Ok handle, itm', w1) \<Rightarrow>
                  (case enc (codec d) itm' (wb_buf outbound) of
                     (Err e, c, buf) \<Rightarrow>
                       Some (Err e, d\<lparr>codec := c, handler := h\<rparr>, outbound\<lparr>wb_buf := buf\<rparr>, drop_handle_opt os handle w1)
                   | (Panic, c, buf) \<Rightarrow> Some (Panic, d\<lparr>codec := c, handler := h\<rparr>, outbound\<lparr>wb_buf := buf\<rparr>, w1)
                   | (Ok _, c, buf) \<Rightarrow>
                       (case handle of
                          None \<Rightarrow> win_flush_outbound os enc ops produce (d\<lparr>codec := c, handler := h\<rparr>)
                                    (outbound\<lparr>wb_buf := buf\<rparr>) w1
                        | Some ha \<Rightarrow>
                            (case win_push_handle (outbound\<lparr>wb_buf := buf\<rparr>) ha of
                               (Ok _, b) \<Rightarrow> win_flush_outbound os enc ops produce (d\<lparr>codec := c, handler := h\<rparr>) b w1
                             | (Err e, b) \<Rightarrow> Some (Err e, d\<lparr>codec := c, handler := h\<rparr>, b, w1)
                             | (Panic, b) \<Rightarrow> Some (Panic, d\<lparr>codec := c, handler := h\<rparr>, b, w1)))))))"

end
