(* ===== verification/WinRemoting.thy ===== *)
theory WinRemoting
  imports WinPipe Connection
begin

text \<open>
  What the remoting of handles on Windows guarantees, on the tables of open handles of all processes:
  the responses of a server reach the client with the handles they had, whatever happens before a write is
  undone when the connection is dropped, and a write gives away every queued handle at once.
\<close>

section \<open>Tables\<close>

text \<open>A closed table entry at \<open>self\<close>, and the tables of the other processes.\<close>

type_synonym handle_tab = "u32 \<times> win_handle \<Rightarrow> nat option"

definition others :: "u32 \<Rightarrow> handle_tab \<Rightarrow> handle_tab" where
  "others self t = t |` {k. fst k \<noteq> self}"

definition droppable :: "'w win_view \<Rightarrow> 'w \<Rightarrow> remote_handle list \<Rightarrow> bool" where
  "droppable V w rs \<longleftrightarrow> (\<forall>r \<in> set rs. rh_target_handle r \<noteq> None \<longrightarrow> wv_alive V w (rh_target r))"

lemma others_eq: "others self t = others self u \<longleftrightarrow> (\<forall>p h. p \<noteq> self \<longrightarrow> t (p, h) = u (p, h))"
  by (auto simp: others_def restrict_map_def fun_eq_iff)

text \<open>The entries a dropped handle takes away.\<close>

definition owns :: "u32 \<Rightarrow> remote_handle \<Rightarrow> u32 \<times> win_handle \<Rightarrow> bool" where
  "owns self r k \<longleftrightarrow> k = (self, rh_handle r) \<or> (case rh_target_handle r of Some v \<Rightarrow> k = (rh_target r, v) | None \<Rightarrow> False)"

lemma released_apply: "released self r t k = (if owns self r k then None else t k)"
  by (cases "rh_target_handle r") (simp_all add: released_def owns_def)

lemma released_all_apply:
  "fold (released self) rs t k = (if \<exists>r \<in> set rs. owns self r k then None else t k)"
  by (induction rs arbitrary: t) (simp_all add: released_apply)

lemma owns_sent [simp]: "owns self (mark_sent r) k \<longleftrightarrow> k = (self, rh_handle r)"
  by (simp add: owns_def mark_sent_def)

lemma drop_handles_tab:
  assumes "win_contract self V os" and "droppable V w rs"
  shows "wv_tab V (drop_handles os rs w) = fold (released self) rs (wv_tab V w)"
    and "wv_alive V (drop_handles os rs w) = wv_alive V w"
proof -
  have "wv_tab V (drop_handles os rs w) = fold (released self) rs (wv_tab V w) \<and>
      wv_alive V (drop_handles os rs w) = wv_alive V w"
    using assms(2)
  proof (induction rs arbitrary: w)
    case (Cons r rs)
    then have "rh_target_handle r \<noteq> None \<Longrightarrow> wv_alive V w (rh_target r)" by (simp add: droppable_def)
    note d = remote_handle_drop_tab [OF assms(1) this]
    with Cons have "droppable V (remote_handle_drop os r w) rs" by (auto simp: droppable_def)
    from Cons.IH [OF this] d show ?case by simp
  qed simp
  then show "wv_tab V (drop_handles os rs w) = fold (released self) rs (wv_tab V w)"
    and "wv_alive V (drop_handles os rs w) = wv_alive V w" by blast+
qed

lemma send_msg_tab:
  assumes "win_contract self V os"
    and "wb_buf b \<noteq> []" and "n \<le> length (wb_buf b)" and "win_send_msg os (SysRet n) b w = (r, b', w')"
  shows "r = Ok n" and "wb_buf b' = drop n (wb_buf b)" and "wb_handles b' = []"
    and "wv_tab V w' k = (if \<exists>r \<in> set (wb_handles b). k = (self, rh_handle r) then None else wv_tab V w k)"
    and "wv_alive V w' = wv_alive V w"
proof -
  have "droppable V w (map mark_sent (wb_handles b))" by (simp add: droppable_def mark_sent_def)
  note d = drop_handles_tab [OF assms(1) this]
  from assms(2-4) have "b' = \<lparr>wb_buf = drop n (wb_buf b), wb_handles = []\<rparr>" "r = Ok n"
    "w' = drop_handles os (map mark_sent (wb_handles b)) w" by (auto simp: win_send_msg_def)
  then show "r = Ok n" "wb_buf b' = drop n (wb_buf b)" "wb_handles b' = []"
    "wv_tab V w' k = (if \<exists>r \<in> set (wb_handles b). k = (self, rh_handle r) then None else wv_tab V w k)"
    "wv_alive V w' = wv_alive V w"
    by (simp_all add: d released_all_apply)
qed

section \<open>Messages\<close>

definition win_cm_sendable :: "win_serializable client_message \<Rightarrow> bool" where
  "win_cm_sendable m \<longleftrightarrow> (\<forall>s \<in> set_client_message m. \<exists>h pid. s = WinOwned h (Some pid))"

text \<open>A message with its handle's value in the target, and the one the receiver makes of it.\<close>

definition sent_as :: "win_serializable client_message \<Rightarrow> remote_handle option \<Rightarrow> win_serializable client_message" where
  "sent_as m ro = (case ro of None \<Rightarrow> m
     | Some r \<Rightarrow> map_client_message (\<lambda>_. WinValue (the (rh_target_handle r))) m)"

definition received_as :: "win_serializable client_message \<Rightarrow> remote_handle option \<Rightarrow> win_serializable client_message" where
  "received_as m ro = (case ro of None \<Rightarrow> m
     | Some r \<Rightarrow> map_client_message (\<lambda>_. WinOwned (the (rh_target_handle r)) None) m)"

text \<open>The handle detached from a message in the state \<open>w\<close>: its value in the target stands for the same object.\<close>

definition granted :: "u32 \<Rightarrow> 'w win_view \<Rightarrow> 'w \<Rightarrow> 'w \<Rightarrow> win_serializable client_message \<Rightarrow> remote_handle option \<Rightarrow> bool" where
  "granted self V w w' m ro \<longleftrightarrow> (if cm_has_associated_handle m
     then \<exists>h pid v. set_client_message m = {WinOwned h (Some pid)} \<and>
       ro = Some \<lparr>rh_handle = h, rh_target = pid, rh_target_handle = Some v\<rparr> \<and> win_valid_handle v \<and>
       wv_tab V w (pid, v) = None \<and> wv_tab V w (self, h) \<noteq> None \<and> wv_tab V w' (pid, v) = wv_tab V w (self, h)
     else ro = None)"

lemmas win_ops_simps = win_client_message_handles_def win_cm_take_handle_def win_cm_set_remote_handle_def
  win_cm_set_local_handle_def on_handle_def

lemma win_take_set:
  assumes "win_cm_sendable m" and "cm_has_associated_handle m"
  obtains h pid m1 where "set_client_message m = {WinOwned h (Some pid)}"
    and "win_cm_take_handle m = (Ok (remote_handle_new h pid), m1)"
    and "\<And>v. win_cm_set_remote_handle m1 v = (Ok (), map_client_message (\<lambda>_. WinValue v) m)"
  using assms(2,1)
  by (cases rule: cm_handle_cases)
    (auto simp: win_cm_sendable_def win_ops_simps win_take_handle_for_send_def)

lemma win_set_local:
  assumes "cm_has_associated_handle m" and "win_valid_handle v"
  shows "win_cm_set_local_handle (map_client_message (\<lambda>_. WinValue v) m) =
     (Ok (), map_client_message (\<lambda>_. WinOwned v None) m)"
  using assms by (cases rule: cm_handle_cases)
    (auto simp: win_ops_simps win_make_owned_def win_platform_handle_new_def)

lemma has_handle_map [simp]: "cm_has_associated_handle (map_client_message f m) = cm_has_associated_handle m"
  by (cases m) (simp_all add: cm_has_associated_handle_def)

text \<open>Detaching the handle of a message, on the tables.\<close>

lemma win_detach_tab:
  assumes c: "win_contract self V os" and s: "win_cm_sendable m"
    and d: "win_detach_handle os win_client_message_handles m w = (q, m', w')"
  shows "case q of
      Ok ro \<Rightarrow> granted self V w w' m ro \<and> m' = sent_as m ro \<and> wv_alive V w' = wv_alive V w \<and>
        wv_tab V w' = (case ro of None \<Rightarrow> wv_tab V w
          | Some r \<Rightarrow> (wv_tab V w)((rh_target r, the (rh_target_handle r)) := wv_tab V w (self, rh_handle r)))
    | Err _ \<Rightarrow> wv_alive V w' = wv_alive V w \<and> others self (wv_tab V w') = others self (wv_tab V w)
    | Panic \<Rightarrow> False"
proof (cases "cm_has_associated_handle m")
  case False
  with d show ?thesis
    by (auto simp: win_detach_handle_def win_client_message_handles_def granted_def sent_as_def)
next
  case True
  obtain h pid m1 where m: "set_client_message m = {WinOwned h (Some pid)}"
    and t: "win_cm_take_handle m = (Ok (remote_handle_new h pid), m1)"
    and r: "\<And>v. win_cm_set_remote_handle m1 v = (Ok (), map_client_message (\<lambda>_. WinValue v) m)"
    using win_take_set [OF s True] by blast
  obtain x r1 w1 where st: "send_to_target os (remote_handle_new h pid) w = (x, r1, w1)"
    by (metis prod.exhaust)
  note tab = send_to_target_tab [OF c st]
  have dd: "win_detach_handle os win_client_message_handles m w = (case x of
      Ok v \<Rightarrow> (Ok (Some r1), map_client_message (\<lambda>_. WinValue v) m, w1)
    | Err e \<Rightarrow> (Err e, m1, remote_handle_drop os r1 w1) | Panic \<Rightarrow> (Panic, m1, w1))"
    using True t r st by (simp add: win_detach_handle_def win_client_message_handles_def split: res.split)
  show ?thesis
  proof (cases x)
    case (Ok v)
    with dd d have "q = Ok (Some r1)" "m' = map_client_message (\<lambda>_. WinValue v) m" "w' = w1" by simp_all
    with Ok tab True m show ?thesis by (simp add: granted_def sent_as_def remote_handle_new_def)
  next
    case (Err e)
    with tab have "r1 = remote_handle_new h pid" "wv_tab V w1 = wv_tab V w" "wv_alive V w1 = wv_alive V w"
      by simp_all
    moreover from Err dd d have "q = Err e" "w' = remote_handle_drop os r1 w1" by simp_all
    ultimately show ?thesis using remote_handle_drop_tab [OF c, of r1 w1]
      by (simp add: remote_handle_new_def others_eq released_apply owns_def)
  next
    case Panic
    with tab show ?thesis by simp
  qed
qed

section \<open>The outbound loop\<close>

lemma granted_mono:
  assumes "granted self V w1 w2 m ro" and "wv_tab V w \<subseteq>\<^sub>m wv_tab V w1" and "wv_tab V w2 \<subseteq>\<^sub>m wv_tab V w3"
    and "\<And>h pid. WinOwned h (Some pid) \<in> set_client_message m \<Longrightarrow> wv_tab V w (self, h) \<noteq> None"
  shows "granted self V w w3 m ro"
proof (cases "cm_has_associated_handle m")
  case True
  with assms(1) obtain h pid v where g: "set_client_message m = {WinOwned h (Some pid)}"
    "ro = Some \<lparr>rh_handle = h, rh_target = pid, rh_target_handle = Some v\<rparr>" "win_valid_handle v"
    "wv_tab V w1 (pid, v) = None" "wv_tab V w2 (pid, v) = wv_tab V w1 (self, h)"
    by (auto simp: granted_def)
  with assms(4) obtain x where x: "wv_tab V w (self, h) = Some x" by auto
  from g(4) assms(2) have "wv_tab V w (pid, v) = None" by (metis domIff map_le_implies_dom_le subsetD)
  moreover from x assms(2) have "wv_tab V w1 (self, h) = Some x" by (metis domI map_le_def)
  with g(5) assms(3) have "wv_tab V w3 (pid, v) = Some x" by (metis domI map_le_def)
  ultimately show ?thesis using True g x by (simp add: granted_def)
qed (use assms(1) in \<open>simp add: granted_def\<close>)

text \<open>The tables with the grant, and those that dropping a buffer leaves to the other processes.\<close>

definition granted_tab :: "u32 \<Rightarrow> 'w win_view \<Rightarrow> 'w \<Rightarrow> remote_handle option \<Rightarrow> handle_tab" where
  "granted_tab self V w ro = (case ro of None \<Rightarrow> wv_tab V w
     | Some r \<Rightarrow> (wv_tab V w)((rh_target r, the (rh_target_handle r)) := wv_tab V w (self, rh_handle r)))"

lemma granted_le:
  assumes "granted self V w w' m ro"
  shows "wv_tab V w \<subseteq>\<^sub>m granted_tab self V w ro"
proof (cases ro)
  case (Some r)
  have upd: "t \<subseteq>\<^sub>m t(k := y)" if "t k = None" for t :: handle_tab and k y
  proof (unfold map_le_def, rule ballI)
    fix a assume "a \<in> dom t"
    with that have "a \<noteq> k" by auto
    then show "t a = (t(k := y)) a" by simp
  qed
  from assms Some obtain h pid v where "ro = Some \<lparr>rh_handle = h, rh_target = pid, rh_target_handle = Some v\<rparr>"
    and "wv_tab V w (pid, v) = None"
    unfolding granted_def by (metis option.distinct(1))
  moreover from this Some have "r = \<lparr>rh_handle = h, rh_target = pid, rh_target_handle = Some v\<rparr>" by simp
  ultimately have "wv_tab V w (rh_target r, the (rh_target_handle r)) = None" by simp
  with upd Some show ?thesis by (simp add: granted_tab_def)
qed (simp add: granted_tab_def)

lemma sent_as_values: "granted self V w w' m ro \<Longrightarrow> set_client_message (sent_as m ro) \<subseteq> range WinValue"
  using cm_no_handle [of m] by (auto simp: granted_def sent_as_def client_message.set_map split: if_splits)

text \<open>Taking away a grant and the handles queued before it leaves the other tables as without the grant.\<close>

lemma released_grant:
  assumes "t (rh_target r, the (rh_target_handle r)) = None" and "rh_target_handle r \<noteq> None"
    and "set rs' = insert r (set rs)"
  shows "others self (fold (released self) rs' (t((rh_target r, the (rh_target_handle r)) := x))) =
    others self (fold (released self) rs t)"
proof (unfold others_eq, intro allI impI)
  fix p h assume "p \<noteq> self"
  with assms(2) have "owns self r (p, h) \<longleftrightarrow> (p, h) = (rh_target r, the (rh_target_handle r))"
    by (auto simp: owns_def)
  with assms(1,3) show "fold (released self) rs' (t((rh_target r, the (rh_target_handle r)) := x)) (p, h) =
      fold (released self) rs t (p, h)"
    by (simp add: released_all_apply)
qed

lemma others_released:
  "others self t = others self u \<Longrightarrow> others self (fold (released self) rs t) = others self (fold (released self) rs u)"
  by (simp add: others_eq released_all_apply)

definition after_drop :: "u32 \<Rightarrow> 'w win_view \<Rightarrow> win_buf \<Rightarrow> 'w \<Rightarrow> handle_tab" where
  "after_drop self V b w = others self (fold (released self) (wb_handles b) (wv_tab V w))"

text \<open>Dropping a grant with the handles queued before it.\<close>

lemma grant_released:
  assumes "granted self V w w1 m ro" and "wv_tab V w1 = granted_tab self V w ro"
    and "set xs = set (case ro of None \<Rightarrow> [] | Some r \<Rightarrow> [r]) \<union> set (wb_handles b)"
  shows "others self (fold (released self) xs (wv_tab V w1)) = after_drop self V b w"
proof (cases ro)
  case None
  with assms(2,3) show ?thesis
    by (simp add: granted_tab_def after_drop_def others_eq released_all_apply)
next
  case (Some x)
  with assms(1) obtain h pid v where "ro = Some \<lparr>rh_handle = h, rh_target = pid, rh_target_handle = Some v\<rparr>"
    and v: "wv_tab V w (pid, v) = None"
    unfolding granted_def by (metis option.distinct(1))
  with Some have "x = \<lparr>rh_handle = h, rh_target = pid, rh_target_handle = Some v\<rparr>" by simp
  with v Some assms(2,3) show ?thesis
    using released_grant [of "wv_tab V w" x xs "wb_handles b" self] by (simp add: granted_tab_def after_drop_def)
qed

text \<open>The end of a connection that sends messages with handles: a handler that produces them and an encoder.\<close>

locale win_sender =
  rpc_handler consume produce pending hinv
  for consume :: "'i \<Rightarrow> 'h \<Rightarrow> (io_error, unit) res \<times> 'h"
    and produce :: "'h \<Rightarrow> (io_error, win_serializable client_message option) res \<times> 'h"
    and pending :: "'h \<Rightarrow> win_serializable client_message list" and hinv :: "'h \<Rightarrow> bool" +
  fixes enc :: "'e \<Rightarrow> win_serializable client_message \<Rightarrow> byte list \<Rightarrow> (io_error, unit) res \<times> 'e \<times> byte list"
    and wire :: "win_serializable client_message \<Rightarrow> byte list \<Rightarrow> bool"
  assumes enc_wire: "set_client_message m \<subseteq> range WinValue \<Longrightarrow> enc e m buf = (Ok (), e', buf') \<Longrightarrow>
    \<exists>fr. buf' = buf @ fr \<and> wire m fr"
    and enc_safe: "set_client_message m \<subseteq> range WinValue \<Longrightarrow> fst (enc e m buf) \<noteq> Panic"
begin

abbreviation flush where
  "flush os \<equiv> win_flush_outbound os enc win_client_message_handles produce"

lemma flush_total:
  assumes "hinv (handler d)"
  shows "\<exists>r. flush os d b w = Some r"
  using assms
proof (induction "pending (handler d)" arbitrary: d b w)
  case Nil
  obtain r h where p: "produce (handler d) = (r, h)" by (cases "produce (handler d)")
  have "\<And>x. r \<noteq> Ok (Some x)" using produce_some [OF Nil.prems] p Nil.hyps by fastforce
  then show ?case by (subst win_flush_outbound.simps) (auto simp: p split: res.split option.split)
next
  case (Cons x xs)
  obtain r h where p: "produce (handler d) = (r, h)" by (cases "produce (handler d)")
  show ?case
  proof (cases "\<exists>y. r = Ok (Some y)")
    case True
    then obtain y where "r = Ok (Some y)" by blast
    with produce_some [OF Cons.prems] p Cons.hyps(2) have "xs = pending h" "hinv h" by fastforce+
    then have "\<exists>r. flush os (d\<lparr>codec := c, handler := h\<rparr>) b w = Some r" for c b w
      using Cons.hyps(1) [of "d\<lparr>codec := c, handler := h\<rparr>" b] by simp
    with \<open>r = Ok (Some y)\<close> show ?thesis
      by (subst win_flush_outbound.simps) (auto simp: p split: res.split option.split prod.split)
  qed (subst win_flush_outbound.simps, auto simp: p split: res.split option.split)
qed

text \<open>One round of the loop, for a message that can be sent.\<close>

lemma flush_step:
  assumes "produce (handler d) = (Ok (Some m), h)"
    and "win_detach_handle os win_client_message_handles m w = (q, m', w1)"
    and "enc (codec d) m' (wb_buf b) = (re, c, buf)"
  shows "flush os d b w = (case q of
      Err e \<Rightarrow> Some (Err e, d\<lparr>handler := h\<rparr>, b, w1)
    | Panic \<Rightarrow> Some (Panic, d\<lparr>handler := h\<rparr>, b, w1)
    | Ok ro \<Rightarrow> (case re of
        Err e \<Rightarrow> Some (Err e, d\<lparr>codec := c, handler := h\<rparr>, b\<lparr>wb_buf := buf\<rparr>, drop_handle_opt os ro w1)
      | Panic \<Rightarrow> Some (Panic, d\<lparr>codec := c, handler := h\<rparr>, b\<lparr>wb_buf := buf\<rparr>, w1)
      | Ok _ \<Rightarrow> if ro \<noteq> None \<and> HANDLE_QUEUE_LIMIT \<le> length (wb_handles b)
          then Some (Panic, d\<lparr>codec := c, handler := h\<rparr>, b\<lparr>wb_buf := buf\<rparr>, w1)
          else flush os (d\<lparr>codec := c, handler := h\<rparr>)
            \<lparr>wb_buf = buf, wb_handles = wb_handles b @ (case ro of None \<Rightarrow> [] | Some r \<Rightarrow> [r])\<rparr> w1))"
proof -
  obtain bs hs where b: "b = \<lparr>wb_buf = bs, wb_handles = hs\<rparr>" by (cases b)
  from assms(3) b have e: "enc (codec d) m' bs = (re, c, buf)" by simp
  show ?thesis
    by (subst win_flush_outbound.simps)
      (auto simp: assms(1,2) e b win_push_handle_def split: res.split option.split)
qed

text \<open>What a message's turn in the loop can come to, by cases.\<close>

lemma flush_nothing:
  assumes "hinv (handler d)" and "pending (handler d) = []" and "flush os d b w = Some (r, d', b', w')"
  shows "b' = b" and "w' = w" and "r \<noteq> Panic" and "r = Ok () \<Longrightarrow> pending (handler d') = []"
proof -
  obtain q h where p: "produce (handler d) = (q, h)" by (cases "produce (handler d)")
  have "\<And>x. q \<noteq> Ok (Some x)" "q \<noteq> Panic"
    using produce_some [OF assms(1)] produce_safe [OF assms(1)] p assms(2) by fastforce+
  with assms(3) p have "b' = b \<and> w' = w \<and> r \<noteq> Panic \<and> (r = Ok () \<longrightarrow> pending (handler d') = [])"
    by (subst (asm) win_flush_outbound.simps)
      (auto dest: produce_none [OF assms(1)] split: res.splits option.splits)
  then show "b' = b" "w' = w" "r \<noteq> Panic" "r = Ok () \<Longrightarrow> pending (handler d') = []" by blast+
qed

lemma flush_round:
  assumes c: "win_contract self V os" and i: "hinv (handler d)" and ms: "pending (handler d) = m # ms" "win_cm_sendable m"
    and f: "flush os d b w = Some (r, d', b', w')"
  obtains (failed) e where "r = Err e" and "wb_handles b' = wb_handles b" and "wv_alive V w' = wv_alive V w"
      and "others self (wv_tab V w') = others self (wv_tab V w)"
    | (dropped) e ro w1 where "r = Err e" and "wb_handles b' = wb_handles b" and "w' = drop_handle_opt os ro w1"
      and "granted self V w w1 m ro" and "wv_tab V w1 = granted_tab self V w ro" and "wv_alive V w1 = wv_alive V w"
    | (full) ro where "r = Panic" and "cm_has_associated_handle m" and "HANDLE_QUEUE_LIMIT \<le> length (wb_handles b)"
    | (sent) ro w1 ce h buf fr where "pending h = ms" and "hinv h" and "granted self V w w1 m ro"
      and "wv_tab V w1 = granted_tab self V w ro" and "wv_alive V w1 = wv_alive V w"
      and "buf = wb_buf b @ fr" and "wire (sent_as m ro) fr"
      and "ro = None \<or> length (wb_handles b) < HANDLE_QUEUE_LIMIT"
      and "flush os (d\<lparr>codec := ce, handler := h\<rparr>)
        \<lparr>wb_buf = buf, wb_handles = wb_handles b @ (case ro of None \<Rightarrow> [] | Some r \<Rightarrow> [r])\<rparr> w1 = Some (r, d', b', w')"
proof -
  obtain q0 h where p: "produce (handler d) = (q0, h)" by (cases "produce (handler d)")
  show thesis
  proof (cases "\<exists>y. q0 = Ok (Some y)")
    case False
    with f p produce_safe [OF i] produce_none [OF i] ms(1) have "\<exists>e. r = Err e \<and> b' = b \<and> w' = w"
      by (subst (asm) win_flush_outbound.simps) (auto split: res.splits option.splits)
    then show thesis using failed by auto
  next
    case True
    then have q0: "q0 = Ok (Some m)" and h: "pending h = ms" "hinv h"
      using produce_some [OF i] p ms(1) by fastforce+
    obtain q m' w1 where de: "win_detach_handle os win_client_message_handles m w = (q, m', w1)"
      by (metis prod.exhaust)
    obtain re ce buf where en: "enc (codec d) m' (wb_buf b) = (re, ce, buf)" by (metis prod.exhaust)
    note step = flush_step [OF p [unfolded q0] de en, unfolded f] and det = win_detach_tab [OF c ms(2) de]
    show thesis
    proof (cases q)
      case (Err e)
      with step det show thesis using failed by auto
    next
      case Panic
      with det show thesis by simp
    next
      case (Ok ro)
      with det have g: "granted self V w w1 m ro" "m' = sent_as m ro" "wv_alive V w1 = wv_alive V w"
        and t: "wv_tab V w1 = granted_tab self V w ro" by (simp_all add: granted_tab_def)
      from enc_safe [OF sent_as_values [OF g(1)], of "codec d" "wb_buf b"] g(2) en have safe: "re \<noteq> Panic" by simp
      have ro: "ro \<noteq> None \<longleftrightarrow> cm_has_associated_handle m" using g(1) by (auto simp: granted_def split: if_splits)
      show thesis
      proof (cases re)
        case (Err e)
        with step Ok dropped [OF _ _ _ g(1) t g(3)] show thesis by simp
      next
        case (Ok u)
        with enc_wire [OF sent_as_values [OF g(1)]] en g(2) obtain fr where
          fr: "buf = wb_buf b @ fr" "wire (sent_as m ro) fr" by (cases u) blast
        show thesis
        proof (cases "ro \<noteq> None \<and> HANDLE_QUEUE_LIMIT \<le> length (wb_handles b)")
          case True
          with step \<open>q = Ok ro\<close> Ok ro full show thesis by simp
        next
          case False
          with step \<open>q = Ok ro\<close> Ok sent [OF h g(1) t g(3) fr] show thesis by (auto simp: not_le)
        qed
      qed (use safe in simp)
    qed
  qed
qed

text \<open>A flush that succeeds has sent every pending message, each with its handle's value in the target.\<close>

lemma flush_ok:
  assumes c: "win_contract self V os"
    and "hinv (handler d)" and "list_all win_cm_sendable (pending (handler d))"
    and "\<And>m h pid. m \<in> set (pending (handler d)) \<Longrightarrow> WinOwned h (Some pid) \<in> set_client_message m \<Longrightarrow>
      wv_tab V w (self, h) \<noteq> None"
    and "flush os d b w = Some (Ok (), d', b', w')"
  shows "\<exists>ros frs. wb_buf b' = wb_buf b @ concat frs \<and> wb_handles b' = wb_handles b @ List.map_filter id ros \<and>
    list_all2 wire (map2 sent_as (pending (handler d)) ros) frs \<and>
    list_all2 (granted self V w w') (pending (handler d)) ros \<and> wv_tab V w \<subseteq>\<^sub>m wv_tab V w' \<and>
    pending (handler d') = []"
  using assms(2-)
proof (induction "pending (handler d)" arbitrary: d b w)
  case Nil
  from flush_nothing [OF Nil.prems(1) Nil.hyps [symmetric] Nil.prems(4)] show ?case
    by (auto simp flip: Nil.hyps simp: map_filter_simps)
next
  case (Cons m ms)
  have ms: "pending (handler d) = m # ms" "win_cm_sendable m" "list_all win_cm_sendable ms"
    using Cons.prems(2) by (simp_all flip: Cons.hyps(2))
  have src: "wv_tab V w (self, h) \<noteq> None" if "WinOwned h (Some pid) \<in> set_client_message x" "x \<in> set (m # ms)" for h pid x
    using Cons.prems(3) [of x h pid] ms(1) that by simp
  from c Cons.prems(1) ms(1,2) Cons.prems(4) show ?case
  proof (cases rule: flush_round)
    case (sent ro w1 ce h buf fr)
    have le: "wv_tab V w \<subseteq>\<^sub>m wv_tab V w1"
      using granted_le [OF sent(3)] sent(4) by simp
    have "wv_tab V w1 (self, h) \<noteq> None" if "x \<in> set ms" "WinOwned h (Some pid) \<in> set_client_message x" for x h pid
      using src [OF that(2)] that(1) le by (metis domIff list.set_intros(2) map_le_implies_dom_le subsetD)
    with Cons.hyps(1) [OF _ _ _ _ sent(9)] sent(1,2) ms(3) obtain ros frs where ih: "wb_buf b' = buf @ concat frs"
      "wb_handles b' = wb_handles b @ (case ro of None \<Rightarrow> [] | Some r \<Rightarrow> [r]) @ List.map_filter id ros"
      "list_all2 wire (map2 sent_as ms ros) frs" "list_all2 (granted self V w1 w') ms ros"
      "wv_tab V w1 \<subseteq>\<^sub>m wv_tab V w'" "pending (handler d') = []"
      by auto
    have "list_all2 (granted self V w w') ms ros"
      using ih(4) by (rule list.rel_mono_strong) (meson granted_mono le map_le_refl src list.set_intros(2))
    moreover have "granted self V w w' m ro"
      using granted_mono [OF sent(3) map_le_refl ih(5)] src by auto
    ultimately show ?thesis
      using ih(1,2,3,6) sent(6,7) ms(1) map_le_trans [OF le ih(5)]
      by (intro exI [of _ "ro # ros"] exI [of _ "fr # frs"]) (auto simp: map_filter_simps split: option.split)
  qed simp_all
qed

text \<open>A flush panics only on too many handles.\<close>

lemma flush_panic:
  assumes c: "win_contract self V os"
    and "hinv (handler d)" and "list_all win_cm_sendable (pending (handler d))"
    and "length (wb_handles b) \<le> HANDLE_QUEUE_LIMIT"
    and "flush os d b w = Some (Panic, d', b', w')"
  shows "HANDLE_QUEUE_LIMIT < length (wb_handles b) + length (filter cm_has_associated_handle (pending (handler d)))"
  using assms(2-)
proof (induction "pending (handler d)" arbitrary: d b w)
  case Nil
  from flush_nothing [OF Nil.prems(1) Nil.hyps [symmetric] Nil.prems(4)] show ?case by blast
next
  case (Cons m ms)
  have ms: "pending (handler d) = m # ms" "win_cm_sendable m" "list_all win_cm_sendable ms"
    using Cons.prems(2) by (simp_all flip: Cons.hyps(2))
  from c Cons.prems(1) ms(1,2) Cons.prems(4) show ?case
  proof (cases rule: flush_round)
    case (sent ro w1 ce h buf fr)
    from sent(3) have ro: "ro \<noteq> None \<longleftrightarrow> cm_has_associated_handle m" by (auto simp: granted_def split: if_splits)
    with Cons.hyps(1) [OF _ _ _ _ sent(9)] sent(1,2,8) ms Cons.prems(3) show ?thesis by (cases ro) auto
  qed (use ms(1) in auto)
qed

text \<open>
  Whatever a flush did, dropping the handles it leaves in the buffer restores the tables of the other
  processes to what they would be without the flush.
\<close>

lemma flush_undone:
  assumes c: "win_contract self V os"
    and "hinv (handler d)" and "list_all win_cm_sendable (pending (handler d))"
    and "\<And>m h pid. m \<in> set (pending (handler d)) \<Longrightarrow> WinOwned h (Some pid) \<in> set_client_message m \<Longrightarrow>
      wv_alive V w pid"
    and "droppable V w (wb_handles b)" and "flush os d b w = Some (r, d', b', w')" and "r \<noteq> Panic"
  shows "after_drop self V b' w' = after_drop self V b w \<and>
    droppable V w' (wb_handles b') \<and> wv_alive V w' = wv_alive V w"
  using assms(2-)
proof (induction "pending (handler d)" arbitrary: d b w)
  case Nil
  from flush_nothing [OF Nil.prems(1) Nil.hyps [symmetric] Nil.prems(5)] Nil.prems(4) show ?case by simp
next
  case (Cons m ms)
  have ms: "pending (handler d) = m # ms" "win_cm_sendable m" "list_all win_cm_sendable ms"
    using Cons.prems(2) by (simp_all flip: Cons.hyps(2))
  have target: "wv_alive V w (rh_target x)" if "granted self V w w1 m (Some x)" for w1 x
  proof -
    from that obtain h pid where "WinOwned h (Some pid) \<in> set_client_message m" "rh_target x = pid"
      unfolding granted_def by (metis insertI1 option.distinct(1) option.inject remote_handle.select_convs(2))
    with Cons.prems(3) ms(1) show ?thesis by (metis list.set_intros(1))
  qed
  from c Cons.prems(1) ms(1,2) Cons.prems(5) show ?case
  proof (cases rule: flush_round)
    case (failed e)
    with Cons.prems(4) others_released [OF failed(4)] show ?thesis by (simp add: after_drop_def droppable_def)
  next
    case (dropped e ro w1)
    let ?rs = "case ro of None \<Rightarrow> [] | Some r \<Rightarrow> [r]"
    have "droppable V w1 ?rs" using target dropped(4,6) by (auto simp: droppable_def split: option.split)
    note dr = drop_handles_tab [OF c this]
    have "w' = drop_handles os ?rs w1" using dropped(3) by (simp add: drop_handle_opt_def split: option.split)
    with dr dropped Cons.prems(4) grant_released [OF dropped(4,5), of "?rs @ wb_handles b" b] show ?thesis
      by (simp add: after_drop_def droppable_def)
  next
    case (sent ro w1 ce h buf fr)
    let ?b = "\<lparr>wb_buf = buf, wb_handles = wb_handles b @ (case ro of None \<Rightarrow> [] | Some r \<Rightarrow> [r])\<rparr>"
    have "droppable V w1 (wb_handles ?b)"
      using target sent(3,5) Cons.prems(4) by (auto simp: droppable_def split: option.splits)
    moreover have "wv_alive V w1 pid" if "x \<in> set ms" "WinOwned y (Some pid) \<in> set_client_message x" for x y pid
      using Cons.prems(3) [of x y pid] ms(1) that sent(5) by simp
    ultimately have "after_drop self V b' w' = after_drop self V ?b w1 \<and>
        droppable V w' (wb_handles b') \<and> wv_alive V w' = wv_alive V w1"
      using Cons.hyps(1) [OF _ _ _ _ _ sent(9)] sent(1,2) ms(3) Cons.prems(6) by auto
    moreover have "after_drop self V ?b w1 = after_drop self V b w"
      using grant_released [OF sent(3,4), of "wb_handles ?b" b] unfolding after_drop_def by auto
    ultimately show ?thesis using sent(5) by simp
  qed (use Cons.prems(6) in simp)
qed

end

section \<open>The inbound loop\<close>

text \<open>
  With no handle queued, the loop is the one of the other platform for messages without handles, over a
  handler that first makes the handle of a message its own.
\<close>

definition own_handle ::
  "'m win_handle_ops \<Rightarrow> ('m \<Rightarrow> 'h \<Rightarrow> (io_error, unit) res \<times> 'h) \<Rightarrow> 'm \<Rightarrow> 'h \<Rightarrow> (io_error, unit) res \<times> 'h" where
  "own_handle ops consume m h = (case win_attach_handle ops m \<lparr>wb_buf = [], wb_handles = []\<rparr> of
     (Ok m', _) \<Rightarrow> consume m' h | (Err e, _) \<Rightarrow> (Err e, h) | (Panic, _) \<Rightarrow> (Panic, h))"

definition as_win :: "(io_error, bool) res \<times> 'd \<times> conn_buf \<Rightarrow> (io_error, bool) res \<times> 'd \<times> win_buf" where
  "as_win = (\<lambda>(r, d, b). (r, d, \<lparr>wb_buf = cb_buf b, wb_handles = []\<rparr>))"

lemma win_attach_empty:
  "win_attach_handle ops m \<lparr>wb_buf = buf, wb_handles = []\<rparr> =
     (fst (win_attach_handle ops m \<lparr>wb_buf = [], wb_handles = []\<rparr>), \<lparr>wb_buf = buf, wb_handles = []\<rparr>)"
  by (auto simp: win_attach_handle_def win_pop_handle_def split: res.split prod.split)

fun win_receive_chunks ::
  "('c \<Rightarrow> byte list \<Rightarrow> (io_error, 'm option) res \<times> 'c \<times> byte list) \<Rightarrow> 'm win_handle_ops \<Rightarrow>
   ('m \<Rightarrow> 'h \<Rightarrow> (io_error, unit) res \<times> 'h) \<Rightarrow> byte list list \<Rightarrow> ('c, 'h) framed_driver \<Rightarrow> win_buf \<Rightarrow>
   ((io_error, bool) res \<times> ('c, 'h) framed_driver \<times> win_buf) option" where
  "win_receive_chunks dec ops consume [] d b = Some (Ok False, d, b)"
| "win_receive_chunks dec ops consume (bs # cs) d b =
     (case win_process_inbound dec ops consume d (snd (win_recv_msg (SysRet bs) b)) of
        Some (Ok False, d', b') \<Rightarrow> win_receive_chunks dec ops consume cs d' b'
      | r \<Rightarrow> r)"

context message_codec
begin

lemma win_process_inbound_as:
  "win_process_inbound dec ops consume d \<lparr>wb_buf = buf, wb_handles = []\<rparr> =
   map_option as_win (process_inbound dec default_handle_ops (own_handle ops consume) d \<lparr>cb_buf = buf, cb_handles = []\<rparr>)"
proof (induction "length (view (codec d) buf)" arbitrary: d buf rule: less_induct)
  case less
  obtain r c buf' where dec: "dec (codec d) buf = (r, c, buf')" by (metis prod.exhaust)
  show ?case
  proof (cases "\<exists>itm. r = Ok (Some itm)")
    case True
    then obtain itm where r: "r = Ok (Some itm)" by blast
    from progress dec r have "length (view c buf') < length (view (codec d) buf)" by simp
    note ih = less [of "d\<lparr>codec := c, handler := h\<rparr>" buf' for h, simplified, OF this]
    obtain ra b' where a: "win_attach_handle ops itm \<lparr>wb_buf = [], wb_handles = []\<rparr> = (ra, b')"
      by (metis prod.exhaust)
    show ?thesis
      by (subst win_process_inbound.simps, subst process_inbound.simps)
        (simp add: dec r a win_attach_empty [of ops itm buf'] attach_handle_def default_handle_ops_def
          own_handle_def ih as_win_def split: res.split prod.split)
  next
    case False
    then show ?thesis
      by (subst win_process_inbound.simps, subst process_inbound.simps)
        (auto simp: dec as_win_def split: res.split option.split)
  qed
qed

lemma win_receive_chunks_as:
  "win_receive_chunks dec ops consume cs d \<lparr>wb_buf = buf, wb_handles = []\<rparr> =
   map_option as_win (receive_chunks dec default_handle_ops (own_handle ops consume) (map (\<lambda>bs. (bs, [])) cs) d
     \<lparr>cb_buf = buf, cb_handles = []\<rparr>)"
proof (induction cs arbitrary: d buf)
  case (Cons bs cs)
  obtain p where p: "process_inbound dec default_handle_ops (own_handle ops consume) d
      \<lparr>cb_buf = buf @ bs, cb_handles = []\<rparr> = Some p" "cb_handles (snd (snd p)) = []"
  proof -
    obtain r d' b' where "process_inbound dec default_handle_ops (own_handle ops consume) d
        \<lparr>cb_buf = buf @ bs, cb_handles = []\<rparr> = Some (r, d', b')"
      using process_inbound_drained by blast
    moreover from process_inbound_handles [OF this] have "cb_handles b' = []" by simp
    ultimately show thesis using that by simp
  qed
  obtain r d' b' where "p = (r, d', \<lparr>cb_buf = b', cb_handles = []\<rparr>)"
    using p(2) by (metis conn_buf.cases conn_buf.select_convs(2) prod.exhaust_sel)
  with p Cons.IH show ?case
    by (simp add: win_recv_msg_def win_process_inbound_as as_win_def split: res.split bool.split)
qed (simp add: as_win_def)

text \<open>Whole frames received in pieces: the handler consumes their messages, each with a handle of its own.\<close>

lemma win_receive_frames:
  assumes "list_all2 wire ms frs" and "cinv (codec d)" and "cs \<noteq> []" and "view (codec d) [] = []"
    and "concat cs = concat frs"
    and "list_all2 (\<lambda>m m'. fst (win_attach_handle ops m \<lparr>wb_buf = [], wb_handles = []\<rparr>) = Ok m') ms ms'"
    and "consume_all consume ms' (handler d) = (Ok (), h')"
  shows "\<exists>c' buf'. win_receive_chunks dec ops consume cs d \<lparr>wb_buf = [], wb_handles = []\<rparr> =
      Some (Ok False, \<lparr>codec = c', handler = h'\<rparr>, \<lparr>wb_buf = buf', wb_handles = []\<rparr>) \<and> cinv c' \<and> view c' buf' = []"
proof -
  have a: "attach_all default_handle_ops ms [] = Some (ms, [])"
    by (induction ms) (simp_all add: attach_handle_def default_handle_ops_def)
  have "consume_all (own_handle ops consume) ms h = consume_all consume ms' h" for h
    using assms(6) by (induction arbitrary: h rule: list_all2_induct) 
      (auto simp: own_handle_def split: prod.split res.split)
  with assms(7) have "consume_all (own_handle ops consume) ms (handler d) = (Ok (), h')" by simp
  with receive_chunks_frames [OF assms(1,2), of "[]" "map (\<lambda>bs. (bs, [])) cs" "\<lparr>cb_buf = [], cb_handles = []\<rparr>"
      default_handle_ops ms "[]" "own_handle ops consume" h'] assms(3-5) a
  obtain c' buf' where "receive_chunks dec default_handle_ops (own_handle ops consume) (map (\<lambda>bs. (bs, [])) cs) d
      \<lparr>cb_buf = [], cb_handles = []\<rparr> = Some (Ok False, \<lparr>codec = c', handler = h'\<rparr>, \<lparr>cb_buf = buf', cb_handles = []\<rparr>)"
    "cinv c'" "view c' buf' = []"
    by (auto simp: incomplete_def comp_def)
  then show ?thesis by (simp add: win_receive_chunks_as as_win_def)
qed

end

section \<open>The server's connections\<close>

lemma win_wire_values:
  assumes "set_client_message m \<subseteq> range WinValue"
  shows "map_client_message (\<lambda>s. win_handle_of_i64 (win_i64_of_handle s)) m = m"
proof -
  have "map_client_message (\<lambda>s. win_handle_of_i64 (win_i64_of_handle s)) m = map_client_message id m"
    using assms by (intro client_message.map_cong)
      (auto simp: win_i64_of_handle_def win_get_serializable_value_def win_handle_to_i64_def win_handle_of_i64_def)
  then show ?thesis by (simp add: client_message.map_id)
qed

lemma win_client_message_contract:
  assumes "bincode_contract id btx brx"
  shows "bincode_contract (map_client_message (\<lambda>s. win_handle_of_i64 (win_i64_of_handle s)))
    (win_client_message_tx btx) (win_client_message_rx brx)"
  using assms
  by (auto simp: bincode_contract_def win_client_message_tx_def win_client_message_rx_def
      client_message.map_comp comp_def split: if_splits)

lemma win_server_link:
  assumes c: "bincode_contract id btx brx" and p: "never_panics btx"
  shows "win_sender (server_consume process) server_produce responses (\<lambda>_. True)
    (encode (win_client_message_tx btx)) (wire_frame (win_client_message_rx brx))"
proof (intro win_sender.intro win_sender_axioms.intro sh.rpc_handler_axioms)
  note c' = win_client_message_contract [OF c]
  fix m e buf e' buf'
  assume v: "set_client_message m \<subseteq> range WinValue"
  show "\<exists>fr. buf' = buf @ fr \<and> wire_frame (win_client_message_rx brx) m fr"
    if "encode (win_client_message_tx btx) e m buf = (Ok (), e', buf')"
    using encode_wire [OF c' that] win_wire_values [OF v] by simp
  have "\<not> (\<exists>h \<in> set_client_message m. win_handle_panics h)"
    using v by (auto simp: win_handle_panics_def win_get_serializable_value_def)
  with p have "bc_serialize_into (win_client_message_tx btx) (unat MAX_MESSAGE_LEN) m \<noteq> SerPanic"
    by (simp add: win_client_message_tx_def never_panics_def)
  with encode_no_panic [OF c'] show "fst (encode (win_client_message_tx btx) e m buf) \<noteq> Panic" by blast
qed

interpretation win_server: win_sender "server_consume process" server_produce responses "\<lambda>_. True"
  "encode (win_client_message_tx (table_bincode t))" "wire_frame (win_client_message_rx (table_bincode t))"
  for process t
  by (rule win_server_link [OF table_bincode_contract table_bincode_safe])

end
