(* ===== verification/WinSpec.thy ===== *)
theory WinSpec
  imports WinRemoting
begin

text \<open>
  The properties of the remoting of handles on Windows, and a small system that meets \<open>win_contract\<close>: its state
  is the list of the open handles of all processes.
\<close>

section \<open>Properties\<close>

text \<open>The message the receiver ends with has a handle of its own for the object of the sender's handle, which is closed.\<close>

definition handed_over ::
  "u32 \<Rightarrow> 'w win_view \<Rightarrow> 'w \<Rightarrow> 'w \<Rightarrow> win_serializable client_message \<Rightarrow> win_serializable client_message \<Rightarrow> bool" where
  "handed_over self V w w' m m' \<longleftrightarrow> (if cm_has_associated_handle m
     then \<exists>h pid v. set_client_message m = {WinOwned h (Some pid)} \<and>
       m' = map_client_message (\<lambda>_. WinOwned v None) m \<and> wv_tab V w (pid, v) = None \<and>
       wv_tab V w (self, h) \<noteq> None \<and> wv_tab V w' (pid, v) = wv_tab V w (self, h) \<and> wv_tab V w' (self, h) = None
     else m' = m)"

definition sources_open :: "u32 \<Rightarrow> 'w win_view \<Rightarrow> 'w \<Rightarrow> win_serializable client_message list \<Rightarrow> bool" where
  "sources_open self V w ms \<longleftrightarrow> (\<forall>m \<in> set ms. \<forall>s \<in> set_client_message m. case s of
     WinOwned h _ \<Rightarrow> wv_tab V w (self, h) \<noteq> None | _ \<Rightarrow> True)"

definition targets_alive :: "'w win_view \<Rightarrow> 'w \<Rightarrow> win_serializable client_message list \<Rightarrow> bool" where
  "targets_alive V w ms \<longleftrightarrow> (\<forall>m \<in> set ms. \<forall>s \<in> set_client_message m. case s of
     WinOwned _ (Some pid) \<Rightarrow> wv_alive V w pid | _ \<Rightarrow> True)"

lemma attach_sent:
  assumes "granted self V w w' m ro"
  shows "fst (win_attach_handle win_client_message_handles (sent_as m ro) \<lparr>wb_buf = [], wb_handles = []\<rparr>) =
    Ok (received_as m ro)"
proof (cases "cm_has_associated_handle m")
  case True
  with assms obtain h pid v where "ro = Some \<lparr>rh_handle = h, rh_target = pid, rh_target_handle = Some v\<rparr>"
    "win_valid_handle v" unfolding granted_def by metis
  with True win_set_local [OF True, of v] show ?thesis
    by (simp add: win_attach_handle_def win_pop_handle_def win_client_message_handles_def sent_as_def received_as_def)
next
  case False
  with assms show ?thesis
    by (simp add: granted_def sent_as_def received_as_def win_attach_handle_def win_client_message_handles_def)
qed

lemma handed_over_sent:
  assumes g: "list_all2 (granted self V w w1) ms ros" and src: "sources_open self V w ms"
    and tab: "\<And>k. wv_tab V w2 k = (if \<exists>r \<in> set (List.map_filter id ros). k = (self, rh_handle r) then None else wv_tab V w1 k)"
  shows "list_all2 (handed_over self V w w2) ms (map2 received_as ms ros)"
proof -
  have open_src: "wv_tab V w (self, rh_handle r) \<noteq> None" if "r \<in> set (List.map_filter id ros)" for r
  proof -
    from that have "Some r \<in> set ros" by (auto simp: List.map_filter_def)
    then obtain i where i: "i < length ros" "ros ! i = Some r" by (auto simp: in_set_conv_nth)
    with g have "granted self V w w1 (ms ! i) (Some r)" by (metis list_all2_conv_all_nth)
    then show ?thesis unfolding granted_def
      by (metis option.distinct(1) option.inject remote_handle.select_convs(1))
  qed
  have one: "handed_over self V w w2 m (received_as m ro)" if "granted self V w w1 m ro" "ro \<in> set ros" for m ro
  proof (cases "cm_has_associated_handle m")
    case True
    with that(1) obtain h pid v where x: "set_client_message m = {WinOwned h (Some pid)}"
      "ro = Some \<lparr>rh_handle = h, rh_target = pid, rh_target_handle = Some v\<rparr>" "wv_tab V w (pid, v) = None"
      "wv_tab V w (self, h) \<noteq> None" "wv_tab V w1 (pid, v) = wv_tab V w (self, h)"
      unfolding granted_def by metis
    have q: "\<lparr>rh_handle = h, rh_target = pid, rh_target_handle = Some v\<rparr> \<in> set (List.map_filter id ros)"
      using that(2) x(2) by (force simp: List.map_filter_def)
    have "wv_tab V w2 (self, h) = None" using q by (subst tab) force
    moreover have "(pid, v) \<noteq> (self, rh_handle r)" if "r \<in> set (List.map_filter id ros)" for r
      using open_src [OF that] x(3) by auto
    then have "wv_tab V w2 (pid, v) = wv_tab V w1 (pid, v)" by (subst tab) auto
    ultimately show ?thesis using True x
      unfolding handed_over_def received_as_def by (auto intro: exI [of _ v])
  next
    case False
    with that(1) show ?thesis by (simp add: handed_over_def granted_def received_as_def)
  qed
  show ?thesis using g one
    by (auto simp: list_all2_conv_all_nth)
qed

text \<open>
  C7: on Windows, when a server has flushed its responses and a first part of the bytes is written, the
  client that receives the bytes, in whatever pieces, consumes the responses, all, once, in order.  In
  each, the handle is a new one of the client's process, for the object of the handle the server put into
  the response; the server's own handle is closed.
\<close>

theorem win_responses_reach_client:
  assumes c: "win_contract self V os" and b: "bincode_contract id btx brx" "never_panics btx"
    and "list_all win_cm_sendable (responses sh)" and src: "sources_open self V w (responses sh)"
    and flush: "win_flush_outbound os (encode (win_client_message_tx btx)) win_client_message_handles server_produce
      \<lparr>codec = e0, handler = sh\<rparr> \<lparr>wb_buf = [], wb_handles = []\<rparr> w = Some (Ok (), d, b1, w1)"
    and send: "wb_buf b1 \<noteq> []" "n \<le> length (wb_buf b1)" "win_send_msg os (SysRet n) b1 w1 = (q, b2, w2)"
    and pieces: "concat cs = wb_buf b1" and dec: "codec_inv c0" "unread c0 [] = []"
  shows "responses (handler d) = [] \<and> q = Ok n \<and> wb_handles b2 = [] \<and> (\<exists>ms.
    list_all2 (handed_over self V w w2) (responses sh) ms \<and>
    (\<forall>consume h h'. consume_all consume ms h = (Ok (), h') \<longrightarrow>
      (\<exists>c' buf. win_receive_chunks (decode (win_client_message_rx brx)) win_client_message_handles consume cs
         \<lparr>codec = c0, handler = h\<rparr> \<lparr>wb_buf = [], wb_handles = []\<rparr> =
         Some (Ok False, \<lparr>codec = c', handler = h'\<rparr>, \<lparr>wb_buf = buf, wb_handles = []\<rparr>) \<and> unread c' buf = [])))"
proof -
  note link = win_server_link [OF b, of undefined]
  have "wv_tab V w (self, h) \<noteq> None"
    if "m \<in> set (responses sh)" "WinOwned h (Some pid) \<in> set_client_message m" for m h pid
    using src that by (force simp: sources_open_def)
  with win_sender.flush_ok [OF link c _ _ _ flush] assms(4) obtain ros frs where
    f: "wb_buf b1 = concat frs" "wb_handles b1 = List.map_filter id ros"
      "list_all2 (wire_frame (win_client_message_rx brx)) (map2 sent_as (responses sh) ros) frs"
    and g: "list_all2 (granted self V w w1) (responses sh) ros" and d: "responses (handler d) = []" by auto
  note s = send_msg_tab [OF c send]
  let ?ms = "map2 received_as (responses sh) ros"
  from handed_over_sent [OF g src] s(4) f(2) have over: "list_all2 (handed_over self V w w2) (responses sh) ?ms" by simp
  have attached: "list_all2 (\<lambda>m m'. fst (win_attach_handle win_client_message_handles m
      \<lparr>wb_buf = [], wb_handles = []\<rparr>) = Ok m') (map2 sent_as (responses sh) ros) ?ms"
    using g by (auto simp: list_all2_conv_all_nth intro!: attach_sent)
  have cs: "cs \<noteq> []" "concat cs = concat frs" using pieces send(1) f(1) by auto
  have "\<exists>c' buf. win_receive_chunks (decode (win_client_message_rx brx)) win_client_message_handles consume cs
      \<lparr>codec = c0, handler = h\<rparr> \<lparr>wb_buf = [], wb_handles = []\<rparr> =
      Some (Ok False, \<lparr>codec = c', handler = h'\<rparr>, \<lparr>wb_buf = buf, wb_handles = []\<rparr>) \<and> unread c' buf = []"
    if "consume_all consume ?ms h = (Ok (), h')" for consume h h'
    using lc.win_receive_frames [OF f(3), of "\<lparr>codec = c0, handler = h\<rparr>" cs win_client_message_handles ?ms consume h']
      attached cs dec that by auto
  with d s(1,3) over show ?thesis by blast
qed

text \<open>
  C22: a flush of the server's responses on Windows always returns, and panics only when their handles do
  not fit the queue.  Whether it succeeded or failed halfway, dropping the connection's buffer leaves the
  handle tables of the other processes as if the flush had not happened: until bytes are
  written, the sender owns what it has put into the clients.
\<close>

theorem win_unsent_handles_taken_back:
  assumes c: "win_contract self V os" and b: "bincode_contract id btx brx" "never_panics btx"
    and "list_all win_cm_sendable (responses sh)" and t: "targets_alive V w (responses sh)"
    and "droppable V w (wb_handles b)" and "length (wb_handles b) \<le> HANDLE_QUEUE_LIMIT"
  shows "\<exists>r d' b' w'. win_flush_outbound os (encode (win_client_message_tx btx)) win_client_message_handles
      server_produce \<lparr>codec = e0, handler = sh\<rparr> b w = Some (r, d', b', w') \<and>
    (if r = Panic
     then HANDLE_QUEUE_LIMIT < length (wb_handles b) + length (filter cm_has_associated_handle (responses sh))
     else others self (wv_tab V (win_buf_drop os b' w')) = others self (wv_tab V (win_buf_drop os b w)))"
proof -
  note link = win_server_link [OF b, of undefined]
  obtain r d' b' w' where f: "win_flush_outbound os (encode (win_client_message_tx btx)) win_client_message_handles
      server_produce \<lparr>codec = e0, handler = sh\<rparr> b w = Some (r, d', b', w')"
    using win_sender.flush_total [OF link, where d = "\<lparr>codec = e0, handler = sh\<rparr>"] by (metis prod.exhaust)
  have "wv_alive V w pid"
    if "m \<in> set (responses sh)" "WinOwned h (Some pid) \<in> set_client_message m" for m h pid
    using t that by (force simp: targets_alive_def)
  with win_sender.flush_undone [OF link c _ _ _ assms(6) f] assms(4) have u: "r \<noteq> Panic \<Longrightarrow>
      after_drop self V b' w' = after_drop self V b w \<and> droppable V w' (wb_handles b')"
    by auto
  have "others self (wv_tab V (win_buf_drop os b' w')) = others self (wv_tab V (win_buf_drop os b w))" if "r \<noteq> Panic"
    using u [OF that] drop_handles_tab [OF c] assms(6) by (simp add: win_buf_drop_def after_drop_def)
  moreover have "HANDLE_QUEUE_LIMIT < length (wb_handles b) + length (filter cm_has_associated_handle (responses sh))"
    if "r = Panic"
    using win_sender.flush_panic [OF link c _ _ assms(7) f [unfolded that]] assms(4) by simp
  ultimately show ?thesis using f by auto
qed

text \<open>
  C38: any successful write gives away all queued handles, also those whose messages are not among the bytes
  written.  Before the write, dropping the connection closes them in their targets; after a write of
  even a single byte (or none) it leaves them open there, where no process knows of them unless
  the rest is sent.
\<close>

theorem win_write_gives_handles_away:
  assumes c: "win_contract self V os" and "droppable V w (wb_handles b)"
    and send: "wb_buf b \<noteq> []" "n \<le> length (wb_buf b)" "win_send_msg os (SysRet n) b w = (q, b', w')"
    and r: "r \<in> set (wb_handles b)" "rh_target_handle r = Some v" "rh_target r \<noteq> self"
  shows "q = Ok n \<and> wb_buf b' = drop n (wb_buf b) \<and>
    wv_tab V (win_buf_drop os b w) (rh_target r, v) = None \<and>
    wv_tab V (win_buf_drop os b' w') (rh_target r, v) = wv_tab V w (rh_target r, v)"
proof -
  note s = send_msg_tab [OF c send]
  have "owns self r (rh_target r, v)" using r(2) by (simp add: owns_def)
  with r(1) drop_handles_tab [OF c assms(2)] have "wv_tab V (win_buf_drop os b w) (rh_target r, v) = None"
    by (auto simp: win_buf_drop_def released_all_apply)
  moreover have "wv_tab V (win_buf_drop os b' w') (rh_target r, v) = wv_tab V w (rh_target r, v)"
    using s(3,4) r(3) by (simp add: win_buf_drop_def)
  ultimately show ?thesis using s(1,2) by blast
qed

section \<open>An example\<close>

text \<open>
  A system whose state is the list of the open handles; process 7 is this one.  A process handle is \<open>2 ^ 40\<close>
  more than the process id, and the handles given out are 4, 8 and 12.
\<close>

type_synonym demo_sys = "((u32 \<times> win_handle) \<times> nat) list"

definition demo_tab :: "demo_sys \<Rightarrow> u32 \<times> win_handle \<Rightarrow> nat option" where
  "demo_tab w k = (if unat (snd k) < 1000 then map_of w k else None)"

definition demo_proc :: "win_handle \<Rightarrow> u32 option" where
  "demo_proc h = (if h = -1 then Some 7
     else if 2 ^ 40 \<le> unat h \<and> unat h < 2 ^ 41 then Some (of_nat (unat h - 2 ^ 40)) else None)"

definition demo_view :: "demo_sys win_view" where
  "demo_view = \<lparr>wv_tab = demo_tab, wv_proc = (\<lambda>_. demo_proc), wv_alive = (\<lambda>_ _. True)\<rparr>"

definition demo_duplicate ::
  "win_handle \<Rightarrow> win_handle \<Rightarrow> win_handle \<Rightarrow> dup_option \<Rightarrow> demo_sys \<Rightarrow> bool \<times> win_handle \<times> demo_sys" where
  "demo_duplicate sp s tp opt w = (case opt of
     DUPLICATE_SAME_ACCESS \<Rightarrow> (case (demo_proc sp, demo_proc tp) of
         (Some spid, Some tpid) \<Rightarrow>
           (case (demo_tab w (spid, s), List.find (\<lambda>v. demo_tab w (tpid, v) = None) [4, 8, 12]) of
              (Some x, Some v) \<Rightarrow> (True, v, ((tpid, v), x) # w)
            | _ \<Rightarrow> (False, 0, w))
       | _ \<Rightarrow> (False, 0, w))
   | DUPLICATE_CLOSE_SOURCE \<Rightarrow> (case demo_proc sp of
         Some pid \<Rightarrow> (demo_tab w (pid, s) \<noteq> None, 0, AList.delete (pid, s) w)
       | None \<Rightarrow> (False, 0, w)))"

definition demo_win :: "demo_sys win_os" where
  "demo_win = \<lparr>GetCurrentProcess = -1, OpenProcess = (\<lambda>pid w. (of_nat (2 ^ 40 + unat pid), w)),
     DuplicateHandle = demo_duplicate,
     CloseHandle = (\<lambda>h w. if demo_proc h \<noteq> None then (True, w)
       else (demo_tab w (7, h) \<noteq> None, AList.delete (7, h) w))\<rparr>"

lemma unat_minus_one64: "unat (-1 :: win_handle) = 18446744073709551615"
  by (simp add: unsigned_minus_1_eq_mask mask_eq_exp_minus_1)

lemma demo_tab_delete: "demo_tab (AList.delete k w) = (demo_tab w)(k := None)"
  by (auto simp: demo_tab_def delete_conv fun_eq_iff)

lemma demo_tab_Cons: "unat (snd k) < 1000 \<Longrightarrow> demo_tab ((k, x) # w) = (demo_tab w)(k := Some x)"
  by (auto simp: demo_tab_def fun_eq_iff)

lemma demo_process_handle: "unat (of_nat (2 ^ 40 + unat (pid :: u32)) :: win_handle) = 2 ^ 40 + unat pid"
  using unat_lt_2p [of pid] by (intro unat_of_nat_small) simp

lemma demo_process_valid: "win_valid_handle (of_nat (2 ^ 40 + unat (pid :: u32)))"
proof -
  have "unat (of_nat (2 ^ 40 + unat pid) :: win_handle) \<noteq> unat (-1 :: win_handle)"
    using unat_lt_2p [of pid] unfolding demo_process_handle unat_minus_one64 by simp
  moreover have "unat (of_nat (2 ^ 40 + unat pid) :: win_handle) \<noteq> unat (0 :: win_handle)"
    unfolding demo_process_handle by simp
  ultimately show ?thesis unfolding win_valid_handle_def WIN_INVALID_HANDLE_VALUE_def by metis
qed

lemma demo_proc_open: "demo_proc (of_nat (2 ^ 40 + unat pid)) = Some pid"
proof -
  let ?h = "of_nat (2 ^ 40 + unat pid) :: win_handle"
  have h: "unat ?h = 2 ^ 40 + unat pid" by (rule demo_process_handle)
  have "unat pid < 2 ^ 32" using unat_lt_2p [of pid] by simp
  moreover have "?h \<noteq> -1"
    using demo_process_valid [of pid] unfolding win_valid_handle_def WIN_INVALID_HANDLE_VALUE_def by blast
  ultimately show ?thesis using h unfolding demo_proc_def by simp
qed

lemma demo_contract: "win_contract 7 demo_view demo_win"
proof -
  have "demo_tab w (7, h) \<noteq> None \<Longrightarrow> demo_proc h = None" for w h
    by (auto simp: demo_tab_def demo_proc_def unat_minus_one64 split: if_splits)
  moreover have "opens_processes demo_view demo_win"
    using demo_proc_open demo_process_valid
    by (auto simp: opens_processes_def demo_view_def demo_win_def)
  moreover have "closes_sources demo_view demo_win" "closes_handles 7 demo_view demo_win"
    by (auto simp: closes_sources_def closes_handles_def demo_view_def demo_win_def demo_duplicate_def
        demo_tab_delete split: if_splits option.splits)
  moreover have "duplicates_handles demo_view demo_win"
    unfolding duplicates_handles_def demo_view_def demo_win_def demo_duplicate_def
    by (auto simp: find_Some_iff demo_tab_Cons win_valid_handle_def WIN_INVALID_HANDLE_VALUE_def
        split: if_splits option.splits)
  ultimately show ?thesis by (simp add: win_contract_def demo_view_def demo_win_def demo_proc_def)
qed

text \<open>One response, whose handle 100 stands for the object 42 and goes to process 3.\<close>

definition demo_win_server :: "(unit, win_serializable client_message) server_handler" where
  "demo_win_server = \<lparr>server = (), responses = [StreamInitialized (WinOwned 100 (Some 3))]\<rparr>"

abbreviation demo_win_wire :: "(int client_message, int client_message) bincode" where
  "demo_win_wire \<equiv> table_bincode [StreamInitialized 4]"

abbreviation demo_remote :: remote_handle where
  "demo_remote \<equiv> \<lparr>rh_handle = 100, rh_target = 3, rh_target_handle = Some 4\<rparr>"

lemma demo_send_to_target:
  "send_to_target demo_win (remote_handle_new 100 3) [((7, 100), 42)] = (Ok 4, demo_remote, [((3, 4), 42), ((7, 100), 42)])"
proof -
  define H :: win_handle where "H = of_nat (2 ^ 40 + unat (3 :: u32))"
  have p: "demo_proc H = Some 3" "demo_proc (-1) = Some 7"
    unfolding H_def demo_proc_open by (simp_all add: demo_proc_def)
  have o: "open_target demo_win 3 w = (Ok H, w)" for w
    using demo_process_valid [of 3] by (simp add: open_target_def demo_win_def H_def del: of_nat_add)
  have du: "DuplicateHandle demo_win (GetCurrentProcess demo_win) 100 H DUPLICATE_SAME_ACCESS [((7, 100), 42)] =
      (True, 4, [((3, 4), 42), ((7, 100), 42)])"
    using p by (simp add: demo_win_def demo_duplicate_def demo_tab_def)
  have cl: "CloseHandle demo_win H w = (True, w)" for w
    using p by (simp add: demo_win_def)
  show ?thesis
    by (simp add: send_to_target_def duplicate_platform_handle_def and_then_def remote_handle_new_def o du cl Let_def)
qed

lemma demo_encode:
  "encode (win_client_message_tx demo_win_wire) e (StreamInitialized (WinValue 4)) [] =
     (Ok (), e\<lparr>encode_buf := [0]\<rparr>, frame [0])"
  by (simp add: encode_def win_client_message_tx_def table_bincode_def win_handle_panics_def
      win_get_serializable_value_def win_i64_of_handle_def win_handle_to_i64_def frame_def header_def Let_def)

lemma demo_win_flush:
  "\<exists>d. win_flush_outbound demo_win (encode (win_client_message_tx demo_win_wire)) win_client_message_handles
      server_produce \<lparr>codec = lcodec_default, handler = demo_win_server\<rparr> \<lparr>wb_buf = [], wb_handles = []\<rparr> [((7, 100), 42)] =
    Some (Ok (), d, \<lparr>wb_buf = frame [0], wb_handles = [demo_remote]\<rparr>, [((3, 4), 42), ((7, 100), 42)])"
proof -
  have d: "win_detach_handle demo_win win_client_message_handles (StreamInitialized (WinOwned 100 (Some 3))) [((7, 100), 42)] =
      (Ok (Some demo_remote), StreamInitialized (WinValue 4), [((3, 4), 42), ((7, 100), 42)])"
    using demo_send_to_target
    by (simp add: win_detach_handle_def win_ops_simps cm_has_associated_handle_def win_take_handle_for_send_def)
  show ?thesis
    by (subst win_flush_outbound.simps, simp add: demo_win_server_def server_produce_def d demo_encode
        win_push_handle_def HANDLE_QUEUE_LIMIT_def)
      (subst win_flush_outbound.simps, simp add: server_produce_def)
qed

lemma demo_server_ok:
  "list_all win_cm_sendable (responses demo_win_server)"
  "sources_open 7 demo_view [((7, 100), 42)] (responses demo_win_server)"
  "targets_alive demo_view w (responses demo_win_server)"
  by (simp_all add: demo_win_server_def win_cm_sendable_def sources_open_def targets_alive_def demo_view_def demo_tab_def)

lemma demo_frame: "frame [0 :: byte] \<noteq> []" "length (frame [0 :: byte]) = 13"
proof -
  show l: "length (frame [0 :: byte]) = 13" by (simp add: HEADER_LEN_def)
  then show "frame [0 :: byte] \<noteq> []" by (metis list.size(3) zero_neq_numeral)
qed

text \<open>Five bytes are written first, and the client receives the frame in two pieces.\<close>

theorem win_responses_reach_client_witness:
  "\<exists>d b1 w1 b2 w2 v c' buf. win_flush_outbound demo_win (encode (win_client_message_tx demo_win_wire))
      win_client_message_handles server_produce \<lparr>codec = lcodec_default, handler = demo_win_server\<rparr>
      \<lparr>wb_buf = [], wb_handles = []\<rparr> [((7, 100), 42)] = Some (Ok (), d, b1, w1) \<and>
    win_send_msg demo_win (SysRet 5) b1 w1 = (Ok 5, b2, w2) \<and> wb_handles b2 = [] \<and>
    demo_tab w2 (3, v) = Some 42 \<and> demo_tab w2 (7, 100) = None \<and>
    win_receive_chunks (decode (win_client_message_rx demo_win_wire)) win_client_message_handles (\<lambda>m h. (Ok (), h @ [m]))
      [take 5 (frame [0]), drop 5 (frame [0])] \<lparr>codec = lcodec_default, handler = []\<rparr> \<lparr>wb_buf = [], wb_handles = []\<rparr> =
      Some (Ok False, \<lparr>codec = c', handler = [StreamInitialized (WinOwned v None)]\<rparr>, \<lparr>wb_buf = buf, wb_handles = []\<rparr>)"
proof -
  obtain d where f: "win_flush_outbound demo_win (encode (win_client_message_tx demo_win_wire))
      win_client_message_handles server_produce \<lparr>codec = lcodec_default, handler = demo_win_server\<rparr>
      \<lparr>wb_buf = [], wb_handles = []\<rparr> [((7, 100), 42)] =
    Some (Ok (), d, \<lparr>wb_buf = frame [0], wb_handles = [demo_remote]\<rparr>, [((3, 4), 42), ((7, 100), 42)])"
    using demo_win_flush by blast
  let ?b = "\<lparr>wb_buf = frame [0], wb_handles = [demo_remote]\<rparr>"
  obtain q b2 w2 where s: "win_send_msg demo_win (SysRet 5) ?b [((3, 4), 42), ((7, 100), 42)] = (q, b2, w2)"
    by (metis prod.exhaust)
  have ne: "wb_buf ?b \<noteq> []" "5 \<le> length (wb_buf ?b)"
    "concat [take 5 (frame [0 :: byte]), drop 5 (frame [0])] = wb_buf ?b"
    using demo_frame by simp_all
  have c0: "codec_inv lcodec_default" "unread lcodec_default [] = []"
    by (simp_all add: codec_inv_def lcodec_default_def)
  from win_responses_reach_client [OF demo_contract table_bincode_contract table_bincode_safe demo_server_ok(1,2) f ne(1,2) s ne(3) c0]
  obtain ms where q: "q = Ok 5" "wb_handles b2 = []"
    and ms: "list_all2 (handed_over 7 demo_view [((7, 100), 42)] w2) (responses demo_win_server) ms"
    and rcv: "\<forall>consume (h :: win_serializable client_message list) h'. consume_all consume ms h = (Ok (), h') \<longrightarrow>
      (\<exists>c' buf. win_receive_chunks (decode (win_client_message_rx demo_win_wire)) win_client_message_handles consume
         [take 5 (frame [0]), drop 5 (frame [0])]
         \<lparr>codec = lcodec_default, handler = h\<rparr> \<lparr>wb_buf = [], wb_handles = []\<rparr> =
         Some (Ok False, \<lparr>codec = c', handler = h'\<rparr>, \<lparr>wb_buf = buf, wb_handles = []\<rparr>) \<and> unread c' buf = [])"
    by (elim conjE exE) (rule that)
  from ms obtain m' where m': "ms = [m']"
    and over: "handed_over 7 demo_view [((7, 100), 42)] w2 (StreamInitialized (WinOwned 100 (Some 3))) m'"
    by (auto simp: demo_win_server_def list_all2_Cons1)
  have w0: "demo_tab [((7, 100), 42)] (7, 100) = Some 42" by (simp add: demo_tab_def)
  from over obtain v where "m' = StreamInitialized (WinOwned v None)" "demo_tab w2 (3, v) = Some 42"
    "demo_tab w2 (7, 100) = None"
    unfolding handed_over_def by (auto simp: cm_has_associated_handle_def demo_view_def w0)
  with m' have v: "ms = [StreamInitialized (WinOwned v None)]" "demo_tab w2 (3, v) = Some 42"
    "demo_tab w2 (7, 100) = None" by simp_all
  let ?consume = "\<lambda>m h. (Ok (), h @ [m]) :: (io_error, unit) res \<times> win_serializable client_message list"
  have "consume_all ?consume ms [] = (Ok (), ms)" using v(1) by simp
  with rcv obtain c' buf where "win_receive_chunks (decode (win_client_message_rx demo_win_wire))
      win_client_message_handles ?consume [take 5 (frame [0]), drop 5 (frame [0])]
      \<lparr>codec = lcodec_default, handler = []\<rparr> \<lparr>wb_buf = [], wb_handles = []\<rparr> =
      Some (Ok False, \<lparr>codec = c', handler = ms\<rparr>, \<lparr>wb_buf = buf, wb_handles = []\<rparr>)" by blast
  with v f s q show ?thesis by blast
qed

text \<open>The same response, with a connection that is dropped before anything is written.\<close>

theorem win_unsent_handles_taken_back_witness:
  "\<exists>d b' w'. win_flush_outbound demo_win (encode (win_client_message_tx demo_win_wire))
      win_client_message_handles server_produce \<lparr>codec = lcodec_default, handler = demo_win_server\<rparr>
      \<lparr>wb_buf = [], wb_handles = []\<rparr> [((7, 100), 42)] = Some (Ok (), d, b', w') \<and>
    demo_tab w' (3, 4) = Some 42 \<and> demo_tab (win_buf_drop demo_win b' w') (3, 4) = None"
proof -
  obtain d where f: "win_flush_outbound demo_win (encode (win_client_message_tx demo_win_wire))
      win_client_message_handles server_produce \<lparr>codec = lcodec_default, handler = demo_win_server\<rparr>
      \<lparr>wb_buf = [], wb_handles = []\<rparr> [((7, 100), 42)] =
    Some (Ok (), d, \<lparr>wb_buf = frame [0], wb_handles = [demo_remote]\<rparr>, [((3, 4), 42), ((7, 100), 42)])"
    using demo_win_flush by blast
  have "droppable demo_view [((7, 100), 42)] (wb_handles \<lparr>wb_buf = [], wb_handles = []\<rparr>)"
    by (simp add: droppable_def)
  from win_unsent_handles_taken_back [OF demo_contract table_bincode_contract [of "[StreamInitialized 4]"]
      table_bincode_safe demo_server_ok(1,3) this, of lcodec_default]
  have "others 7 (demo_tab (win_buf_drop demo_win \<lparr>wb_buf = frame [0], wb_handles = [demo_remote]\<rparr>
      [((3, 4), 42), ((7, 100), 42)])) =
    others 7 (demo_tab (win_buf_drop demo_win \<lparr>wb_buf = [], wb_handles = []\<rparr> [((7, 100), 42)]))"
    by (simp add: f demo_view_def)
  then have "demo_tab (win_buf_drop demo_win \<lparr>wb_buf = frame [0], wb_handles = [demo_remote]\<rparr>
      [((3, 4), 42), ((7, 100), 42)]) (3, 4) =
    demo_tab (win_buf_drop demo_win \<lparr>wb_buf = [], wb_handles = []\<rparr> [((7, 100), 42)]) (3, 4)"
    unfolding others_eq by simp
  then have "demo_tab (win_buf_drop demo_win \<lparr>wb_buf = frame [0], wb_handles = [demo_remote]\<rparr>
      [((3, 4), 42), ((7, 100), 42)]) (3, 4) = None"
    by (simp add: win_buf_drop_def demo_tab_def [of "[((7, 100), 42)]"])
  moreover have "demo_tab [((3, 4), 42), ((7, 100), 42)] (3, 4) = Some 42" by (simp add: demo_tab_def)
  ultimately show ?thesis using f by blast
qed

text \<open>And with a connection that is dropped after one byte of the frame was written.\<close>

theorem win_write_gives_handles_away_witness:
  "\<exists>b' w'. win_send_msg demo_win (SysRet 1) \<lparr>wb_buf = [1, 2], wb_handles = [demo_remote]\<rparr>
      [((3, 4), 42), ((7, 100), 42)] = (Ok 1, b', w') \<and> wb_buf b' = [2] \<and>
    demo_tab (win_buf_drop demo_win b' w') (3, 4) = Some 42 \<and>
    demo_tab (win_buf_drop demo_win \<lparr>wb_buf = [1, 2], wb_handles = [demo_remote]\<rparr> [((3, 4), 42), ((7, 100), 42)]) (3, 4) = None"
proof -
  let ?b = "\<lparr>wb_buf = [1, 2], wb_handles = [demo_remote]\<rparr>"
  obtain q b' w' where s: "win_send_msg demo_win (SysRet 1) ?b [((3, 4), 42), ((7, 100), 42)] = (q, b', w')"
    by (metis prod.exhaust)
  have "droppable demo_view [((3, 4), 42), ((7, 100), 42)] (wb_handles ?b)"
    by (simp add: droppable_def demo_view_def)
  from win_write_gives_handles_away [OF demo_contract this _ _ s, of demo_remote 4] s show ?thesis
    by (simp add: demo_view_def) (simp add: demo_tab_def)
qed

end
