(* ===== verification/WinShm.thy ===== *)
theory WinShm
  imports WinSpec Shm
begin

text \<open>
  The Windows variant of \<open>audioipc/src/shm.rs\<close>: shared memory is a mapping object without a file, known by
  its handle, and a view of it.  The calls that create and map it are parameters.
\<close>

section \<open>SharedMem\<close>

text \<open>\<open>MapViewOfFile\<close> returns the address of the view and, here, the bytes at it.\<close>

record 'w win_mem =
  CreateFileMapping :: "u32 \<Rightarrow> u32 \<Rightarrow> 'w \<Rightarrow> win_handle \<times> 'w"
  MapViewOfFile :: "win_handle \<Rightarrow> usize \<Rightarrow> 'w \<Rightarrow> win_handle \<times> byte list \<times> 'w"
  UnmapViewOfFile :: "win_handle \<Rightarrow> 'w \<Rightarrow> bool \<times> 'w"
  GetLastError :: "'w \<Rightarrow> int"

record win_shared_mem =
  wsm_handle :: win_handle
  wsm_ptr :: win_handle
  wsm_size :: usize
  wsm_bytes :: "byte list"

definition u32_try_from :: "u64 \<Rightarrow> u32 option" where
  "u32_try_from n = (if unat n < 2 ^ 32 then Some (ucast n) else None)"

definition win_last_error :: "'w win_mem \<Rightarrow> 'w \<Rightarrow> 'b ipc_error" where
  "win_last_error mem w = ErrIo (IoError (OsKind (GetLastError mem w)) '''')"

definition map_view ::
  "'w win_mem \<Rightarrow> win_handle \<Rightarrow> usize \<Rightarrow> 'w \<Rightarrow> ('b ipc_error, win_shared_mem) res \<times> 'w" where
  "map_view mem h n w = (case MapViewOfFile mem h n w of (p, bytes, w1) \<Rightarrow>
     if \<not> win_valid_handle p then (Err (win_last_error mem w1), w1)
     else (Ok \<lparr>wsm_handle = h, wsm_ptr = p, wsm_size = n, wsm_bytes = bytes\<rparr>, w1))"

definition win_shared_mem_new ::
  "'w win_mem \<Rightarrow> usize \<Rightarrow> 'w \<Rightarrow> ('b ipc_error, win_shared_mem) res \<times> 'w" where
  "win_shared_mem_new mem n w =
     (case (u32_try_from (drop_bit 32 n), u32_try_from (and n 0xffffffff)) of
        (Some hi, Some lo) \<Rightarrow> (case CreateFileMapping mem hi lo w of (h, w1) \<Rightarrow>
          if \<not> win_valid_handle h then (Err (win_last_error mem w1), w1) else map_view mem h n w1)
      | _ \<Rightarrow> (Panic, w))"

definition win_shm_make_handle ::
  "'w win_os \<Rightarrow> win_shared_mem \<Rightarrow> 'w \<Rightarrow> ('b ipc_error, win_handle) res \<times> 'w" where
  "win_shm_make_handle os s w = (case win_platform_handle_duplicate os (wsm_handle s) w of (r, w1) \<Rightarrow> (map_err ErrIo r, w1))"

definition win_shared_mem_from ::
  "'w win_mem \<Rightarrow> win_handle \<Rightarrow> usize \<Rightarrow> 'w \<Rightarrow> ('b ipc_error, win_shared_mem) res \<times> 'w" where
  "win_shared_mem_from mem h n w = map_view mem h n w"

text \<open>The drop asserts that both calls succeed.\<close>

definition win_shared_mem_drop ::
  "'w win_os \<Rightarrow> 'w win_mem \<Rightarrow> win_shared_mem \<Rightarrow> 'w \<Rightarrow> ('e, unit) res \<times> 'w" where
  "win_shared_mem_drop os mem s w = (case UnmapViewOfFile mem (wsm_ptr s) w of (ok, w1) \<Rightarrow>
     if \<not> ok then (Panic, w1)
     else (case CloseHandle os (wsm_handle s) w1 of (ok, w2) \<Rightarrow> (if ok then Ok () else Panic, w2)))"

definition win_get_slice :: "win_shared_mem \<Rightarrow> usize \<Rightarrow> ('b ipc_error, byte list) res" where
  "win_get_slice s n =
     (if n \<le> wsm_size s then Ok (take (unat n) (wsm_bytes s)) else Err (ErrOther ''mmap size''))"

definition win_get_mut_slice_copy ::
  "win_shared_mem \<Rightarrow> usize \<Rightarrow> byte list \<Rightarrow> ('b ipc_error, win_shared_mem) res" where
  "win_get_mut_slice_copy s n src =
     (if n \<le> wsm_size s then
        (if length src = unat n then Ok (s\<lparr>wsm_bytes := src @ drop (unat n) (wsm_bytes s)\<rparr>) else Panic)
      else Err (ErrOther ''mmap size''))"

definition win_get_size :: "win_shared_mem \<Rightarrow> usize" where
  "win_get_size s = wsm_size s"

section \<open>What the program relies on\<close>

text \<open>
  A new mapping object has a new handle, a view has the size asked for, and neither mapping nor unmapping
  changes the handles; a view that was made can be removed, and a handle that is open can be closed.
\<close>

definition win_mem_contract :: "u32 \<Rightarrow> 'w win_view \<Rightarrow> 'w win_os \<Rightarrow> 'w win_mem \<Rightarrow> bool" where
  "win_mem_contract self V os mem \<longleftrightarrow>
     (\<forall>hi lo w h w'. CreateFileMapping mem hi lo w = (h, w') \<longrightarrow> win_valid_handle h \<longrightarrow>
        wv_tab V w (self, h) = None \<and> (\<exists>x. wv_tab V w' = (wv_tab V w)((self, h) := Some x))) \<and>
     (\<forall>h n w p bytes w'. MapViewOfFile mem h n w = (p, bytes, w') \<longrightarrow>
        wv_tab V w' = wv_tab V w \<and> (win_valid_handle p \<longrightarrow> length bytes = unat n)) \<and>
     (\<forall>p w ok w'. UnmapViewOfFile mem p w = (ok, w') \<longrightarrow>
        wv_tab V w' = wv_tab V w \<and> (win_valid_handle p \<longrightarrow> ok)) \<and>
     (\<forall>h w ok w'. CloseHandle os h w = (ok, w') \<longrightarrow> wv_tab V w (self, h) \<noteq> None \<longrightarrow> ok)"

lemma create_law:
  "win_mem_contract self V os mem \<Longrightarrow> CreateFileMapping mem hi lo w = (h, w') \<Longrightarrow> win_valid_handle h \<Longrightarrow>
   wv_tab V w (self, h) = None \<and> (\<exists>x. wv_tab V w' = (wv_tab V w)((self, h) := Some x))"
  unfolding win_mem_contract_def by (elim conjE) metis

lemma map_law:
  "win_mem_contract self V os mem \<Longrightarrow> MapViewOfFile mem h n w = (p, bytes, w') \<Longrightarrow>
   wv_tab V w' = wv_tab V w \<and> (win_valid_handle p \<longrightarrow> length bytes = unat n)"
  unfolding win_mem_contract_def by (elim conjE) metis

lemma unmap_law:
  "win_mem_contract self V os mem \<Longrightarrow> UnmapViewOfFile mem p w = (ok, w') \<Longrightarrow>
   wv_tab V w' = wv_tab V w \<and> (win_valid_handle p \<longrightarrow> ok)"
  unfolding win_mem_contract_def by (elim conjE) metis

lemma close_ok_law:
  "win_mem_contract self V os mem \<Longrightarrow> CloseHandle os h w = (ok, w') \<Longrightarrow> wv_tab V w (self, h) \<noteq> None \<Longrightarrow> ok"
  unfolding win_mem_contract_def by (elim conjE) metis

section \<open>Sizes\<close>

text \<open>A size is split into two halves that fit their type, so creating memory never panics on it.\<close>

lemma unat_high_half: "unat (drop_bit 32 (n :: u64)) = unat n div 2 ^ 32"
  by (simp add: drop_bit_eq_div unat_div_distrib)

lemma unat_low_half: "unat (and n 0xffffffff :: u64) = unat n mod 2 ^ 32"
proof -
  have m: "(0xffffffff :: u64) = mask 32" by (simp add: mask_eq_exp_minus_1)
  have "and n (mask 32) = take_bit 32 n" by (simp add: take_bit_eq_mask)
  then show ?thesis unfolding m by (simp add: take_bit_eq_mod unat_mod_distrib)
qed

lemma size_halves:
  obtains hi lo where "u32_try_from (drop_bit 32 n) = Some hi" and "u32_try_from (and n 0xffffffff) = Some lo"
    and "unat hi * 2 ^ 32 + unat lo = unat (n :: u64)"
proof -
  have "unat n < 2 ^ 64" using unat_lt_2p [of n] by simp
  then have hi: "unat n div 2 ^ 32 < 2 ^ 32" by (simp add: less_mult_imp_div_less)
  have lo: "unat n mod 2 ^ 32 < 2 ^ 32" by simp
  have u: "unat (ucast m :: u32) = unat m" if "unat m < 2 ^ 32" for m :: u64
    using that by (simp add: unsigned_ucast_eq take_bit_eq_mod)
  show thesis
  proof (rule that)
    show "u32_try_from (drop_bit 32 n) = Some (ucast (drop_bit 32 n))"
      using hi unfolding u32_try_from_def unat_high_half by simp
    show "u32_try_from (and n 0xffffffff) = Some (ucast (and n 0xffffffff))"
      using lo unfolding u32_try_from_def unat_low_half by simp
    have "unat (ucast (drop_bit 32 n) :: u32) = unat n div 2 ^ 32"
      using u [of "drop_bit 32 n"] hi unfolding unat_high_half by simp
    moreover have "unat (ucast (and n 0xffffffff) :: u32) = unat n mod 2 ^ 32"
      using u [of "and n 0xffffffff"] lo unfolding unat_low_half by simp
    ultimately show "unat (ucast (drop_bit 32 n) :: u32) * 2 ^ 32 + unat (ucast (and n 0xffffffff) :: u32) = unat n"
      using div_mult_mod_eq [of "unat n" "2 ^ 32"] by presburger
  qed
qed

section \<open>Properties\<close>

text \<open>
  C39: creating shared memory on Windows asks for exactly its size and never panics.  If the mapping object
  cannot be created, nothing is open; if it can be mapped, the memory has its size, and
  dropping it closes what was opened.  If it can be created but not mapped, the error is returned
  with the handle of the mapping object still open, and nothing is left that would close it.
\<close>

theorem win_shared_mem_handles:
  fixes w :: 'w
  assumes c: "win_contract self V os" and m: "win_mem_contract self V os mem"
  shows "\<exists>hi lo h w1. unat hi * 2 ^ 32 + unat lo = unat n \<and> CreateFileMapping mem hi lo w = (h, w1) \<and>
    (case (win_shared_mem_new mem n w :: ('b ipc_error, win_shared_mem) res \<times> 'w) of (r, w2) \<Rightarrow> (case r of
       Ok s \<Rightarrow> wsm_handle s = h \<and> wsm_size s = n \<and> length (wsm_bytes s) = unat n \<and>
         (\<exists>w3. win_shared_mem_drop os mem s w2 = (Ok (), w3) \<and> wv_tab V w3 = wv_tab V w)
     | Err _ \<Rightarrow> (if win_valid_handle h then wv_tab V w (self, h) = None \<and> wv_tab V w2 (self, h) \<noteq> None else w2 = w1)
     | Panic \<Rightarrow> False))"
proof -
  obtain hi lo where n: "u32_try_from (drop_bit 32 n) = Some hi" "u32_try_from (and n 0xffffffff) = Some lo"
    "unat hi * 2 ^ 32 + unat lo = unat n" by (rule size_halves)
  obtain h w1 where cr: "CreateFileMapping mem hi lo w = (h, w1)" by fastforce
  obtain p bytes w2 where mp: "MapViewOfFile mem h n w1 = (p, bytes, w2)" by (metis prod.exhaust)
  let ?s = "\<lparr>wsm_handle = h, wsm_ptr = p, wsm_size = n, wsm_bytes = bytes\<rparr>"
  have new: "win_shared_mem_new mem n w = (if \<not> win_valid_handle h then (Err (win_last_error mem w1), w1)
      else if \<not> win_valid_handle p then (Err (win_last_error mem w2), w2) else (Ok ?s, w2))"
    unfolding win_shared_mem_new_def n map_view_def using cr mp by simp
  note ml = map_law [OF m mp]
  have "\<exists>w3. win_shared_mem_drop os mem ?s w2 = (Ok (), w3) \<and> wv_tab V w3 = wv_tab V w"
    if v: "win_valid_handle h" "win_valid_handle p"
  proof -
    from create_law [OF m cr v(1)] obtain x where x: "wv_tab V w (self, h) = None"
      "wv_tab V w1 = (wv_tab V w)((self, h) := Some x)" by blast
    obtain ok w3 where un: "UnmapViewOfFile mem p w2 = (ok, w3)" by fastforce
    obtain ok' w4 where cl: "CloseHandle os h w3 = (ok', w4)" by fastforce
    have t: "wv_tab V w3 = (wv_tab V w)((self, h) := Some x)" "ok"
      using unmap_law [OF m un] v(2) ml x(2) by simp_all
    with close_ok_law [OF m cl] have "ok'" by simp
    moreover have "wv_tab V w4 = (wv_tab V w3)((self, h) := None)"
      using close_platform_handle_tab(1) [OF c, of h w3] cl by (simp add: win_close_platform_handle_def)
    ultimately show ?thesis using t un cl x(1) by (simp add: win_shared_mem_drop_def fun_upd_idem)
  qed
  moreover have "wv_tab V w (self, h) = None \<and> wv_tab V w2 (self, h) \<noteq> None" if "win_valid_handle h"
    using create_law [OF m cr that] ml by auto
  ultimately show ?thesis using n(3) cr ml
    by - (rule exI [of _ hi], rule exI [of _ lo], rule exI [of _ h], rule exI [of _ w1], auto simp: new)
qed

text \<open>The same system; a mapping of more than \<open>2 ^ 32\<close> bytes can be created and not mapped.\<close>

definition demo_mem :: "demo_sys win_mem" where
  "demo_mem = \<lparr>
     CreateFileMapping = (\<lambda>hi lo w. case List.find (\<lambda>v. demo_tab w (7, v) = None) [4, 8, 12] of
         Some v \<Rightarrow> (v, ((7, v), 5) # w) | None \<Rightarrow> (0, w)),
     MapViewOfFile = (\<lambda>h n w. if unat n < 2 ^ 32 then (0x10000, replicate (unat n) 0, w) else (0, [], w)),
     UnmapViewOfFile = (\<lambda>p w. (True, w)), GetLastError = (\<lambda>_. 8)\<rparr>"

lemma demo_mem_contract: "win_mem_contract 7 demo_view demo_win demo_mem"
proof -
  have "demo_tab w (7, h) \<noteq> None \<Longrightarrow> demo_proc h = None" for w h
    using proc_no_table [OF demo_contract, of w h] by (simp add: demo_view_def)
  then show ?thesis
    unfolding win_mem_contract_def demo_mem_def demo_view_def demo_win_def
    by (auto simp: find_Some_iff demo_tab_Cons win_valid_handle_def split: option.splits if_splits)
qed

theorem win_shared_mem_handles_witness:
  "(\<exists>s w2 w3. (win_shared_mem_new demo_mem 3 [] :: (unit ipc_error, win_shared_mem) res \<times> demo_sys) = (Ok s, w2) \<and> wsm_bytes s = [0, 0, 0] \<and>
      win_shared_mem_drop demo_win demo_mem s w2 = (Ok (), w3) \<and> demo_tab w3 = demo_tab []) \<and>
   (\<exists>e w2. (win_shared_mem_new demo_mem (2 ^ 40) [] :: (unit ipc_error, win_shared_mem) res \<times> demo_sys) = (Err e, w2) \<and> demo_tab w2 (7, 4) \<noteq> None)"
proof
  have create: "CreateFileMapping demo_mem hi lo [] = (4, [((7, 4), 5)])" for hi lo
    by (simp add: demo_mem_def demo_tab_def)
  have v: "win_valid_handle 4" "win_valid_handle 0x10000" "\<not> win_valid_handle 0"
    by (simp_all add: win_valid_handle_def WIN_INVALID_HANDLE_VALUE_def)
  have new: "win_shared_mem_new demo_mem n [] = map_view demo_mem 4 n [((7, 4), 5)]" for n
  proof -
    obtain hi lo where "u32_try_from (drop_bit 32 n) = Some hi" "u32_try_from (and n 0xffffffff) = Some lo"
      by (rule size_halves)
    then show ?thesis unfolding win_shared_mem_new_def create using v by simp
  qed
  note handles = win_shared_mem_handles [where 'b = unit, OF demo_contract demo_mem_contract, of _ "[]", unfolded create]
  have "(win_shared_mem_new demo_mem 3 [] :: (unit ipc_error, win_shared_mem) res \<times> demo_sys) = (Ok \<lparr>wsm_handle = 4, wsm_ptr = 0x10000, wsm_size = 3, wsm_bytes = [0, 0, 0]\<rparr>, [((7, 4), 5)])"
    unfolding new using v by (simp add: map_view_def demo_mem_def) (simp add: numeral_3_eq_3)
  with handles [of 3] show "\<exists>s w2 w3. (win_shared_mem_new demo_mem 3 [] :: (unit ipc_error, win_shared_mem) res \<times> demo_sys) = (Ok s, w2) \<and> wsm_bytes s = [0, 0, 0] \<and>
      win_shared_mem_drop demo_win demo_mem s w2 = (Ok (), w3) \<and> demo_tab w3 = demo_tab []"
    by (auto simp: demo_view_def)
  have "(win_shared_mem_new demo_mem (2 ^ 40) [] :: (unit ipc_error, win_shared_mem) res \<times> demo_sys) = (Err (win_last_error demo_mem [((7, 4), 5)]), [((7, 4), 5)])"
    unfolding new using v by (simp add: map_view_def demo_mem_def)
  with handles [of "2 ^ 40"] v show "\<exists>e w2. (win_shared_mem_new demo_mem (2 ^ 40) [] :: (unit ipc_error, win_shared_mem) res \<times> demo_sys) = (Err e, w2) \<and> demo_tab w2 (7, 4) \<noteq> None"
    by (auto simp: demo_view_def)
qed

end
