(* ===== verification/Spec2Isabelle.thy ===== *)
theory Spec2Isabelle
  imports Teardown ServerLib TestRun TestServer StartupRace WinShm
begin

text \<open>
  A model of mozilla/audioipc, the cubeb audio backend that runs in a server process for sandboxed clients.

  The program.  A client process sees a cubeb context (\<open>client/src/context.rs\<close>) and streams (\<open>client/src/stream.rs\<close>).
  Every operation is a message to the server (\<open>audioipc/src/messages.rs\<close>), sent by a proxy and answered by the server's
  \<open>CubebServer\<close> (\<open>server/src/server.rs\<close>), which runs the operation on the real cubeb.  Messages are framed by
  \<open>audioipc/src/codec.rs\<close>, travel over a Unix socket pair together with file descriptors (\<open>audioipc/src/sys\<close>), and are
  moved by event loops (\<open>audioipc/src/ipccore.rs\<close>) between the handlers of \<open>audioipc/src/rpccore.rs\<close>.  Audio data crosses
  in shared memory (\<open>audioipc/src/shm.rs\<close>): on cubeb's thread the server's data callback copies the input in, calls the
  client's callback server over a second connection, and copies the output out.  A third connection reports changes
  of the device collection.

  Theories, in the order of the layers; the header of each says how its state and operations
  correspond to the code.

  \<^item> \<open>Prelude\<close>: integers, outcomes with errors and panics, bytes.  \<open>Containers\<close>: the slab and the array queue as
    parameters with contracts.  \<open>Cubeb\<close>: cubeb's constants and errors as parameters, \<open>errors.rs\<close>.
  \<^item> \<open>Codec\<close> (\<open>codec.rs\<close>), \<open>Messages\<close> and \<open>Handles\<close> (\<open>messages.rs\<close>, \<open>lib.rs\<close>), \<open>Sys\<close> (\<open>sys/mod.rs\<close>, \<open>sys/unix\<close>): frames, message
    types, platform handles and how they are detached from and attached to messages, and the pipe.
  \<^item> \<open>Rpccore\<close>, \<open>RpcSystem\<close>, \<open>Proxies\<close> (\<open>rpccore.rs\<close>): completions, the request queue and both handlers; the two
    ends of a connection as a step relation; the life cycle of proxies.
  \<^item> \<open>Driver\<close>, \<open>Connection\<close>, \<open>EventLoop\<close>, \<open>Threads\<close> (\<open>ipccore.rs\<close>): the framed driver, a connection and its registration,
    the loop with its requests, the thread that runs it; \<open>Teardown\<close>: how both ends of a connection end.
  \<^item> \<open>Shm\<close> (\<open>shm.rs\<close>), \<open>ServerCallbacks\<close> (the callbacks of a server stream), \<open>ClientCallbacks\<close> (the client's callback
    server and the callback guard of \<open>client/src/lib.rs\<close>), \<open>AudioPath\<close>, \<open>AudioSession\<close>: the way of the audio data, for one
    callback and for any sequence of them.
  \<^item> \<open>ServerStreams\<close>, \<open>Server\<close>, \<open>ServerSpec\<close> (\<open>server.rs\<close>), \<open>ServerLib\<close> (\<open>server/src/lib.rs\<close>): the validation and sizes of
    streams and the device map, every request of the server, what runs of it guarantee, and the entry points.
  \<^item> \<open>Client\<close> (\<open>send_recv.rs\<close>, \<open>stream.rs\<close>), \<open>ClientContext\<close> (\<open>context.rs\<close>, \<open>lib.rs\<close>), \<open>Remote\<close>, \<open>RemoteSession\<close>:
    the client's operations, and the client on the server.
  \<^item> \<open>TestClient\<close>, \<open>TestClientSpec\<close>, \<open>TestTone\<close>, \<open>TestRun\<close> (\<open>ipctest/src/client.rs\<close>): the client test, its tone, and its runs;
    \<open>TestServer\<close> (\<open>ipctest/src/lib.rs\<close>, \<open>main.rs\<close>): the program around it, on Unix and on Windows; \<open>StartupRace\<close>: the
    startup of a stream as a test of \<open>ipccore.rs\<close> sets it up.
  \<^item> \<open>WinHandles\<close>, \<open>WinPipe\<close>, \<open>WinRemoting\<close>, \<open>WinSpec\<close>, \<open>WinShm\<close> (the Windows variants in \<open>lib.rs\<close>, \<open>messages.rs\<close>, \<open>ipccore.rs\<close>,
    \<open>sys/windows/mod.rs\<close> and \<open>shm.rs\<close>): handles of processes and their duplication, the pipe and both loops of the framed
    driver, what they do to the tables of open handles, and shared memory.

  What is shown.

  \<^item> Frames: encoding and decoding are inverse in whatever pieces a frame arrives, and the decoder panics on exactly the headers
    its assertions reject (\<open>Codec\<close>); the same codec satisfies the interface \<open>message_codec\<close> of the driver.
  \<^item> Handles: a send and the peer's receive move every descriptor once (\<open>Sys\<close>); the responses a server
    has ready are consumed by the client's handler, all, once, in order, each with its descriptor (\<open>Connection\<close>).
  \<^item> RPC: responses are handed to the callers they belong to, every call can be answered, and dying connections
    release their callers (\<open>RpcSystem\<close>).
  \<^item> Event loop: registrations follow the outbound buffers, requests are served up to a shutdown, waiting
    callers are released, and the handling of an event returns (\<open>EventLoop\<close>, \<open>Driver\<close>).  When the last proxy of a
    connection is dropped, both ends of the connection go away (\<open>Teardown\<close>).
  \<^item> Audio: cubeb's callbacks in the server, in whatever sequence, are the application's own callbacks on the same frames
    (\<open>AudioPath\<close>, \<open>AudioSession\<close>), with all copies within bounds (\<open>ServerCallbacks\<close>, \<open>ClientCallbacks\<close>, \<open>Shm\<close>, \<open>ServerStreams\<close>).
  \<^item> Server: an invariant of its streams, responses of the kind of their requests, refinement of the abstract life
    cycle of streams (the step relation \<open>life_step\<close>), exactly which requests make it panic, the device-collection manager
    (\<open>Server\<close>, \<open>ServerSpec\<close>), and no thread left behind (\<open>ServerLib\<close>).
  \<^item> Client on server: a created stream is an initialized stream of the server whose
    callbacks meet the hypotheses of the audio path, so that the callbacks of cubeb are the application's own (\<open>RemoteSession\<close>);
    every stream operation is the server's cubeb operation, with its result and effect; device handles
    come back as the same devices; changes of the device collection reach the application (\<open>Remote\<close>).
  \<^item> Whole runs: the test client returns and leaves the server up and without its stream whatever fails (\<open>TestRun\<close>, over
    the contract \<open>system_contract\<close> of the parts and the invariant \<open>up\<close>); its tone is one waveform for cubeb (\<open>TestTone\<close>); the
    startup of a stream cannot deadlock with \<open>bind_server\<close>, and can with \<open>bind_server_async\<close> (\<open>StartupRace\<close>).
  \<^item> Windows: responses reach the client with handles of its own for the server's objects (\<open>WinSpec\<close>, over the locale
    \<open>win_sender\<close>); until bytes are written, dropping a connection takes back every handle its flushes put into other
    processes; shared memory is created with its exact size and closed by its drop (\<open>WinShm\<close>).
  \<^item> Behaviour that is not intended is stated as it is: descriptors repeated after a refused send,
    the wake lost by two concurrent drops, the shutdown refused by a full queue, an error of \<open>posix_fallocate\<close> judged by
    a stale \<open>errno\<close>, the registration for both directions that survives its server, the stream left behind by a
    failed creation, on Windows the handles given away by a partial write and the mapping left open by a failed view, the failure of a test that its
    program does not report, the handle lost to a wait for a debugger.

  Parameters.  Code outside the repository is an argument of the definitions that use it: bincode, the slab, the array
  queue, cubeb and its stream objects, the layout of control messages, system calls, \<open>mio\<close>, the creation
  of threads, thread priorities, floating-point arithmetic, processes.  What the code relies on is a contract (\<open>bincode_contract\<close>, \<open>slab_contract\<close>,
  \<open>array_queue_contract\<close>, \<open>cubeb_abi_contract\<close>, \<open>cubeb_contract\<close>, \<open>env_contract\<close>, \<open>cmsg_abi_contract\<close>, \<open>shm_os_contract\<close>,
  \<open>threads_contract\<close>, \<open>app_contract\<close>, \<open>win_contract\<close>, \<open>win_mem_contract\<close>, \<open>system_contract\<close>, \<open>client_able\<close>,
  \<open>threads_keep\<close>), each met by a concrete instance in the example of its properties.

  Interfaces are locales, interpreted on the model: \<open>message_codec\<close> (the codec for the driver), \<open>handle_message\<close> (messages with
  and without handles), \<open>rpc_handler\<close> (the client's and the server's handler), \<open>framed_link\<close> (the two
  directions of the program's connections), \<open>conn_driver\<close> (drivers for the connection)
  and \<open>win_sender\<close> (the sending end of a connection on Windows).

  Termination and fuel.  Loops that end are total functions.  The loops that depend on the outside are
  \<open>partial_function\<close>s over scripts of outcomes (\<open>None\<close>: the script ended first); that they return when the kernel
  runs dry is a theorem (\<open>framed_events_return\<close>, \<open>process_inbound_drains\<close>).  No fuel is used.

  Conventions.  \<open>usize\<close> and \<open>isize\<close> are 64 bits.  Integers that are only compared, looked up or passed on (tokens, device ids,
  addresses) are naturals.  A panic is the outcome \<open>Panic\<close> with the state at that point; a poisoned mutex is not
  modelled, nor are the resources a value frees when an error path drops it (descriptors, mappings), beyond the drops that are
  operations of the model (connections, proxies, streams, threads).

  Not modelled.  The connection and the event loop are modelled once, over the Unix pipe; on Windows the same code
  runs over the pipe of \<open>WinPipe\<close>, which is modelled up to the framed driver.  The socket pair, the
  shutdown of a pipe and the registration with \<open>mio\<close> are single calls of libraries.  The benchmark
  (\<open>audioipc/benches\<close>), the end-to-end test (\<open>ipctest/tests\<close>) and the unit tests but for the one of \<open>StartupRace\<close>: they only call
  the code above.
  Logging and \<open>Debug\<close> output.  The implementations that \<open>serde\<close> derives: bincode is a parameter.  cubeb running a callback
  while \<open>stream_init\<close> has not returned yet (the stream is then not connected and the callback reports an error,
  which \<open>data_callback\<close> models).
\<close>

end
